theory Spec2Isabelle
  imports Complex_Main "HOL-Library.Word"
begin

section \<open>Strings of the host language\<close>

text \<open>
  A string of the program is a sequence of 16-bit code units. The regular expressions of
  the program have no \<open>u\<close> flag, so they match code unit by code unit; \<open>js\<close> turns a
  literal of the theory into such a string.
\<close>

type_synonym jschar = "16 word"
type_synonym jsstring = "jschar list"

definition js :: "string \<Rightarrow> jsstring" where
  "js s = map (\<lambda>c. of_nat (of_char c)) s"

definition cu :: "char \<Rightarrow> jschar" where
  "cu c = of_nat (of_char c)"

text \<open>
  The class \<open>\s\<close> and the characters removed by \<open>trim()\<close> are the same set: the white
  space code points TAB, VT, FF, SP, NBSP, ZWNBSP and the other space separators, and the
  line terminators LF, CR, LS and PS.
\<close>

definition line_terminator :: "jschar \<Rightarrow> bool" where
  "line_terminator c = (c = 0x0A \<or> c = 0x0D \<or> c = 0x2028 \<or> c = 0x2029)"

definition whitespace :: "jschar \<Rightarrow> bool" where
  "whitespace c =
     (c = 0x09 \<or> c = 0x0B \<or> c = 0x0C \<or> c = 0x20 \<or> c = 0xA0 \<or> c = 0x1680
      \<or> (0x2000 \<le> c \<and> c \<le> 0x200A) \<or> c = 0x202F \<or> c = 0x205F \<or> c = 0x3000
      \<or> c = 0xFEFF \<or> line_terminator c)"

definition digit :: "jschar \<Rightarrow> bool" where
  "digit c = (0x30 \<le> c \<and> c \<le> 0x39)"

text \<open>The class \<open>[+\-*/]\<close>, written \<open>[*\/+\-]\<close> in the second guard of the local evaluator.\<close>

definition operator :: "jschar \<Rightarrow> bool" where
  "operator c = (c = 0x2B \<or> c = 0x2D \<or> c = 0x2A \<or> c = 0x2F)"

text \<open>The class \<open>[0-9.+\-*/()]\<close>: what \<open>[^0-9.+\-*/()]\<close> leaves in place.\<close>

definition expr_char :: "jschar \<Rightarrow> bool" where
  "expr_char c = (digit c \<or> c = 0x2E \<or> operator c \<or> c = 0x28 \<or> c = 0x29)"

text \<open>The class \<open>[0-9.+\-*/\s()]\<close>.\<close>

definition allowed :: "jschar \<Rightarrow> bool" where
  "allowed c = (expr_char c \<or> whitespace c)"

definition trim :: "jsstring \<Rightarrow> jsstring" where
  "trim s = rev (dropWhile whitespace (rev (dropWhile whitespace s)))"

definition startsWith :: "jsstring \<Rightarrow> jsstring \<Rightarrow> bool" where
  "startsWith s p = (take (length p) s = p)"

text \<open>\<open>/[*\/+\-]{2,}/.test(s)\<close>: two operator characters side by side somewhere in \<open>s\<close>.\<close>

fun operator_run :: "jsstring \<Rightarrow> bool" where
  "operator_run (a # b # s) = ((operator a \<and> operator b) \<or> operator_run (b # s))"
| "operator_run _ = False"

fun whitespace_run :: "jsstring \<Rightarrow> bool" where
  "whitespace_run (a # b # s) = ((whitespace a \<and> whitespace b) \<or> whitespace_run (b # s))"
| "whitespace_run _ = False"

definition padded :: "jsstring \<Rightarrow> bool" where
  "padded s = (case s of [] \<Rightarrow> False | c # _ \<Rightarrow> whitespace c \<or> whitespace (last s))"


section \<open>The model client\<close>

text \<open>
  The hosted model is outside the program: a call either rejects or resolves to a response
  whose \<open>text\<close> is a string or is absent. A request carries the model name and what varies
  in it (the image or the expression); the instruction text around it is fixed.
\<close>

datatype js_error = TypeError | SyntaxError | ClientError

datatype request =
    ExtractionRequest string jsstring jsstring
  | CalculationRequest string jsstring

datatype response = Response (response_text: "jsstring option")

type_synonym client = "request \<Rightarrow> js_error + response"

text \<open>
  \<open>replies r\<close> is the client that answers every request with \<open>r\<close>; \<open>tagged\<close> holds of
  the strings that start with "ERROR:".
\<close>

definition replies :: "js_error + response \<Rightarrow> client" where
  "replies r req = r"

definition tagged :: "jsstring \<Rightarrow> bool" where
  "tagged s = startsWith s (js ''ERROR:'')"


section \<open>Extraction, services/geminiService.ts\<close>

text \<open>
  \<open>gemini_validate\<close> is the test of the trimmed response and the three returns after it.
  \<open>gemini_extract_try\<close> is the body of the try block: a rejected call is thrown there, and so
  is the TypeError of \<open>trim\<close> on a missing text. The function catches both. Its result
  \<open>Inr s\<close> is the string the promise resolves to; \<open>Inl\<close> would be a rejection that
  reaches the caller.
\<close>

definition gemini_validate :: "jsstring \<Rightarrow> jsstring" where
  "gemini_validate text =
     (if text \<noteq> [] \<and> list_ex digit text \<and> list_ex operator text
      then filter allowed text
      else if startsWith text (js ''ERROR:'') then text
      else js ''ERROR: Could not recognize a valid expression in the image.'')"

definition gemini_extract_try :: "client \<Rightarrow> jsstring \<Rightarrow> jsstring \<Rightarrow> js_error + jsstring" where
  "gemini_extract_try ai base64Image mimeType =
     (case ai (ExtractionRequest ''gemini-2.5-flash'' mimeType base64Image) of
        Inl e \<Rightarrow> Inl e
      | Inr resp \<Rightarrow>
          (case response_text resp of
             None \<Rightarrow> Inl TypeError
           | Some raw \<Rightarrow> Inr (gemini_validate (trim raw))))"

definition gemini_extractExpressionFromImage ::
  "client \<Rightarrow> jsstring \<Rightarrow> jsstring \<Rightarrow> js_error + jsstring" where
  "gemini_extractExpressionFromImage ai base64Image mimeType =
     (case gemini_extract_try ai base64Image mimeType of
        Inl e \<Rightarrow> Inr (js ''ERROR: Failed to communicate with the AI model for extraction.'')
      | Inr s \<Rightarrow> Inr s)"


section \<open>Extraction, the second service file\<close>

text \<open>
  \<open>/(expression|result|answer)[:\-]?\s*/gi\<close>. Without the \<open>u\<close> flag, ignoring case
  compares the upper-case forms of single code units and never maps a code unit from 128
  upwards to one below 128, so a lower-case ASCII letter of the pattern matches exactly
  itself and its ASCII capital.
\<close>

definition ci_eq :: "char \<Rightarrow> jschar \<Rightarrow> bool" where
  "ci_eq p c = (c = cu p \<or> c = cu p - 0x20)"

fun ci_prefix :: "string \<Rightarrow> jsstring \<Rightarrow> jsstring option" where
  "ci_prefix [] s = Some s"
| "ci_prefix (p # ps) [] = None"
| "ci_prefix (p # ps) (c # s) = (if ci_eq p c then ci_prefix ps s else None)"

definition label_word :: "jsstring \<Rightarrow> jsstring option" where
  "label_word s =
     (case ci_prefix ''expression'' s of
        Some r \<Rightarrow> Some r
      | None \<Rightarrow>
          (case ci_prefix ''result'' s of
             Some r \<Rightarrow> Some r
           | None \<Rightarrow> ci_prefix ''answer'' s))"

definition separator :: "jsstring \<Rightarrow> jsstring" where
  "separator s = (case s of [] \<Rightarrow> [] | c # r \<Rightarrow> if c = 0x3A \<or> c = 0x2D then r else c # r)"

definition label_match :: "jsstring \<Rightarrow> jsstring option" where
  "label_match s =
     (case label_word s of
        None \<Rightarrow> None
      | Some r \<Rightarrow> Some (dropWhile whitespace (separator r)))"

lemma ci_prefix_length: "ci_prefix w s = Some r \<Longrightarrow> length s = length w + length r"
  by (induction w s rule: ci_prefix.induct) (auto split: if_splits)

lemma label_word_shorter: "label_word s = Some r \<Longrightarrow> length r < length s"
  by (auto simp: label_word_def split: option.splits dest: ci_prefix_length)

lemma separator_length: "length (separator r) \<le> length r"
  by (auto simp: separator_def split: list.splits)

lemma label_match_shorter: "label_match s = Some r \<Longrightarrow> length r < length s"
proof -
  assume "label_match s = Some r"
  then obtain r0 where w: "label_word s = Some r0" and r: "r = dropWhile whitespace (separator r0)"
    by (auto simp: label_match_def split: option.splits)
  have "length r \<le> length (separator r0)"
    unfolding r by (rule length_dropWhile_le)
  also have "\<dots> \<le> length r0" by (rule separator_length)
  also have "\<dots> < length s" using w by (rule label_word_shorter)
  finally show ?thesis .
qed

function strip_labels :: "jsstring \<Rightarrow> jsstring" where
  "strip_labels [] = []"
| "strip_labels (c # s) =
     (case label_match (c # s) of
        Some r \<Rightarrow> strip_labels r
      | None \<Rightarrow> c # strip_labels s)"
  by pat_completeness auto
termination
  by (relation "measure length") (auto dest: label_match_shorter)

text \<open>
  The response is trimmed, the labels are deleted, then all white space is deleted; the
  rest is as in the first file, with a sanitizer that keeps no white space.
\<close>

definition clean :: "jsstring \<Rightarrow> jsstring" where
  "clean raw = filter (\<lambda>c. \<not> whitespace c) (strip_labels (trim raw))"

definition local_validate :: "jsstring \<Rightarrow> jsstring" where
  "local_validate text =
     (if text \<noteq> [] \<and> list_ex digit text \<and> list_ex operator text
      then filter expr_char text
      else if startsWith text (js ''ERROR:'') then text
      else js ''ERROR: Could not recognize a valid expression in the image.'')"

definition local_extract_try :: "client \<Rightarrow> jsstring \<Rightarrow> jsstring \<Rightarrow> js_error + jsstring" where
  "local_extract_try ai base64Image mimeType =
     (case ai (ExtractionRequest ''gemini-2.5-pro'' mimeType base64Image) of
        Inl e \<Rightarrow> Inl e
      | Inr resp \<Rightarrow>
          (case response_text resp of
             None \<Rightarrow> Inl TypeError
           | Some raw \<Rightarrow> Inr (local_validate (clean raw))))"

definition local_extractExpressionFromImage ::
  "client \<Rightarrow> jsstring \<Rightarrow> jsstring \<Rightarrow> js_error + jsstring" where
  "local_extractExpressionFromImage ai base64Image mimeType =
     (case local_extract_try ai base64Image mimeType of
        Inl e \<Rightarrow> Inr (js ''ERROR: Failed to communicate with the AI model for extraction.'')
      | Inr s \<Rightarrow> Inr s)"


text \<open>
  To say in plain words what the pattern deletes: \<open>lower_case\<close> turns the capital
  letters A to Z into the small ones and leaves every other code unit alone, and a text
  starts with a label when its first ten code units spell "expression", or its first six
  "result" or "answer", in any mix of capital and small letters. The letters of the
  pattern are small letters, a to z.
\<close>

definition lower_case :: "jschar \<Rightarrow> jschar" where
  "lower_case c = (if 0x41 \<le> c \<and> c \<le> 0x5A then c + 0x20 else c)"

definition starts_label :: "jsstring \<Rightarrow> bool" where
  "starts_label s =
     (map lower_case (take 10 s) = js ''expression'' \<or> map lower_case (take 6 s) = js ''result''
      \<or> map lower_case (take 6 s) = js ''answer'')"

definition lower_letter :: "char \<Rightarrow> bool" where
  "lower_letter p = (0x61 \<le> cu p \<and> cu p \<le> 0x7A)"


section \<open>Numbers\<close>

text \<open>
  A number of the host language is a binary64 value: not-a-number, an infinity with its
  sign, or a finite value given by its sign and its magnitude, a rational; the two zeros
  differ in the sign only. Arithmetic computes the exact rational result and rounds it to
  the nearest representable magnitude, ties to the even one.
\<close>

datatype number = NaN | Infinity bool | Finite bool rat

text \<open>
  The number of digits of a positive integer in base \<open>b\<close>, and with it the exponent of the
  greatest power of \<open>b\<close> that does not exceed a positive rational.
\<close>

function int_length :: "int \<Rightarrow> int \<Rightarrow> int" where
  "int_length b n = (if n \<le> 0 \<or> b < 2 then 0 else 1 + int_length b (n div b))"
  by pat_completeness auto
termination
  by (relation "measure (\<lambda>(b, n). nat n)") (auto intro: int_div_less_self)

declare int_length.simps [simp del]

definition pow2 :: "int \<Rightarrow> rat" where
  "pow2 e = (if 0 \<le> e then 2 ^ nat e else 1 / 2 ^ nat (- e))"

definition pow10 :: "int \<Rightarrow> rat" where
  "pow10 e = (if 0 \<le> e then 10 ^ nat e else 1 / 10 ^ nat (- e))"

definition floor_log :: "int \<Rightarrow> rat \<Rightarrow> int" where
  "floor_log b q =
     (if 1 \<le> q then int_length b \<lfloor>q\<rfloor> - 1
      else - int_length b (\<lceil>1 / q\<rceil> - 1))"

text \<open>
  \<open>fl neg q\<close> rounds the magnitude of \<open>q\<close>. Its unit is 2 to the power \<open>e - 52\<close>, where
  \<open>e\<close> is the binary exponent of \<open>q\<close> and not below -1022, so that the subnormal numbers
  share one unit; a rounded magnitude that reaches 2 to the power 1024 is infinite.
\<close>

definition round_half_even :: "rat \<Rightarrow> int" where
  "round_half_even x =
     (let f = \<lfloor>x\<rfloor>; d = x - of_int f
      in if d < 1 / 2 then f else if 1 / 2 < d then f + 1 else if even f then f else f + 1)"

definition fl :: "bool \<Rightarrow> rat \<Rightarrow> number" where
  "fl neg q =
     (if q = 0 then Finite neg 0
      else let e = max (floor_log 2 \<bar>q\<bar>) (- 1022);
               u = pow2 (e - 52);
               r = of_int (round_half_even (\<bar>q\<bar> / u)) * u
           in if pow2 1024 \<le> r then Infinity neg else Finite neg r)"


text \<open>The operations add, unaryMinus, subtract, multiply and divide on numbers.\<close>

definition signed :: "bool \<Rightarrow> rat \<Rightarrow> rat" where
  "signed neg m = (if neg then - m else m)"

fun add :: "number \<Rightarrow> number \<Rightarrow> number" where
  "add NaN y = NaN"
| "add x NaN = NaN"
| "add (Infinity a) (Infinity b) = (if a = b then Infinity a else NaN)"
| "add (Infinity a) (Finite b y) = Infinity a"
| "add (Finite a x) (Infinity b) = Infinity b"
| "add (Finite a x) (Finite b y) =
     (let r = signed a x + signed b y
      in if r = 0 then Finite (a \<and> b) 0 else fl (r < 0) r)"

fun unaryMinus :: "number \<Rightarrow> number" where
  "unaryMinus NaN = NaN"
| "unaryMinus (Infinity a) = Infinity (\<not> a)"
| "unaryMinus (Finite a x) = Finite (\<not> a) x"

definition subtract :: "number \<Rightarrow> number \<Rightarrow> number" where
  "subtract x y = add x (unaryMinus y)"

fun multiply :: "number \<Rightarrow> number \<Rightarrow> number" where
  "multiply NaN y = NaN"
| "multiply x NaN = NaN"
| "multiply (Infinity a) (Infinity b) = Infinity (a \<noteq> b)"
| "multiply (Infinity a) (Finite b y) = (if y = 0 then NaN else Infinity (a \<noteq> b))"
| "multiply (Finite a x) (Infinity b) = (if x = 0 then NaN else Infinity (a \<noteq> b))"
| "multiply (Finite a x) (Finite b y) = fl (a \<noteq> b) (x * y)"

fun divide :: "number \<Rightarrow> number \<Rightarrow> number" where
  "divide NaN y = NaN"
| "divide x NaN = NaN"
| "divide (Infinity a) (Infinity b) = NaN"
| "divide (Infinity a) (Finite b y) = Infinity (a \<noteq> b)"
| "divide (Finite a x) (Infinity b) = Finite (a \<noteq> b) 0"
| "divide (Finite a x) (Finite b y) =
     (if y = 0 then (if x = 0 then NaN else Infinity (a \<noteq> b))
      else fl (a \<noteq> b) (x / y))"

fun isFinite :: "number \<Rightarrow> bool" where
  "isFinite (Finite a x) = True"
| "isFinite _ = False"

fun isNaN :: "number \<Rightarrow> bool" where
  "isNaN NaN = True"
| "isNaN _ = False"

subsection \<open>Number to string\<close>

text \<open>
  The conversion of a number to a string in base 10. The digits are the shortest decimal
  \<open>s\<close> of \<open>k\<close> digits such that \<open>s\<close> times 10 to the power \<open>n - k\<close> rounds to the
  number, and the closest such when there are two; \<open>candidate\<close> tries the two decimals
  of \<open>k\<close> digits next to the number. Seventeen digits are known to suffice for a binary64
  value; the theory does not rely on it, and ends the search at 17 with the digits cut off
  there.
\<close>

function decimal :: "int \<Rightarrow> jsstring" where
  "decimal n = (if n < 10 then [0x30 + word_of_int n]
                else decimal (n div 10) @ [0x30 + word_of_int (n mod 10)])"
  by pat_completeness auto
termination
  by (relation "measure nat") auto

declare decimal.simps [simp del]

definition candidate :: "rat \<Rightarrow> int \<Rightarrow> (int \<times> int) option" where
  "candidate x k =
     (let n = floor_log 10 x + 1;
          u = pow10 (n - k);
          lo = \<lfloor>x / u\<rfloor>;
          hi = (if lo + 1 = 10 ^ nat k then (10 ^ nat (k - 1), n + 1) else (lo + 1, n));
          ok_lo = (fl False (of_int lo * u) = Finite False x);
          ok_hi = (fl False (of_int (lo + 1) * u) = Finite False x);
          d_lo = x - of_int lo * u;
          d_hi = of_int (lo + 1) * u - x
      in if ok_lo \<and> ok_hi
         then Some (if d_lo < d_hi \<or> (d_lo = d_hi \<and> even lo) then (lo, n) else hi)
         else if ok_lo then Some (lo, n)
         else if ok_hi then Some hi
         else None)"

function shortest :: "rat \<Rightarrow> int \<Rightarrow> int \<times> int \<times> int" where
  "shortest x k =
     (case candidate x k of
        Some (s, n) \<Rightarrow> (s, n, k)
      | None \<Rightarrow>
          if k < 17 then shortest x (k + 1)
          else (let n = floor_log 10 x + 1 in (\<lfloor>x / pow10 (n - k)\<rfloor>, n, k)))"
  by pat_completeness auto
termination
  by (relation "measure (\<lambda>(x, k). nat (17 - k))") auto

declare shortest.simps [simp del]

definition render :: "int \<times> int \<times> int \<Rightarrow> jsstring" where
  "render snk =
     (case snk of (s, n, k) \<Rightarrow>
        let ds = decimal s
        in if k \<le> n \<and> n \<le> 21 then ds @ replicate (nat (n - k)) 0x30
           else if 0 < n \<and> n \<le> 21 then take (nat n) ds @ [0x2E] @ drop (nat n) ds
           else if - 6 < n \<and> n \<le> 0 then [0x30, 0x2E] @ replicate (nat (- n)) 0x30 @ ds
           else let e = n - 1;
                    es = (if e < 0 then [0x2D] else [0x2B]) @ decimal \<bar>e\<bar>
                in if k = 1 then ds @ [0x65] @ es
                   else take 1 ds @ [0x2E] @ drop 1 ds @ [0x65] @ es)"

fun toString :: "number \<Rightarrow> jsstring" where
  "toString NaN = js ''NaN''"
| "toString (Infinity neg) = (if neg then js ''-Infinity'' else js ''Infinity'')"
| "toString (Finite neg x) =
     (if x = 0 then js ''0''
      else (if neg then [0x2D] else []) @ render (shortest x 1))"


subsection \<open>String to number\<close>

text \<open>
  The conversion \<open>Number(text)\<close> of a string: surrounding white space is dropped, the empty
  text is 0, \<open>0x\<close>, \<open>0o\<close> and \<open>0b\<close> start an unsigned integer in base 16, 8 and 2, and
  any other text must be, as a whole, a signed decimal literal or Infinity. \<open>parseFloat\<close>
  drops leading white space and reads the longest prefix that is a signed decimal literal
  or Infinity.
\<close>

definition digit_value :: "jschar \<Rightarrow> int" where
  "digit_value c = uint c - 0x30"

definition hex_digit :: "jschar \<Rightarrow> bool" where
  "hex_digit c = (digit c \<or> (0x41 \<le> c \<and> c \<le> 0x46) \<or> (0x61 \<le> c \<and> c \<le> 0x66))"

definition hex_value :: "jschar \<Rightarrow> int" where
  "hex_value c = (if digit c then uint c - 0x30 else if c \<le> 0x46 then uint c - 0x37 else uint c - 0x57)"

definition octal_digit :: "jschar \<Rightarrow> bool" where
  "octal_digit c = (0x30 \<le> c \<and> c \<le> 0x37)"

definition binary_digit :: "jschar \<Rightarrow> bool" where
  "binary_digit c = (c = 0x30 \<or> c = 0x31)"

definition radix_value :: "int \<Rightarrow> (jschar \<Rightarrow> int) \<Rightarrow> jsstring \<Rightarrow> int" where
  "radix_value b f ds = foldl (\<lambda>a c. b * a + f c) 0 ds"

definition sign :: "jsstring \<Rightarrow> bool \<times> jsstring" where
  "sign s = (case s of
               [] \<Rightarrow> (False, [])
             | c # r \<Rightarrow> if c = 0x2B then (False, r) else if c = 0x2D then (True, r) else (False, s))"

definition fraction :: "jsstring \<Rightarrow> jsstring \<times> jsstring" where
  "fraction s = (case s of
                   [] \<Rightarrow> ([], [])
                 | c # r \<Rightarrow> if c = 0x2E then (takeWhile digit r, dropWhile digit r) else ([], s))"

definition is_e :: "jschar \<Rightarrow> bool" where
  "is_e c = (c = 0x65 \<or> c = 0x45)"

definition exponent_part :: "jsstring \<Rightarrow> int option" where
  "exponent_part s =
     (case s of
        [] \<Rightarrow> Some 0
      | c # r \<Rightarrow>
          if is_e c
          then (case sign r of (neg, ds) \<Rightarrow>
                  if ds \<noteq> [] \<and> list_all digit ds
                  then Some (if neg then - radix_value 10 digit_value ds else radix_value 10 digit_value ds)
                  else None)
          else None)"

definition exponent_prefix :: "jsstring \<Rightarrow> int" where
  "exponent_prefix s =
     (case s of
        [] \<Rightarrow> 0
      | c # r \<Rightarrow>
          if is_e c
          then (case sign r of (neg, ds) \<Rightarrow>
                  let e = radix_value 10 digit_value (takeWhile digit ds)
                  in if neg then - e else e)
          else 0)"

definition mantissa :: "jsstring \<Rightarrow> jsstring \<Rightarrow> int \<Rightarrow> rat" where
  "mantissa ip fp e = of_int (radix_value 10 digit_value (ip @ fp)) * pow10 (e - int (length fp))"

definition unsigned_decimal :: "jsstring \<Rightarrow> rat option" where
  "unsigned_decimal s =
     (let ip = takeWhile digit s
      in case fraction (dropWhile digit s) of (fp, r) \<Rightarrow>
           if ip = [] \<and> fp = [] then None
           else (case exponent_part r of
                   None \<Rightarrow> None
                 | Some e \<Rightarrow> Some (mantissa ip fp e)))"

definition radix_literal :: "jsstring \<Rightarrow> number option" where
  "radix_literal t =
     (case t of
        z # x # ds \<Rightarrow>
          if z \<noteq> 0x30 then None
          else if x = 0x78 \<or> x = 0x58
          then Some (if ds \<noteq> [] \<and> list_all hex_digit ds
                     then fl False (of_int (radix_value 16 hex_value ds)) else NaN)
          else if x = 0x6F \<or> x = 0x4F
          then Some (if ds \<noteq> [] \<and> list_all octal_digit ds
                     then fl False (of_int (radix_value 8 digit_value ds)) else NaN)
          else if x = 0x62 \<or> x = 0x42
          then Some (if ds \<noteq> [] \<and> list_all binary_digit ds
                     then fl False (of_int (radix_value 2 digit_value ds)) else NaN)
          else None
      | _ \<Rightarrow> None)"

definition StringToNumber :: "jsstring \<Rightarrow> number" where
  "StringToNumber s =
     (let t = trim s
      in if t = [] then Finite False 0
         else (case radix_literal t of
                 Some v \<Rightarrow> v
               | None \<Rightarrow>
                   (case sign t of (neg, r) \<Rightarrow>
                      if r = js ''Infinity'' then Infinity neg
                      else (case unsigned_decimal r of
                              None \<Rightarrow> NaN
                            | Some q \<Rightarrow> fl neg q))))"

definition parseFloat :: "jsstring \<Rightarrow> number" where
  "parseFloat s =
     (case sign (dropWhile whitespace s) of (neg, r) \<Rightarrow>
        if startsWith r (js ''Infinity'') then Infinity neg
        else let ip = takeWhile digit r
             in case fraction (dropWhile digit r) of (fp, r2) \<Rightarrow>
                  if ip = [] \<and> fp = [] then NaN
                  else fl neg (mantissa ip fp (exponent_prefix r2)))"

subsection \<open>Range and rendered form\<close>

text \<open>
  The greatest finite value, the numbers whose magnitude lies within it, the digit triples
  the rendering accepts, and what a rendered text looks like: it parses as an unsigned
  decimal with the given value, begins and ends with a digit, and is made of digits, the
  dot, the letter e and a sign.
\<close>

definition max_value :: rat where
  "max_value = pow2 1024 - pow2 971"

fun within_range :: "number \<Rightarrow> bool" where
  "within_range (Finite neg x) = (0 \<le> x \<and> x \<le> max_value)"
| "within_range n = True"

definition acceptable :: "int \<times> int \<times> int \<Rightarrow> bool" where
  "acceptable snk =
     (case snk of (s, n, k) \<Rightarrow>
        1 \<le> k \<and> 10 ^ nat (k - 1) \<le> s \<and> s < 10 ^ nat k
        \<and> isFinite (fl False (of_int s * pow10 (n - k))))"

definition plain :: "jschar \<Rightarrow> bool" where
  "plain c = (digit c \<or> c = 0x2E \<or> c = 0x65 \<or> c = 0x2B \<or> c = 0x2D)"

definition rendered :: "jsstring \<Rightarrow> rat \<Rightarrow> bool" where
  "rendered r q =
     (unsigned_decimal r = Some q \<and> r \<noteq> [] \<and> digit (hd r) \<and> digit (last r)
      \<and> list_all plain r)"


section \<open>Evaluation, services/geminiService.ts\<close>

text \<open>
  The response is kept when \<open>!isNaN(parseFloat(text)) && isFinite(Number(text))\<close> holds.
\<close>

definition gemini_check :: "jsstring \<Rightarrow> jsstring" where
  "gemini_check text =
     (if \<not> isNaN (parseFloat text) \<and> isFinite (StringToNumber text) then text
      else if startsWith text (js ''ERROR:'') then text
      else js ''ERROR: AI returned an invalid numerical format.'')"

definition gemini_calculate_try :: "client \<Rightarrow> jsstring \<Rightarrow> js_error + jsstring" where
  "gemini_calculate_try ai expression =
     (case ai (CalculationRequest ''gemini-2.5-flash'' expression) of
        Inl e \<Rightarrow> Inl e
      | Inr resp \<Rightarrow>
          (case response_text resp of
             None \<Rightarrow> Inl TypeError
           | Some raw \<Rightarrow> Inr (gemini_check (trim raw))))"

definition gemini_calculateExpression :: "client \<Rightarrow> jsstring \<Rightarrow> js_error + jsstring" where
  "gemini_calculateExpression ai expression =
     (case gemini_calculate_try ai expression of
        Inl e \<Rightarrow> Inr (js ''ERROR: Failed to communicate with the AI model for calculation.'')
      | Inr s \<Rightarrow> Inr s)"


section \<open>The host evaluator on expression text\<close>

text \<open>
  The local evaluator passes \<open>return\<close> and its input to \<open>new Function\<close> and calls the
  result. This section is the language's reading of such a function body when the input
  is made of digits, dots, the four operator characters, parentheses and white space and no
  two operator characters touch:
  \<^item> the lexer produces numeric literals (a digit string of two or more octal digits that
    starts with 0 is a legacy octal literal), punctuators and regular expression literals:
    a slash where an operand may start opens a literal, a slash after an operand divides;
  \<^item> parentheses are matched, and a group is an expression in parentheses or the
    arguments of a call;
  \<^item> an expression is read with its unary signs first, then * and /, then + and -, each
    from the left; a number that follows a complete expression starts a new statement
    when a line terminator lies between them, and is a syntax error when none does;
  \<^item> a line terminator right after \<open>return\<close> ends the statement, which then returns
    \<open>undefined\<close>; the statements after the first are parsed and never run;
  \<^item> calling a number, a string or a regular expression throws a TypeError; under + a
    regular expression becomes its source text, under the other operators not-a-number.

  A token carries whether a line terminator precedes it; a numeric literal carries its
  exact value, which is rounded when the literal is evaluated.
\<close>

datatype token =
    TNum rat | TRegex jsstring
  | TPlus | TMinus | TStar | TSlash | TLParen | TRParen | TDot | TEllipsis

definition legacy_octal :: "jsstring \<Rightarrow> bool" where
  "legacy_octal ip = (2 \<le> length ip \<and> take 1 ip = [0x30] \<and> list_all octal_digit ip)"

definition numeric_literal :: "jsstring \<Rightarrow> rat \<times> jsstring" where
  "numeric_literal s =
     (let ip = takeWhile digit s; r = dropWhile digit s
      in if legacy_octal ip then (of_int (radix_value 8 digit_value ip), r)
         else (case fraction r of (fp, r') \<Rightarrow> (mantissa ip fp 0, r')))"

text \<open>
  The value of an unsigned literal written with digits only, the strings that are such
  literals, and the texts after which a literal ends.
\<close>

definition mv :: "jsstring \<Rightarrow> rat" where
  "mv a = fst (numeric_literal a)"

definition literal :: "jsstring \<Rightarrow> number" where
  "literal a = fl False (mv a)"

definition digits :: "jsstring \<Rightarrow> bool" where
  "digits a = (a \<noteq> [] \<and> list_all digit a)"

definition stops :: "jsstring \<Rightarrow> bool" where
  "stops r = (case r of [] \<Rightarrow> True | c # r' \<Rightarrow> \<not> digit c \<and> c \<noteq> 0x2E)"

text \<open>
  A regular expression literal ends at the next slash, on the same line; digits right
  after it would be flags, and no digit is one. Its body is a pattern when the parentheses
  match and every * and + follows something that can be repeated.
\<close>

fun pattern_ok :: "nat \<Rightarrow> bool \<Rightarrow> jsstring \<Rightarrow> bool" where
  "pattern_ok d q [] = (d = 0)"
| "pattern_ok d q (c # s) =
     (if c = 0x28 then pattern_ok (Suc d) False s
      else if c = 0x29 then (case d of 0 \<Rightarrow> False | Suc d' \<Rightarrow> pattern_ok d' True s)
      else if c = 0x2A \<or> c = 0x2B then q \<and> pattern_ok d False s
      else pattern_ok d True s)"

definition regex_char :: "jschar \<Rightarrow> bool" where
  "regex_char c = (c \<noteq> 0x2F \<and> \<not> line_terminator c)"

definition regex_literal :: "jsstring \<Rightarrow> (token \<times> jsstring) option" where
  "regex_literal r =
     (let body = takeWhile regex_char r
      in case dropWhile regex_char r of
           [] \<Rightarrow> None
         | c # r' \<Rightarrow>
             if c = 0x2F \<and> body \<noteq> [] \<and> takeWhile digit r' = [] \<and> pattern_ok 0 False body
             then Some (TRegex body, r')
             else None)"

definition scan :: "bool \<Rightarrow> jsstring \<Rightarrow> (token \<times> jsstring) option" where
  "scan operand s =
     (case s of
        [] \<Rightarrow> None
      | c # r \<Rightarrow>
          if digit c then (case numeric_literal s of (v, r') \<Rightarrow> Some (TNum v, r'))
          else if c = 0x2E then
            (if takeWhile digit r \<noteq> [] then (case numeric_literal s of (v, r') \<Rightarrow> Some (TNum v, r'))
             else if take 2 r = [0x2E, 0x2E] then Some (TEllipsis, drop 2 r)
             else Some (TDot, r))
          else if c = 0x28 then Some (TLParen, r)
          else if c = 0x29 then Some (TRParen, r)
          else if c = 0x2B then Some (TPlus, r)
          else if c = 0x2D then Some (TMinus, r)
          else if c = 0x2A then Some (TStar, r)
          else if c = 0x2F then (if operand then Some (TSlash, r) else regex_literal r)
          else None)"

fun ends_operand :: "token \<Rightarrow> bool" where
  "ends_operand (TNum v) = True"
| "ends_operand (TRegex b) = True"
| "ends_operand TRParen = True"
| "ends_operand _ = False"

lemma fraction_length: "fraction s = (fp, r) \<Longrightarrow> length r \<le> length s"
  by (auto simp: fraction_def split: list.splits if_splits
      intro: le_trans[OF length_dropWhile_le])

lemma numeric_literal_length:
  assumes "numeric_literal s = (v, r)" shows "length r \<le> length s"
proof -
  obtain fp r' where f: "fraction (dropWhile digit s) = (fp, r')" by force
  have "length r' \<le> length (dropWhile digit s)" using f by (rule fraction_length)
  then have "length r' \<le> length s" using length_dropWhile_le[of digit s] by linarith
  then show ?thesis
    using assms f length_dropWhile_le[of digit s]
    by (auto simp: numeric_literal_def Let_def split: if_splits)
qed

lemma numeric_literal_digit:
  assumes "numeric_literal (c # s) = (v, r)" "digit c" shows "length r \<le> length s"
proof -
  have d: "dropWhile digit (c # s) = dropWhile digit s" using assms(2) by simp
  obtain fp r' where f: "fraction (dropWhile digit s) = (fp, r')" by force
  have "length r' \<le> length (dropWhile digit s)" using f by (rule fraction_length)
  then have "length r' \<le> length s" using length_dropWhile_le[of digit s] by linarith
  then show ?thesis
    using assms f d length_dropWhile_le[of digit s]
    by (auto simp: numeric_literal_def Let_def split: if_splits)
qed

lemma numeric_literal_dot:
  assumes "numeric_literal (0x2E # s) = (v, r)" shows "length r \<le> length s"
proof -
  have nd: "\<not> digit 0x2E" by (simp add: digit_def)
  have "legacy_octal [] = False" by (simp add: legacy_octal_def)
  then have "r = dropWhile digit s"
    using assms nd by (simp add: numeric_literal_def fraction_def)
  then show ?thesis by (simp add: length_dropWhile_le)
qed

lemma regex_literal_length: "regex_literal s = Some (t, r) \<Longrightarrow> length r < length s"
proof -
  assume a: "regex_literal s = Some (t, r)"
  then obtain c where "dropWhile regex_char s = c # r"
    by (auto simp: regex_literal_def Let_def split: list.splits if_splits)
  then have "length (dropWhile regex_char s) = Suc (length r)" by simp
  then show ?thesis using length_dropWhile_le[of regex_char s] by linarith
qed

lemma scan_length: "scan operand s = Some (t, r) \<Longrightarrow> length r < length s"
  by (cases s)
     (auto simp: scan_def split: if_splits prod.splits
        dest: numeric_literal_digit numeric_literal_dot regex_literal_length)

function lex :: "bool \<Rightarrow> bool \<Rightarrow> jsstring \<Rightarrow> (bool \<times> token) list option" where
  "lex operand nl [] = Some []"
| "lex operand nl (c # s) =
     (if line_terminator c then lex operand True s
      else if whitespace c then lex operand nl s
      else (case scan operand (c # s) of
              None \<Rightarrow> None
            | Some (t, r) \<Rightarrow>
                (case lex (ends_operand t) False r of
                   None \<Rightarrow> None
                 | Some ts \<Rightarrow> Some ((nl, t) # ts))))"
  by pat_completeness auto
termination
  by (relation "measure (\<lambda>(operand, nl, s). length s)") (auto dest: scan_length)

text \<open>Matching the parentheses: \<open>group\<close> keeps the lists of the groups still open.\<close>

datatype item = Tok bool token | Group "item list"

fun group :: "(bool \<times> token) list \<Rightarrow> item list list \<Rightarrow> item list option" where
  "group [] [cur] = Some (rev cur)"
| "group [] stack = None"
| "group ((nl, TLParen) # ts) stack = group ts ([] # stack)"
| "group ((nl, TRParen) # ts) (inner # outer # stack) =
     group ts ((Group (rev inner) # outer) # stack)"
| "group ((nl, TRParen) # ts) stack = None"
| "group ((nl, t) # ts) (cur # stack) = group ts ((Tok nl t # cur) # stack)"
| "group ((nl, t) # ts) [] = None"

datatype expr =
    Lit rat | RegExpLit jsstring
  | Pos expr | Neg expr
  | Add expr expr | Sub expr expr | Mul expr expr | Div expr expr
  | Call expr arguments
and arguments = NoArgument | Argument expr | Spread expr | Malformed

datatype elem = Leaf bool token | Paren arguments

text \<open>
  Reading the statements of one nesting level from the left: \<open>want\<close> expects an operand
  and collects the unary signs before it, \<open>after\<close> has read one. Both carry the sum and the
  product read so far, each with the operator that waits for its right operand.
\<close>

type_synonym pending = "(expr \<times> bool) option"

fun unary :: "bool list \<Rightarrow> expr \<Rightarrow> expr" where
  "unary [] e = e"
| "unary (negative # sg) e = unary sg (if negative then Neg e else Pos e)"

definition product :: "pending \<Rightarrow> expr \<Rightarrow> expr" where
  "product m e = (case m of None \<Rightarrow> e | Some (l, division) \<Rightarrow> if division then Div l e else Mul l e)"

definition total :: "pending \<Rightarrow> expr \<Rightarrow> expr" where
  "total a e = (case a of None \<Rightarrow> e | Some (l, subtraction) \<Rightarrow> if subtraction then Sub l e else Add l e)"

definition finish :: "pending \<Rightarrow> pending \<Rightarrow> bool list \<Rightarrow> expr \<Rightarrow> expr" where
  "finish a m sg e = total a (product m (unary sg e))"

definition prepend :: "'a \<Rightarrow> 'a list option \<Rightarrow> 'a list option" where
  "prepend x r = (case r of None \<Rightarrow> None | Some xs \<Rightarrow> Some (x # xs))"

fun want :: "pending \<Rightarrow> pending \<Rightarrow> bool list \<Rightarrow> elem list \<Rightarrow> expr list option"
and after :: "pending \<Rightarrow> pending \<Rightarrow> bool list \<Rightarrow> expr \<Rightarrow> elem list \<Rightarrow> expr list option" where
  "want a m sg [] = None"
| "want a m sg (Leaf nl TPlus # es) = want a m (False # sg) es"
| "want a m sg (Leaf nl TMinus # es) = want a m (True # sg) es"
| "want a m sg (Leaf nl (TNum v) # es) = after a m sg (Lit v) es"
| "want a m sg (Leaf nl (TRegex b) # es) = after a m sg (RegExpLit b) es"
| "want a m sg (Paren (Argument e) # es) = after a m sg e es"
| "want a m sg (e # es) = None"
| "after a m sg e [] = Some [finish a m sg e]"
| "after a m sg e (Leaf nl TStar # es) = want a (Some (product m (unary sg e), False)) [] es"
| "after a m sg e (Leaf nl TSlash # es) = want a (Some (product m (unary sg e), True)) [] es"
| "after a m sg e (Leaf nl TPlus # es) = want (Some (finish a m sg e, False)) None [] es"
| "after a m sg e (Leaf nl TMinus # es) = want (Some (finish a m sg e, True)) None [] es"
| "after a m sg e (Paren Malformed # es) = None"
| "after a m sg e (Paren args # es) = after a m sg (Call e args) es"
| "after a m sg e (Leaf nl (TNum v) # es) =
     (if nl then prepend (finish a m sg e) (after None None [] (Lit v) es) else None)"
| "after a m sg e (Leaf nl (TRegex b) # es) =
     (if nl then prepend (finish a m sg e) (after None None [] (RegExpLit b) es) else None)"
| "after a m sg e (Leaf nl t # es) = None"

definition arguments :: "elem list \<Rightarrow> arguments" where
  "arguments es =
     (case es of
        [] \<Rightarrow> NoArgument
      | Leaf nl TEllipsis # es' \<Rightarrow>
          (case want None None [] es' of Some [e] \<Rightarrow> Spread e | _ \<Rightarrow> Malformed)
      | _ \<Rightarrow> (case want None None [] es of Some [e] \<Rightarrow> Argument e | _ \<Rightarrow> Malformed))"

fun parse_item :: "item \<Rightarrow> elem" where
  "parse_item (Tok nl t) = Leaf nl t"
| "parse_item (Group its) = Paren (arguments (map parse_item its))"

text \<open>The values an expression of this form can have, and their conversions.\<close>

datatype jsvalue = Undefined | Num number | Str jsstring | RegExp jsstring

fun ToPrimitive :: "jsvalue \<Rightarrow> jsvalue" where
  "ToPrimitive (RegExp b) = Str ([0x2F] @ b @ [0x2F])"
| "ToPrimitive v = v"

fun ToNumber :: "jsvalue \<Rightarrow> number" where
  "ToNumber Undefined = NaN"
| "ToNumber (Num n) = n"
| "ToNumber (Str s) = StringToNumber s"
| "ToNumber (RegExp b) = StringToNumber ([0x2F] @ b @ [0x2F])"

fun ToString :: "jsvalue \<Rightarrow> jsstring" where
  "ToString Undefined = js ''undefined''"
| "ToString (Num n) = toString n"
| "ToString (Str s) = s"
| "ToString (RegExp b) = [0x2F] @ b @ [0x2F]"

fun is_string :: "jsvalue \<Rightarrow> bool" where
  "is_string (Str s) = True"
| "is_string _ = False"

fun finite_number :: "jsvalue \<Rightarrow> bool" where
  "finite_number (Num n) = isFinite n"
| "finite_number v = False"

fun in_range_value :: "jsvalue \<Rightarrow> bool" where
  "in_range_value (Num n) = within_range n"
| "in_range_value v = True"

definition addition :: "jsvalue \<Rightarrow> jsvalue \<Rightarrow> jsvalue" where
  "addition l r =
     (let lp = ToPrimitive l; rp = ToPrimitive r
      in if is_string lp \<or> is_string rp then Str (ToString lp @ ToString rp)
         else Num (add (ToNumber lp) (ToNumber rp)))"

definition binary :: "(jsvalue \<Rightarrow> jsvalue \<Rightarrow> jsvalue) \<Rightarrow> js_error + jsvalue \<Rightarrow> js_error + jsvalue
    \<Rightarrow> js_error + jsvalue" where
  "binary f l r =
     (case l of Inl e \<Rightarrow> Inl e
      | Inr x \<Rightarrow> (case r of Inl e \<Rightarrow> Inl e | Inr y \<Rightarrow> Inr (f x y)))"

definition arith :: "(number \<Rightarrow> number \<Rightarrow> number) \<Rightarrow> jsvalue \<Rightarrow> jsvalue \<Rightarrow> jsvalue" where
  "arith f x y = Num (f (ToNumber x) (ToNumber y))"

fun evaluate :: "expr \<Rightarrow> js_error + jsvalue" where
  "evaluate (Lit q) = Inr (Num (fl False q))"
| "evaluate (RegExpLit b) = Inr (RegExp b)"
| "evaluate (Pos e) = (case evaluate e of Inl x \<Rightarrow> Inl x | Inr v \<Rightarrow> Inr (Num (ToNumber v)))"
| "evaluate (Neg e) =
     (case evaluate e of Inl x \<Rightarrow> Inl x | Inr v \<Rightarrow> Inr (Num (unaryMinus (ToNumber v))))"
| "evaluate (Add l r) = binary addition (evaluate l) (evaluate r)"
| "evaluate (Sub l r) = binary (arith subtract) (evaluate l) (evaluate r)"
| "evaluate (Mul l r) = binary (arith multiply) (evaluate l) (evaluate r)"
| "evaluate (Div l r) = binary (arith divide) (evaluate l) (evaluate r)"
| "evaluate (Call f args) = Inl TypeError"

definition leading_line_terminator :: "jsstring \<Rightarrow> bool" where
  "leading_line_terminator s = list_ex line_terminator (takeWhile whitespace s)"

definition parse :: "jsstring \<Rightarrow> expr list option" where
  "parse s =
     (case lex False False s of
        None \<Rightarrow> None
      | Some ts \<Rightarrow>
          (case group ts [[]] of
             None \<Rightarrow> None
           | Some its \<Rightarrow> if its = [] then Some [] else want None None [] (map parse_item its)))"

definition return :: "jsstring \<Rightarrow> js_error + jsvalue" where
  "return s =
     (case parse s of
        None \<Rightarrow> Inl SyntaxError
      | Some [] \<Rightarrow> Inr Undefined
      | Some (e # stmts) \<Rightarrow> if leading_line_terminator s then Inr Undefined else evaluate e)"

text \<open>
  \<open>new_Function\<close> constructs and calls the function. It is defined on the bodies the local
  evaluator can build, and gives \<open>None\<close> on every other text.
\<close>

definition new_Function :: "jsstring \<Rightarrow> (js_error + jsvalue) option" where
  "new_Function body =
     (let s = drop 7 body
      in if take 7 body = js ''return '' \<and> list_all allowed s \<and> \<not> operator_run s
         then Some (return s) else None)"

text \<open>
  The local \<open>calculateExpression\<close>: the two guards, the call of the evaluator, the test
  of its result, and the catch block around all of it.
\<close>

definition local_guard :: "jsstring \<Rightarrow> jsstring + jsstring" where
  "local_guard expression =
     (let sanitizedExpression = filter allowed expression
      in if sanitizedExpression \<noteq> expression
         then Inl (js ''ERROR: Expression contains invalid characters.'')
         else if operator_run sanitizedExpression
         then Inl (js ''ERROR: Invalid operator sequence.'')
         else Inr (js ''return '' @ sanitizedExpression))"

definition local_result :: "jsvalue \<Rightarrow> jsstring" where
  "local_result result =
     (case result of
        Num n \<Rightarrow> if isFinite n then toString n
                 else js ''ERROR: Calculation resulted in an invalid number.''
      | _ \<Rightarrow> js ''ERROR: Calculation resulted in an invalid number.'')"

definition local_calculate_try :: "jsstring \<Rightarrow> (js_error + jsstring) option" where
  "local_calculate_try expression =
     (case local_guard expression of
        Inl message \<Rightarrow> Some (Inr message)
      | Inr body \<Rightarrow>
          (case new_Function body of
             None \<Rightarrow> None
           | Some (Inl e) \<Rightarrow> Some (Inl e)
           | Some (Inr result) \<Rightarrow> Some (Inr (local_result result))))"

definition local_calculateExpression :: "jsstring \<Rightarrow> (js_error + jsstring) option" where
  "local_calculateExpression expression =
     (case local_calculate_try expression of
        None \<Rightarrow> None
      | Some (Inl e) \<Rightarrow> Some (Inr (js ''ERROR: Invalid or unrecognized mathematical expression.''))
      | Some (Inr s) \<Rightarrow> Some (Inr s))"


section \<open>Arithmetic in conventional notation\<close>

text \<open>
  What precedence and associativity mean is said with expressions as trees: an operand
  written with digits, an operation on two expressions, or an expression in parentheses.
  \<open>notation_of p e\<close> writes a tree the conventional way, for a place that needs
  precedence \<open>p\<close> at least: the operators + and - have precedence 0, the operators * and
  / precedence 1; the left operand of an operator is written for the precedence of the
  operator and the right operand for one more, so that operators of one precedence group
  to the left; a tree whose operator is weaker than its place needs is put in parentheses.
  So the tree of 8 - (4 + 2) * 3 is written "8-(4+2)*3", and "8-4+2" is the notation of
  the tree that subtracts first. \<open>meaning\<close> is the number the tree stands for, with the
  operations of the host language on the values of the literals.
\<close>

datatype binop = Addition | Subtraction | Multiplication | Division

datatype arith = Operand jsstring | Binary arith binop arith | Parenthesized arith

fun sym :: "binop \<Rightarrow> jschar" where
  "sym Addition = 0x2B"
| "sym Subtraction = 0x2D"
| "sym Multiplication = 0x2A"
| "sym Division = 0x2F"

fun prec :: "binop \<Rightarrow> nat" where
  "prec Addition = 0"
| "prec Subtraction = 0"
| "prec Multiplication = 1"
| "prec Division = 1"

fun apply_op :: "binop \<Rightarrow> number \<Rightarrow> number \<Rightarrow> number" where
  "apply_op Addition = add"
| "apply_op Subtraction = subtract"
| "apply_op Multiplication = multiply"
| "apply_op Division = divide"

fun notation_of :: "nat \<Rightarrow> arith \<Rightarrow> jsstring" where
  "notation_of p (Operand a) = a"
| "notation_of p (Parenthesized e) = [0x28] @ notation_of 0 e @ [0x29]"
| "notation_of p (Binary l opr r) =
     (if prec opr < p
      then [0x28] @ notation_of (prec opr) l @ [sym opr] @ notation_of (Suc (prec opr)) r @ [0x29]
      else notation_of (prec opr) l @ [sym opr] @ notation_of (Suc (prec opr)) r)"

fun meaning :: "arith \<Rightarrow> number" where
  "meaning (Operand a) = literal a"
| "meaning (Parenthesized e) = meaning e"
| "meaning (Binary l opr r) = apply_op opr (meaning l) (meaning r)"

fun operands_digits :: "arith \<Rightarrow> bool" where
  "operands_digits (Operand a) = digits a"
| "operands_digits (Parenthesized e) = operands_digits e"
| "operands_digits (Binary l opr r) = (operands_digits l \<and> operands_digits r)"

text \<open>
  What the lexer, the matching of parentheses and the parser make of the notation of a
  tree: its tokens, its items and its expression. \<open>opens\<close> and \<open>binds\<close> say how the
  rest of the input starts: with the arguments of a call, or with something that binds
  tighter than + and -.
\<close>

fun optok :: "binop \<Rightarrow> token" where
  "optok Addition = TPlus"
| "optok Subtraction = TMinus"
| "optok Multiplication = TStar"
| "optok Division = TSlash"

fun opexpr :: "binop \<Rightarrow> expr \<Rightarrow> expr \<Rightarrow> expr" where
  "opexpr Addition = Add"
| "opexpr Subtraction = Sub"
| "opexpr Multiplication = Mul"
| "opexpr Division = Div"

fun toks :: "nat \<Rightarrow> arith \<Rightarrow> token list" where
  "toks p (Operand a) = [TNum (mv a)]"
| "toks p (Parenthesized e) = [TLParen] @ toks 0 e @ [TRParen]"
| "toks p (Binary l opr r) =
     (if prec opr < p
      then [TLParen] @ toks (prec opr) l @ [optok opr] @ toks (Suc (prec opr)) r @ [TRParen]
      else toks (prec opr) l @ [optok opr] @ toks (Suc (prec opr)) r)"

fun items :: "nat \<Rightarrow> arith \<Rightarrow> item list" where
  "items p (Operand a) = [Tok False (TNum (mv a))]"
| "items p (Parenthesized e) = [Group (items 0 e)]"
| "items p (Binary l opr r) =
     (if prec opr < p
      then [Group (items (prec opr) l @ [Tok False (optok opr)] @ items (Suc (prec opr)) r)]
      else items (prec opr) l @ [Tok False (optok opr)] @ items (Suc (prec opr)) r)"

fun tree :: "arith \<Rightarrow> expr" where
  "tree (Operand a) = Lit (mv a)"
| "tree (Parenthesized e) = tree e"
| "tree (Binary l opr r) = opexpr opr (tree l) (tree r)"

fun opens :: "elem list \<Rightarrow> bool" where
  "opens (Paren args # es) = True"
| "opens _ = False"

fun binds :: "elem list \<Rightarrow> bool" where
  "binds (Paren args # es) = True"
| "binds (Leaf nl TStar # es) = True"
| "binds (Leaf nl TSlash # es) = True"
| "binds _ = False"


section \<open>Facts about the string operations\<close>

lemma tagged_js:
  "tagged (js ''ERROR: Could not recognize a valid expression in the image.'')"
  "tagged (js ''ERROR: Failed to communicate with the AI model for extraction.'')"
  by (simp_all add: tagged_def startsWith_def js_def)

lemma set_trim: "set (trim s) \<subseteq> set s"
proof -
  have "set (trim s) \<subseteq> set (dropWhile whitespace s)"
    unfolding trim_def using set_dropWhileD by fastforce
  also have "\<dots> \<subseteq> set s" using set_dropWhileD by fastforce
  finally show ?thesis .
qed

lemma set_ci_prefix: "ci_prefix w s = Some r \<Longrightarrow> set r \<subseteq> set s"
  by (induction w s rule: ci_prefix.induct) (auto split: if_splits)

lemma set_separator: "set (separator r) \<subseteq> set r"
  by (auto simp: separator_def split: list.splits if_splits)

lemma set_label_match: "label_match s = Some r \<Longrightarrow> set r \<subseteq> set s"
proof -
  assume "label_match s = Some r"
  then obtain r0 where w: "label_word s = Some r0" and r: "r = dropWhile whitespace (separator r0)"
    by (auto simp: label_match_def split: option.splits)
  from w have "set r0 \<subseteq> set s"
    by (auto simp: label_word_def split: option.splits dest: set_ci_prefix)
  moreover have "set r \<subseteq> set (separator r0)" unfolding r using set_dropWhileD by fastforce
  ultimately show ?thesis using set_separator[of r0] by blast
qed

text \<open>Cleaning only deletes: every character of the cleaned text is one of the response.\<close>

lemma set_strip_labels: "set (strip_labels s) \<subseteq> set s"
proof (induction s rule: strip_labels.induct)
  case 1
  then show ?case by simp
next
  case (2 c s)
  show ?case
  proof (cases "label_match (c # s)")
    case None
    then show ?thesis using 2 by auto
  next
    case (Some r)
    then show ?thesis using 2 set_label_match[OF Some] by auto
  qed
qed

lemma set_clean: "set (clean raw) \<subseteq> set raw"
  unfolding clean_def using set_strip_labels[of "trim raw"] set_trim[of raw] by auto

lemma clean_no_whitespace: "\<not> list_ex whitespace (clean raw)"
  by (simp add: clean_def list_ex_iff)

lemma list_ex_mono_set: "set xs \<subseteq> set ys \<Longrightarrow> list_ex P xs \<Longrightarrow> list_ex P ys"
  by (auto simp: list_ex_iff)

lemma no_whitespace_run: "\<not> list_ex whitespace s \<Longrightarrow> \<not> whitespace_run s"
  by (induction s rule: whitespace_run.induct) auto

lemma no_whitespace_padded: "\<not> list_ex whitespace s \<Longrightarrow> \<not> padded s"
  by (cases s) (auto simp: padded_def list_ex_iff)

lemma gemini_validate_tagged:
  "\<not> (list_ex digit t \<and> list_ex operator t) \<Longrightarrow> tagged (gemini_validate t)"
  using tagged_js by (auto simp: gemini_validate_def tagged_def)

lemma local_validate_tagged:
  "\<not> (list_ex digit t \<and> list_ex operator t) \<Longrightarrow> tagged (local_validate t)"
  using tagged_js by (auto simp: local_validate_def tagged_def)

lemma gemini_validate_cases:
  "tagged (gemini_validate t) \<or> gemini_validate t = filter allowed t"
  using tagged_js by (auto simp: gemini_validate_def tagged_def)

lemma local_validate_cases:
  "tagged (local_validate t) \<or> local_validate t = filter expr_char t"
  using tagged_js by (auto simp: local_validate_def tagged_def)

lemma gemini_extract_cases:
  "(\<exists>raw. gemini_extractExpressionFromImage ai base64Image mimeType = Inr (gemini_validate (trim raw)))
   \<or> gemini_extractExpressionFromImage ai base64Image mimeType =
        Inr (js ''ERROR: Failed to communicate with the AI model for extraction.'')"
  by (auto simp: gemini_extractExpressionFromImage_def gemini_extract_try_def
      split: sum.splits option.splits)

lemma local_extract_cases:
  "(\<exists>raw. local_extractExpressionFromImage ai base64Image mimeType = Inr (local_validate (clean raw)))
   \<or> local_extractExpressionFromImage ai base64Image mimeType =
        Inr (js ''ERROR: Failed to communicate with the AI model for extraction.'')"
  by (auto simp: local_extractExpressionFromImage_def local_extract_try_def
      split: sum.splits option.splits)

lemmas char_classes =
  js_def cu_def whitespace_def line_terminator_def digit_def operator_def expr_char_def
  allowed_def

lemmas string_ops = trim_def startsWith_def tagged_def padded_def


section \<open>Facts about the labels\<close>

text \<open>
  A letter of the pattern matches a code unit exactly when the code unit, in lower case,
  is that letter; so a label is matched where the text starts with its spelling.
\<close>

lemma ci_eq_lower:
  assumes "lower_letter p"
  shows "ci_eq p c \<longleftrightarrow> lower_case c = cu p"
proof -
  have r: "0x61 \<le> cu p" "cu p \<le> 0x7A" using assms by (simp_all add: lower_letter_def)
  show ?thesis
  proof (cases "0x41 \<le> c \<and> c \<le> 0x5A")
    case True
    then have u: "unat c \<le> 0x5A" "0x41 \<le> unat c" by (simp_all add: word_le_nat_alt)
    have "c \<noteq> cu p" using True r by (auto simp: word_le_nat_alt)
    moreover have "c = cu p - 0x20 \<longleftrightarrow> c + 0x20 = cu p"
      by (metis add_diff_cancel_right' diff_add_cancel)
    ultimately show ?thesis using True by (simp add: ci_eq_def lower_case_def)
  next
    case False
    have "c \<noteq> cu p - 0x20"
    proof
      assume e: "c = cu p - 0x20"
      have "unat (cu p) \<ge> 0x61" "unat (cu p) \<le> 0x7A" using r by (simp_all add: word_le_nat_alt)
      then have "unat (cu p - 0x20) = unat (cu p) - 0x20"
        by (simp add: unat_sub word_le_nat_alt)
      then have "0x41 \<le> unat c" "unat c \<le> 0x5A"
        using e \<open>unat (cu p) \<ge> 0x61\<close> \<open>unat (cu p) \<le> 0x7A\<close> by simp_all
      then have "0x41 \<le> c \<and> c \<le> 0x5A" by (simp add: word_le_nat_alt)
      then show False using False by simp
    qed
    then show ?thesis using False by (auto simp: ci_eq_def lower_case_def)
  qed
qed

lemma ci_prefix_spells:
  "list_all lower_letter p \<Longrightarrow>
     ci_prefix p s = (if map lower_case (take (length p) s) = js p then Some (drop (length p) s) else None)"
proof (induction p s rule: ci_prefix.induct)
  case (1 s)
  then show ?case by (simp add: js_def)
next
  case (2 p ps)
  then show ?case by (simp add: js_def)
next
  case (3 p ps c s)
  then show ?case using ci_eq_lower[of p c] by (auto simp: js_def cu_def)
qed

lemma label_letters:
  "list_all lower_letter ''expression''" "list_all lower_letter ''result''"
  "list_all lower_letter ''answer''"
  by (simp_all add: lower_letter_def cu_def)

lemma label_lengths:
  "length ''expression'' = 10" "length ''result'' = 6" "length ''answer'' = 6"
  by simp_all

lemmas ci_prefix_labels =
  ci_prefix_spells[OF label_letters(1), unfolded label_lengths]
  ci_prefix_spells[OF label_letters(2), unfolded label_lengths]
  ci_prefix_spells[OF label_letters(3), unfolded label_lengths]

lemma label_word_spells:
  "label_word s =
     (if map lower_case (take 10 s) = js ''expression'' then Some (drop 10 s)
      else if map lower_case (take 6 s) = js ''result'' then Some (drop 6 s)
      else if map lower_case (take 6 s) = js ''answer'' then Some (drop 6 s)
      else None)"
  by (simp add: label_word_def ci_prefix_labels)

lemma strip_labels_keep:
  "\<not> starts_label (c # s) \<Longrightarrow> strip_labels (c # s) = c # strip_labels s"
  by (simp add: starts_label_def label_match_def label_word_spells del: take_Cons_numeral)

lemma spelled_length:
  "map lower_case w = js p \<Longrightarrow> length w = length p"
  by (metis length_map js_def)

lemma label_word_append:
  assumes "map lower_case w = js ''expression'' \<or> map lower_case w = js ''result''
      \<or> map lower_case w = js ''answer''"
  shows "label_word (w @ r) = Some r"
proof -
  consider "map lower_case w = js ''expression''" | "map lower_case w = js ''result''"
    | "map lower_case w = js ''answer''" using assms by blast
  then show ?thesis
  proof cases
    case 1
    then have "length w = 10" using spelled_length[of w "''expression''"] by simp
    then show ?thesis using 1 by (simp add: label_word_spells)
  next
    case 2
    then have l: "length w = 6" using spelled_length[of w "''result''"] by simp
    then obtain c w' where w: "w = c # w'" by (cases w) auto
    have "lower_case c = cu CHR ''r''" using 2 w by (simp add: js_def cu_def)
    then have "map lower_case (take 10 (w @ r)) \<noteq> js ''expression''"
      using w by (simp add: js_def cu_def)
    then show ?thesis using 2 l by (simp add: label_word_spells)
  next
    case 3
    then have l: "length w = 6" using spelled_length[of w "''answer''"] by simp
    then obtain c w' where w: "w = c # w'" by (cases w) auto
    have c: "lower_case c = cu CHR ''a''" using 3 w by (simp add: js_def cu_def)
    have "map lower_case (take 10 (w @ r)) \<noteq> js ''expression''"
      using w c by (simp add: js_def cu_def)
    moreover have "map lower_case w \<noteq> js ''result''" using 3 by (simp add: js_def)
    ultimately show ?thesis using 3 l by (simp add: label_word_spells)
  qed
qed

lemma strip_labels_label:
  assumes w: "map lower_case w = js ''expression'' \<or> map lower_case w = js ''result''
      \<or> map lower_case w = js ''answer''"
    and sep: "sep = [] \<or> sep = js '':'' \<or> sep = js ''-''"
    and ws: "list_all whitespace ws"
    and rest: "case rest of [] \<Rightarrow> True
       | c # r \<Rightarrow> \<not> whitespace c \<and> (sep = [] \<and> ws = [] \<longrightarrow> c \<noteq> 0x3A \<and> c \<noteq> 0x2D)"
  shows "strip_labels (w @ sep @ ws @ rest) = strip_labels rest"
proof -
  have lw: "label_word (w @ sep @ ws @ rest) = Some (sep @ ws @ rest)"
    using w by (rule label_word_append)
  have nw: "\<not> whitespace 0x3A" "\<not> whitespace 0x2D"
    by (simp_all add: whitespace_def line_terminator_def)
  have s: "separator (sep @ ws @ rest) = ws @ rest"
  proof (cases "sep = []")
    case False
    then show ?thesis using sep by (auto simp: separator_def js_def)
  next
    case True
    show ?thesis
    proof (cases ws)
      case Nil
      then show ?thesis using True rest by (cases rest) (auto simp: separator_def)
    next
      case (Cons x xs)
      then have "whitespace x" using ws by simp
      then have "x \<noteq> 0x3A" "x \<noteq> 0x2D" using nw by auto
      then show ?thesis using True Cons by (simp add: separator_def)
    qed
  qed
  have d: "dropWhile whitespace (ws @ rest) = rest"
  proof -
    have "dropWhile whitespace (ws @ rest) = dropWhile whitespace rest"
      using ws by (simp add: list_all_iff dropWhile_append2)
    also have "\<dots> = rest" using rest by (cases rest) auto
    finally show ?thesis .
  qed
  have m: "label_match (w @ sep @ ws @ rest) = Some rest"
    by (simp add: label_match_def lw s d)
  obtain c w' where "w = c # w'"
    using w by (cases w) (auto simp: js_def)
  then show ?thesis using m by simp
qed


section \<open>Evaluating the model on concrete input\<close>

text \<open>
  The simplifier computes with the definitions above once it knows the floor and the
  ceiling of a quotient of numerals and may unfold the recursive functions on numerals.
\<close>

lemma floor_rat_numeral_div [simp]: "\<lfloor>numeral a / numeral b :: rat\<rfloor> = numeral a div numeral b"
  by (metis floor_divide_of_int_eq of_int_numeral)
lemma ceiling_rat_numeral_div [simp]: "\<lceil>numeral a / numeral b :: rat\<rceil> = - (- numeral a div numeral b)"
  by (metis ceiling_def floor_divide_of_int_eq minus_divide_left of_int_minus of_int_numeral)

lemmas number_eval = fl_def floor_log_def int_length.simps pow2_def pow10_def
  round_half_even_def Let_def candidate_def decimal.simps shortest.simps render_def signed_def
  subtract_def

lemmas literal_eval = digit_value_def radix_value_def fraction_def mantissa_def legacy_octal_def
  octal_digit_def numeric_literal_def

lemmas parse_eval = scan_def regex_literal_def regex_char_def arguments_def product_def total_def
  finish_def prepend_def parse_def return_def leading_line_terminator_def new_Function_def

lemmas calc_eval = local_guard_def local_result_def local_calculate_try_def
  local_calculateExpression_def binary_def arith_def addition_def

lemmas string_number_eval = parseFloat_def StringToNumber_def sign_def unsigned_decimal_def
  exponent_part_def exponent_prefix_def radix_literal_def is_e_def hex_digit_def hex_value_def
  binary_digit_def


section \<open>Facts about the guards\<close>

lemma operator_run_iff:
  "operator_run s \<longleftrightarrow> (\<exists>i. Suc i < length s \<and> operator (s ! i) \<and> operator (s ! Suc i))"
proof (induction s rule: operator_run.induct)
  case (1 a b s)
  show ?case
  proof
    assume "operator_run (a # b # s)"
    then consider "operator a \<and> operator b" | "operator_run (b # s)" by auto
    then show "\<exists>i. Suc i < length (a # b # s) \<and> operator ((a # b # s) ! i)
        \<and> operator ((a # b # s) ! Suc i)"
    proof cases
      case 1
      then show ?thesis by (intro exI[of _ 0]) simp
    next
      case 2
      then obtain i where "Suc i < length (b # s)" "operator ((b # s) ! i)"
          "operator ((b # s) ! Suc i)"
        using "1.IH" by blast
      then show ?thesis by (intro exI[of _ "Suc i"]) simp
    qed
  next
    assume "\<exists>i. Suc i < length (a # b # s) \<and> operator ((a # b # s) ! i)
        \<and> operator ((a # b # s) ! Suc i)"
    then obtain i where i: "Suc i < length (a # b # s)" "operator ((a # b # s) ! i)"
        "operator ((a # b # s) ! Suc i)"
      by blast
    show "operator_run (a # b # s)"
    proof (cases i)
      case 0
      then show ?thesis using i by simp
    next
      case (Suc j)
      then have "Suc j < length (b # s) \<and> operator ((b # s) ! j) \<and> operator ((b # s) ! Suc j)"
        using i by simp
      then have "operator_run (b # s)" using "1.IH" by blast
      then show ?thesis by simp
    qed
  qed
qed simp_all

lemma filter_allowed_id: "filter allowed s = s \<longleftrightarrow> list_all allowed s"
  by (simp add: filter_id_conv list_all_iff)

lemma return_body: "take 7 (js ''return '' @ s) = js ''return '' \<and> drop 7 (js ''return '' @ s) = s"
  by (simp add: js_def)

lemma local_guard_cases:
  "local_guard s =
     (if \<not> list_all allowed s then Inl (js ''ERROR: Expression contains invalid characters.'')
      else if operator_run s then Inl (js ''ERROR: Invalid operator sequence.'')
      else Inr (js ''return '' @ s))"
  using filter_allowed_id[of s] by (auto simp: local_guard_def Let_def)

lemma new_Function_return:
  "list_all allowed s \<Longrightarrow> \<not> operator_run s \<Longrightarrow> new_Function (js ''return '' @ s) = Some (return s)"
  using return_body[of s] by (simp add: new_Function_def Let_def)

lemma local_calculateExpression_cases:
  "local_calculateExpression s =
     (if \<not> list_all allowed s then Some (Inr (js ''ERROR: Expression contains invalid characters.''))
      else if operator_run s then Some (Inr (js ''ERROR: Invalid operator sequence.''))
      else (case return s of
              Inl e \<Rightarrow> Some (Inr (js ''ERROR: Invalid or unrecognized mathematical expression.''))
            | Inr v \<Rightarrow> Some (Inr (local_result v))))"
  by (auto simp: local_calculateExpression_def local_calculate_try_def local_guard_cases
      new_Function_return split: sum.splits)

section \<open>Facts about the remote check\<close>

lemma gemini_calculate_text:
  "ai (CalculationRequest ''gemini-2.5-flash'' expression) = Inr (Response (Some raw)) \<Longrightarrow>
     gemini_calculateExpression ai expression = Inr (gemini_check (trim raw))"
  by (simp add: gemini_calculateExpression_def gemini_calculate_try_def)

lemma remote_examples:
  "gemini_check (js ''12px'') = js ''ERROR: AI returned an invalid numerical format.''"
  "gemini_check (js ''Infinity'') = js ''ERROR: AI returned an invalid numerical format.''"
  "gemini_check [] = js ''ERROR: AI returned an invalid numerical format.''"
  "gemini_check (js ''ERROR: Invalid expression'') = js ''ERROR: Invalid expression''"
  "gemini_check (js ''0x1F'') = js ''0x1F''"
  "gemini_check (js ''2.5e3'') = js ''2.5e3''"
  by (simp_all add: gemini_check_def string_number_eval literal_eval number_eval char_classes string_ops)


section \<open>Results that are no finite number\<close>

lemma local_result_invalid:
  "\<not> finite_number v \<Longrightarrow> local_result v = js ''ERROR: Calculation resulted in an invalid number.''"
  by (cases v) (auto simp: local_result_def)

section \<open>Lexing a literal\<close>

lemma digit_plain:
  assumes "digit c"
  shows "\<not> whitespace c" "\<not> line_terminator c" "\<not> operator c" "c \<noteq> 0x2E" "c \<noteq> 0x28"
    "c \<noteq> 0x29" "allowed c"
proof -
  have r: "0x30 \<le> c" "c \<le> 0x39" using assms by (simp_all add: digit_def)
  have "\<not> (0x2000 \<le> c)"
  proof
    assume "0x2000 \<le> c"
    then have "(0x2000 :: 16 word) \<le> 0x39" using r(2) by (rule order_trans)
    then show False by simp
  qed
  then show "\<not> whitespace c" "\<not> line_terminator c"
    using r by (auto simp: whitespace_def line_terminator_def)
  show "\<not> operator c" "c \<noteq> 0x2E" "c \<noteq> 0x28" "c \<noteq> 0x29"
    using r by (auto simp: operator_def)
  show "allowed c" using assms by (simp add: allowed_def expr_char_def)
qed

lemma takeWhile_digits: "list_all digit a \<Longrightarrow> stops r \<Longrightarrow> takeWhile digit (a @ r) = a"
  by (cases r) (auto simp: stops_def list_all_iff takeWhile_append2)

lemma dropWhile_digits: "list_all digit a \<Longrightarrow> stops r \<Longrightarrow> dropWhile digit (a @ r) = r"
  by (cases r) (auto simp: stops_def list_all_iff dropWhile_append2)

lemma fraction_stops: "stops r \<Longrightarrow> fraction r = ([], r)"
  by (cases r) (auto simp: stops_def fraction_def)

lemma numeric_literal_append:
  assumes "digits a" "stops r"
  shows "numeric_literal (a @ r) = (mv a, r)"
proof -
  have d: "list_all digit a" using assms(1) by (simp add: digits_def)
  have s0: "stops []" by (simp add: stops_def)
  have t: "takeWhile digit (a @ r) = a" "dropWhile digit (a @ r) = r"
    using d assms(2) by (simp_all add: takeWhile_digits dropWhile_digits)
  have t0: "takeWhile digit a = a" "dropWhile digit a = []"
    using takeWhile_digits[OF d s0] dropWhile_digits[OF d s0] by simp_all
  have f: "fraction r = ([], r)" using assms(2) by (rule fraction_stops)
  have f0: "fraction [] = ([], [])" by (simp add: fraction_def)
  show ?thesis
    unfolding mv_def numeric_literal_def t t0 f f0 Let_def by simp
qed

lemma lex_literal:
  assumes "digits a" "stops r"
  shows "lex operand nl (a @ r) =
    (case lex True False r of None \<Rightarrow> None | Some ts \<Rightarrow> Some ((nl, TNum (mv a)) # ts))"
proof -
  obtain c a' where a: "a = c # a'" using assms(1) by (cases a) (auto simp: digits_def)
  have c: "digit c" using assms(1) a by (simp add: digits_def)
  have n: "numeric_literal (c # a' @ r) = (mv (c # a'), r)"
    using numeric_literal_append[OF assms] a by simp
  have "scan operand (c # a' @ r) = Some (TNum (mv (c # a')), r)"
    using c n by (simp add: scan_def)
  then have "lex operand nl (c # a' @ r) =
    (case lex True False r of None \<Rightarrow> None
     | Some ts \<Rightarrow> Some ((nl, TNum (mv (c # a'))) # ts))"
    using digit_plain(1,2)[OF c] by simp
  then show ?thesis unfolding a by simp
qed

lemma stops_simps [simp]:
  "stops (0x2B # r)" "stops (0x2D # r)" "stops (0x2A # r)" "stops (0x2F # r)" "stops (0x29 # r)"
  by (simp_all add: stops_def digit_def)

lemma operator_run_digits: "digits a \<Longrightarrow> operator_run (a @ r) = operator_run r"
proof (induction a)
  case Nil
  then show ?case by (simp add: digits_def)
next
  case (Cons x a)
  then have x: "\<not> operator x" using digit_plain(3)[of x] by (simp add: digits_def)
  show ?case
  proof (cases a)
    case Nil
    then show ?thesis using x by (cases r) simp_all
  next
    case (Cons y a')
    then have "digits a" using Cons.prems by (simp add: digits_def)
    then have "operator_run (a @ r) = operator_run r" by (rule Cons.IH)
    then show ?thesis using x Cons by simp
  qed
qed

lemma allowed_digits: "digits a \<Longrightarrow> list_all allowed a"
  using digit_plain(7) by (auto simp: digits_def list_all_iff)

lemma leading_plain: "\<not> whitespace c \<Longrightarrow> leading_line_terminator (c # s) = False"
  by (simp add: leading_line_terminator_def)

lemma addition_numbers: "addition (Num x) (Num y) = Num (add x y)"
  by (simp add: addition_def)

section \<open>Reading conventional notation\<close>

text \<open>
  The lexer turns the notation of a tree into its tokens, the matching of parentheses
  turns the tokens into its items, and the parser reads the items as the expression of the
  tree, whatever it has read before and whatever follows.
\<close>

lemma sym_stops [simp]: "stops (sym opr # r)"
  by (cases opr) simp_all

lemma scan_sym: "scan True (sym opr # r) = Some (optok opr, r)"
  by (cases opr) (simp_all add: scan_def digit_def)

lemma sym_plain: "\<not> line_terminator (sym opr)" "\<not> whitespace (sym opr)" "operator (sym opr)"
  "allowed (sym opr)"
  by (cases opr; simp add: line_terminator_def whitespace_def operator_def allowed_def expr_char_def)+

lemma ends_optok [simp]: "ends_operand (optok opr) = False"
  by (cases opr) simp_all

lemma lex_sym: "lex True nl (sym opr # r) =
   (case lex False False r of None \<Rightarrow> None | Some ts \<Rightarrow> Some ((nl, optok opr) # ts))"
  using sym_plain(1,2)[of opr] by (simp add: scan_sym)

lemma lex_open: "lex operand nl (0x28 # r) =
   (case lex False False r of None \<Rightarrow> None | Some ts \<Rightarrow> Some ((nl, TLParen) # ts))"
  by (simp add: scan_def line_terminator_def whitespace_def digit_def)

lemma lex_close: "lex operand nl (0x29 # r) =
   (case lex True False r of None \<Rightarrow> None | Some ts \<Rightarrow> Some ((nl, TRParen) # ts))"
  by (simp add: scan_def line_terminator_def whitespace_def digit_def)

lemma lex_notation:
  "operands_digits e \<Longrightarrow> stops r \<Longrightarrow> lex True False r = Some ts \<Longrightarrow>
     lex operand False (notation_of p e @ r) = Some (map (Pair False) (toks p e) @ ts)"
proof (induction e arbitrary: p r ts operand)
  case (Operand a)
  then show ?case by (simp add: lex_literal)
next
  case (Parenthesized e)
  have "lex True False (0x29 # r) = Some ((False, TRParen) # ts)"
    using Parenthesized.prems by (subst lex_close) simp
  then have "lex False False (notation_of 0 e @ 0x29 # r)
      = Some (map (Pair False) (toks 0 e) @ (False, TRParen) # ts)"
    using Parenthesized.prems by (intro Parenthesized.IH) simp_all
  then show ?case by (simp add: lex_open del: lex.simps)
next
  case (Binary l opr r')
  have body: "lex operand' False (notation_of (prec opr) l @ sym opr # notation_of (Suc (prec opr)) r' @ r0)
      = Some (map (Pair False) (toks (prec opr) l @ optok opr # toks (Suc (prec opr)) r') @ ts0)"
    if "stops r0" "lex True False r0 = Some ts0" for r0 ts0 operand'
  proof -
    have "lex False False (notation_of (Suc (prec opr)) r' @ r0)
        = Some (map (Pair False) (toks (Suc (prec opr)) r') @ ts0)"
      using Binary.prems that by (intro Binary.IH(2)) simp_all
    then have "lex True False (sym opr # notation_of (Suc (prec opr)) r' @ r0)
        = Some ((False, optok opr) # map (Pair False) (toks (Suc (prec opr)) r') @ ts0)"
      by (subst lex_sym) simp
    then have "lex operand' False (notation_of (prec opr) l @ sym opr # notation_of (Suc (prec opr)) r' @ r0)
        = Some (map (Pair False) (toks (prec opr) l) @ (False, optok opr) #
            map (Pair False) (toks (Suc (prec opr)) r') @ ts0)"
      using Binary.prems by (intro Binary.IH(1)) simp_all
    then show ?thesis by simp
  qed
  show ?case
  proof (cases "prec opr < p")
    case False
    then show ?thesis using body[OF Binary.prems(2,3)] by simp
  next
    case True
    have "lex True False (0x29 # r) = Some ((False, TRParen) # ts)"
      using Binary.prems by (subst lex_close) simp
    then show ?thesis using True body[of "0x29 # r" "(False, TRParen) # ts" False]
      by (simp add: lex_open del: lex.simps)
  qed
qed

lemma group_optok: "group ((nl, optok opr) # ts) (cur # stack) = group ts ((Tok nl (optok opr) # cur) # stack)"
  by (cases opr) simp_all

lemma group_notation:
  "group (map (Pair False) (toks p e) @ ts) (cur # stack) = group ts ((rev (items p e) @ cur) # stack)"
proof (induction e arbitrary: p ts cur stack)
  case (Operand a)
  then show ?case by simp
next
  case (Parenthesized e)
  then show ?case by simp
next
  case (Binary l opr r)
  then show ?case by (simp add: group_optok)
qed

lemma after_product:
  "\<not> opens rest \<Longrightarrow> after a m sg e rest = after a None [] (product m (unary sg e)) rest"
proof (cases rest)
  case Nil
  then show ?thesis by (simp add: finish_def product_def)
next
  case (Cons x es)
  assume n: "\<not> opens rest"
  show ?thesis
  proof (cases x)
    case (Leaf nl t)
    then show ?thesis using Cons by (cases t) (simp_all add: finish_def product_def)
  next
    case (Paren args)
    then show ?thesis using Cons n by simp
  qed
qed

lemma after_total:
  "\<not> binds rest \<Longrightarrow> after a m sg e rest = after None None [] (finish a m sg e) rest"
proof (cases rest)
  case Nil
  then show ?thesis by (simp add: finish_def product_def total_def)
next
  case (Cons x es)
  assume n: "\<not> binds rest"
  show ?thesis
  proof (cases x)
    case (Leaf nl t)
    then show ?thesis using Cons n by (cases t) (simp_all add: finish_def product_def total_def)
  next
    case (Paren args)
    then show ?thesis using Cons n by simp
  qed
qed

lemma items_head:
  "\<exists>x xs. map parse_item (items p e) = x # xs \<and> (\<forall>nl. x \<noteq> Leaf nl TEllipsis)"
proof (induction e arbitrary: p)
  case (Binary l opr r)
  obtain x xs where "map parse_item (items (prec opr) l) = x # xs" "\<forall>nl. x \<noteq> Leaf nl TEllipsis"
    using Binary.IH(1)[of "prec opr"] by (elim exE conjE)
  then show ?case by (cases "prec opr < p") auto
qed auto

lemma arguments_single:
  assumes "want None None [] (map parse_item (items p e)) = Some [x]"
  shows "arguments (map parse_item (items p e)) = Argument x"
proof -
  obtain y ys where h: "map parse_item (items p e) = y # ys" "\<forall>nl. y \<noteq> Leaf nl TEllipsis"
    using items_head[of p e] by (elim exE conjE)
  show ?thesis
  proof (cases y)
    case (Leaf nl t)
    then have "t \<noteq> TEllipsis" using h(2) by auto
    then show ?thesis using assms h(1) Leaf by (cases t) (simp_all add: arguments_def)
  next
    case (Paren args)
    then show ?thesis using assms h(1) by (simp add: arguments_def)
  qed
qed

lemma want_optok_sum:
  "prec opr = 0 \<Longrightarrow> after None None [] x (Leaf nl (optok opr) # es)
     = want (Some (x, opr = Subtraction)) None [] es"
  by (cases opr) (simp_all add: finish_def product_def total_def)

lemma want_optok_product:
  "prec opr = Suc 0 \<Longrightarrow> after a None [] x (Leaf nl (optok opr) # es)
     = want a (Some (x, opr = Division)) [] es"
  by (cases opr) (simp_all add: finish_def product_def total_def)

lemma finish_sum: "prec opr = 0 \<Longrightarrow> finish (Some (x, opr = Subtraction)) None [] y = opexpr opr x y"
  by (cases opr) (simp_all add: finish_def product_def total_def)

lemma product_product: "prec opr = Suc 0 \<Longrightarrow> product (Some (x, opr = Division)) y = opexpr opr x y"
  by (cases opr) (simp_all add: finish_def product_def total_def)

lemma opens_optok [simp]: "\<not> opens (Leaf nl t # es)" "\<not> binds (Leaf nl TPlus # es)" "\<not> binds (Leaf nl TMinus # es)"
  by simp_all

lemma binds_optok: "prec opr = 0 \<Longrightarrow> \<not> binds (Leaf nl (optok opr) # es)"
  by (cases opr) simp_all

lemma binds_opens: "\<not> binds rest \<Longrightarrow> \<not> opens rest"
  by (induction rest rule: binds.induct) simp_all

lemma prec_cases: "prec opr = 0 \<or> prec opr = Suc 0"
  by (cases opr) simp_all

lemma want_notation:
  "(\<forall>a m sg rest. want a m sg (map parse_item (items 2 e) @ rest) = after a m sg (tree e) rest)
   \<and> (\<forall>a rest. \<not> opens rest \<longrightarrow>
        want a None [] (map parse_item (items 1 e) @ rest) = after a None [] (tree e) rest)
   \<and> (\<forall>rest. \<not> binds rest \<longrightarrow>
        want None None [] (map parse_item (items 0 e) @ rest) = after None None [] (tree e) rest)"
proof (induction e)
  case (Operand a)
  then show ?case by simp
next
  case (Parenthesized e)
  have "want None None [] (map parse_item (items 0 e) @ []) = after None None [] (tree e) []"
    using Parenthesized.IH by (metis binds.simps(4))
  then have "want None None [] (map parse_item (items 0 e)) = Some [tree e]"
    by (simp add: finish_def product_def total_def)
  then have "arguments (map parse_item (items 0 e)) = Argument (tree e)"
    by (rule arguments_single)
  then show ?case by simp
next
  case (Binary l opr r)
  have l2: "want a m sg (map parse_item (items 2 l) @ rest) = after a m sg (tree l) rest"
    and l1: "\<not> opens rest \<Longrightarrow> want a None [] (map parse_item (items 1 l) @ rest) = after a None [] (tree l) rest"
    and l0: "\<not> binds rest \<Longrightarrow> want None None [] (map parse_item (items 0 l) @ rest) = after None None [] (tree l) rest"
    for a m sg rest
    using Binary.IH(1) by blast+
  have r2: "want a m sg (map parse_item (items 2 r) @ rest) = after a m sg (tree r) rest"
    and r1: "\<not> opens rest \<Longrightarrow> want a None [] (map parse_item (items 1 r) @ rest) = after a None [] (tree r) rest"
    for a m sg rest
    using Binary.IH(2) by blast+
  show ?case
  proof (cases "prec opr = 0")
    case True
    have c: "want None None [] (map parse_item (items 0 (Binary l opr r)) @ rest)
        = after None None [] (tree (Binary l opr r)) rest" if n: "\<not> binds rest" for rest
    proof -
      have "want None None [] (map parse_item (items 0 (Binary l opr r)) @ rest)
          = want None None [] (map parse_item (items 0 l) @ Leaf False (optok opr) # map parse_item (items 1 r) @ rest)"
        using True by simp
      also have "\<dots> = after None None [] (tree l) (Leaf False (optok opr) # map parse_item (items 1 r) @ rest)"
        using binds_optok[OF True] by (rule l0)
      also have "\<dots> = want (Some (tree l, opr = Subtraction)) None [] (map parse_item (items 1 r) @ rest)"
        using True by (rule want_optok_sum)
      also have "\<dots> = after (Some (tree l, opr = Subtraction)) None [] (tree r) rest"
        using binds_opens[OF n] by (rule r1)
      also have "\<dots> = after None None [] (finish (Some (tree l, opr = Subtraction)) None [] (tree r)) rest"
        using n by (rule after_total)
      also have "\<dots> = after None None [] (tree (Binary l opr r)) rest"
        using finish_sum[OF True] by simp
      finally show ?thesis .
    qed
    have "want None None [] (map parse_item (items 0 (Binary l opr r)) @ [])
        = after None None [] (tree (Binary l opr r)) []"
      by (rule c) simp
    then have "want None None [] (map parse_item (items 0 (Binary l opr r))) = Some [tree (Binary l opr r)]"
      by (simp add: finish_def product_def total_def)
    then have "arguments (map parse_item (items 0 (Binary l opr r))) = Argument (tree (Binary l opr r))"
      by (rule arguments_single)
    then have g: "map parse_item (items (Suc p) (Binary l opr r)) = [Paren (Argument (tree (Binary l opr r)))]" for p
      using True by simp
    have a2: "want a m sg (map parse_item (items 2 (Binary l opr r)) @ rest) = after a m sg (tree (Binary l opr r)) rest"
      for a m sg rest
      using g[of 1] by (simp add: numeral_2_eq_2)
    have a1: "want a m sg (map parse_item (items 1 (Binary l opr r)) @ rest) = after a m sg (tree (Binary l opr r)) rest"
      for a m sg rest
      using g[of 0] by simp
    show ?thesis using a2 a1 c by blast
  next
    case False
    then have T: "prec opr = Suc 0" using prec_cases[of opr] by simp
    have b: "want a None [] (map parse_item (items 1 (Binary l opr r)) @ rest)
        = after a None [] (tree (Binary l opr r)) rest" if n: "\<not> opens rest" for a rest
    proof -
      have "want a None [] (map parse_item (items 1 (Binary l opr r)) @ rest)
          = want a None [] (map parse_item (items 1 l) @ Leaf False (optok opr) # map parse_item (items 2 r) @ rest)"
        using T by (simp add: numeral_2_eq_2)
      also have "\<dots> = after a None [] (tree l) (Leaf False (optok opr) # map parse_item (items 2 r) @ rest)"
        by (rule l1) simp
      also have "\<dots> = want a (Some (tree l, opr = Division)) [] (map parse_item (items 2 r) @ rest)"
        using T by (rule want_optok_product)
      also have "\<dots> = after a (Some (tree l, opr = Division)) [] (tree r) rest"
        by (rule r2)
      also have "\<dots> = after a None [] (product (Some (tree l, opr = Division)) (unary [] (tree r))) rest"
        using n by (rule after_product)
      also have "\<dots> = after a None [] (tree (Binary l opr r)) rest"
        using product_product[OF T] by simp
      finally show ?thesis .
    qed
    have e01: "items 0 (Binary l opr r) = items 1 (Binary l opr r)" using T by simp
    have "want None None [] (map parse_item (items 1 (Binary l opr r)) @ [])
        = after None None [] (tree (Binary l opr r)) []"
      by (rule b) simp
    then have "want None None [] (map parse_item (items 1 (Binary l opr r))) = Some [tree (Binary l opr r)]"
      by (simp add: finish_def product_def total_def)
    then have "arguments (map parse_item (items 1 (Binary l opr r))) = Argument (tree (Binary l opr r))"
      by (rule arguments_single)
    then have "map parse_item (items 2 (Binary l opr r)) = [Paren (Argument (tree (Binary l opr r)))]"
      using T by (simp add: numeral_2_eq_2)
    then have a2: "want a m sg (map parse_item (items 2 (Binary l opr r)) @ rest) = after a m sg (tree (Binary l opr r)) rest"
      for a m sg rest
      by simp
    show ?thesis using a2 b e01 binds_opens by metis
  qed
qed

lemma parse_notation:
  assumes "operands_digits e"
  shows "parse (notation_of 0 e) = Some [tree e]"
proof -
  have "lex False False (notation_of 0 e @ []) = Some (map (Pair False) (toks 0 e) @ [])"
    using assms by (intro lex_notation) (simp_all add: stops_def)
  then have l: "lex False False (notation_of 0 e) = Some (map (Pair False) (toks 0 e))" by simp
  have "group (map (Pair False) (toks 0 e) @ []) ([] # []) = group [] ((rev (items 0 e) @ []) # [])"
    by (rule group_notation)
  then have g: "group (map (Pair False) (toks 0 e)) [[]] = Some (items 0 e)" by simp
  have n: "items 0 e \<noteq> []" using items_head[of 0 e] by auto
  have "want None None [] (map parse_item (items 0 e) @ []) = after None None [] (tree e) []"
    using want_notation[of e] by (metis binds.simps(4))
  then have w: "want None None [] (map parse_item (items 0 e)) = Some [tree e]"
    by (simp add: finish_def product_def total_def)
  show ?thesis by (simp add: parse_def l g n w)
qed

lemma notation_ends:
  "operands_digits e \<Longrightarrow>
     notation_of p e \<noteq> [] \<and> \<not> whitespace (hd (notation_of p e))
     \<and> \<not> operator (hd (notation_of p e)) \<and> \<not> operator (last (notation_of p e))"
proof (induction e arbitrary: p)
  case (Operand a)
  then have "a \<noteq> []" "digit (hd a)" "digit (last a)" by (auto simp: digits_def list_all_iff)
  then show ?case using digit_plain(1,3) by simp
next
  case (Parenthesized e)
  then show ?case by (simp add: whitespace_def line_terminator_def operator_def)
next
  case (Binary l opr r)
  have l: "notation_of (prec opr) l \<noteq> []" "\<not> whitespace (hd (notation_of (prec opr) l))"
      "\<not> operator (hd (notation_of (prec opr) l))"
    using Binary.IH(1)[of "prec opr"] Binary.prems by simp_all
  have r: "notation_of (Suc (prec opr)) r \<noteq> []" "\<not> operator (last (notation_of (Suc (prec opr)) r))"
    using Binary.IH(2)[of "Suc (prec opr)"] Binary.prems by simp_all
  show ?case
  proof (cases "prec opr < p")
    case True
    then show ?thesis by (simp add: whitespace_def line_terminator_def operator_def)
  next
    case False
    then show ?thesis using l r by simp
  qed
qed

lemma operator_run_append:
  "operator_run (s @ t) \<longleftrightarrow>
     operator_run s \<or> operator_run t \<or> (s \<noteq> [] \<and> t \<noteq> [] \<and> operator (last s) \<and> operator (hd t))"
proof (induction s)
  case Nil
  show ?case by simp
next
  case (Cons a s)
  note IH = Cons.IH
  show ?case
  proof (cases s)
    case Nil
    then show ?thesis by (cases t) auto
  next
    case (Cons b s')
    then show ?thesis using IH by auto
  qed
qed

lemma operator_run_parens:
  assumes "\<not> operator_run s"
  shows "\<not> operator_run ([0x28] @ s @ [0x29])"
proof -
  have "\<not> operator_run (s @ [0x29])"
    using assms by (subst operator_run_append) (simp add: operator_def)
  then show ?thesis by (subst operator_run_append) (simp add: operator_def)
qed

lemma allowed_parens: "allowed 0x28" "allowed 0x29"
  by (simp_all add: allowed_def expr_char_def)

lemma notation_guard:
  "operands_digits e \<Longrightarrow> list_all allowed (notation_of p e) \<and> \<not> operator_run (notation_of p e)"
proof (induction e arbitrary: p)
  case (Operand a)
  then show ?case
    using allowed_digits[of a] operator_run_digits[of a "[]"] by simp
next
  case (Parenthesized e)
  have g: "\<not> operator_run (notation_of 0 e)" "list_all allowed (notation_of 0 e)"
    using Parenthesized by simp_all
  show ?case
    using operator_run_parens[OF g(1)] g(2) allowed_parens by simp
next
  case (Binary l opr r)
  let ?l = "notation_of (prec opr) l" and ?r = "notation_of (Suc (prec opr)) r"
  have dl: "operands_digits l" and dr: "operands_digits r" using Binary.prems by simp_all
  have l: "?l \<noteq> []" "\<not> operator (hd ?l)" "\<not> operator (last ?l)"
    using notation_ends[OF dl, of "prec opr"] by simp_all
  have r: "?r \<noteq> []" "\<not> operator (hd ?r)" "\<not> operator (last ?r)"
    using notation_ends[OF dr, of "Suc (prec opr)"] by simp_all
  have gl: "list_all allowed ?l" "\<not> operator_run ?l" using Binary.IH(1)[OF dl] by simp_all
  have gr: "list_all allowed ?r" "\<not> operator_run ?r" using Binary.IH(2)[OF dr] by simp_all
  have s: "\<not> operator_run ([sym opr] @ ?r)"
    using r gr by (subst operator_run_append) simp
  have body: "\<not> operator_run (?l @ [sym opr] @ ?r)"
    using l gl s by (subst operator_run_append) simp
  have ab: "list_all allowed (?l @ [sym opr] @ ?r)" using gl gr sym_plain(4) by simp
  have pb: "\<not> operator_run ([0x28] @ (?l @ [sym opr] @ ?r) @ [0x29])"
    using body by (rule operator_run_parens)
  show ?case
  proof (cases "prec opr < p")
    case True
    then show ?thesis using ab pb allowed_parens by simp
  next
    case False
    then show ?thesis using ab body by simp
  qed
qed

lemma evaluate_tree: "evaluate (tree e) = Inr (Num (meaning e))"
proof (induction e)
  case (Binary l opr r)
  then show ?case by (cases opr) (simp_all add: binary_def arith_def addition_numbers)
qed (simp_all add: literal_def)

lemma return_notation:
  assumes "operands_digits e"
  shows "return (notation_of 0 e) = Inr (Num (meaning e))"
proof -
  obtain c s where n: "notation_of 0 e = c # s" "\<not> whitespace c"
    using notation_ends[OF assms, of 0] by (cases "notation_of 0 e") auto
  have "leading_line_terminator (notation_of 0 e) = False"
    unfolding n(1) using n(2) by (rule leading_plain)
  then show ?thesis
    by (simp add: return_def parse_notation[OF assms] evaluate_tree)
qed

lemma calculate_notation:
  assumes "operands_digits e"
  shows "local_calculateExpression (notation_of 0 e) = Some (Inr (local_result (Num (meaning e))))"
  using notation_guard[OF assms, of 0] return_notation[OF assms]
  by (simp add: local_calculateExpression_cases)

lemma three_operands:
  assumes "digits a" "digits b" "digits c"
  shows "local_calculateExpression (a @ [sym x] @ b @ [sym y] @ c)
      = Some (Inr (local_result (Num
          (if prec x < prec y
           then apply_op x (literal a) (apply_op y (literal b) (literal c))
           else apply_op y (apply_op x (literal a) (literal b)) (literal c)))))"
    and "local_calculateExpression ([0x28] @ a @ [sym x] @ b @ [0x29] @ [sym y] @ c)
      = Some (Inr (local_result (Num (apply_op y (apply_op x (literal a) (literal b)) (literal c)))))"
    and "local_calculateExpression (a @ [sym x] @ [0x28] @ b @ [sym y] @ c @ [0x29])
      = Some (Inr (local_result (Num (apply_op x (literal a) (apply_op y (literal b) (literal c))))))"
proof -
  show "local_calculateExpression (a @ [sym x] @ b @ [sym y] @ c)
      = Some (Inr (local_result (Num
          (if prec x < prec y
           then apply_op x (literal a) (apply_op y (literal b) (literal c))
           else apply_op y (apply_op x (literal a) (literal b)) (literal c)))))"
  proof (cases "prec x < prec y")
    case True
    then have p: "prec x = 0" "prec y = Suc 0" using prec_cases[of x] prec_cases[of y] by auto
    show ?thesis
      using calculate_notation[of "Binary (Operand a) x (Binary (Operand b) y (Operand c))"] assms True p
      by simp
  next
    case False
    then show ?thesis
      using calculate_notation[of "Binary (Binary (Operand a) x (Operand b)) y (Operand c)"] assms
      by simp
  qed
  show "local_calculateExpression ([0x28] @ a @ [sym x] @ b @ [0x29] @ [sym y] @ c)
      = Some (Inr (local_result (Num (apply_op y (apply_op x (literal a) (literal b)) (literal c)))))"
    using calculate_notation[of "Binary (Parenthesized (Binary (Operand a) x (Operand b))) y (Operand c)"] assms
    by simp
  show "local_calculateExpression (a @ [sym x] @ [0x28] @ b @ [sym y] @ c @ [0x29])
      = Some (Inr (local_result (Num (apply_op x (literal a) (apply_op y (literal b) (literal c))))))"
    using calculate_notation[of "Binary (Operand a) x (Parenthesized (Binary (Operand b) y (Operand c)))"] assms
    by simp
qed

section \<open>Rounding stays in range\<close>

lemma pow2_powi: "pow2 e = 2 powi e"
  by (simp add: pow2_def power_int_def inverse_eq_divide power_one_over)

lemma pow10_powi: "pow10 e = 10 powi e"
  by (simp add: pow10_def power_int_def inverse_eq_divide power_one_over)

lemma int_length_nonneg: "0 \<le> int_length b m"
  by (induction b m rule: int_length.induct) (simp add: int_length.simps)

lemma int_length_pos: "0 < n \<Longrightarrow> 2 \<le> b \<Longrightarrow> 1 \<le> int_length b n"
  using int_length.simps[of b n] int_length_nonneg[of b "n div b"] by simp

lemma int_length_bounds:
  "0 < n \<Longrightarrow> 2 \<le> b \<Longrightarrow>
     b ^ nat (int_length b n - 1) \<le> n \<and> n < b ^ nat (int_length b n)"
proof (induction b n rule: int_length.induct)
  case (1 b n)
  have b0: "0 < b" using 1(3) by simp
  have eq: "int_length b n = 1 + int_length b (n div b)"
    using 1(2,3) int_length.simps[of b n] by simp
  have m: "n = b * (n div b) + n mod b" by simp
  have r: "0 \<le> n mod b" "n mod b < b" using b0 by simp_all
  show ?case
  proof (cases "n div b = 0")
    case True
    then have "int_length b (n div b) = 0" by (simp add: int_length.simps)
    moreover have "n < b" using True m r by simp
    ultimately show ?thesis using 1(2) eq by simp
  next
    case False
    have "0 \<le> n div b" using b0 1(2) by (simp add: pos_imp_zdiv_nonneg_iff)
    then have p: "0 < n div b" using False by simp
    let ?l = "int_length b (n div b)"
    have l1: "1 \<le> ?l" using p 1(3) by (rule int_length_pos)
    have ih: "b ^ nat (?l - 1) \<le> n div b \<and> n div b < b ^ nat ?l"
      using 1(1) p 1(2,3) by simp
    have s: "nat ?l = Suc (nat (?l - 1))" using l1 by simp
    have "b * b ^ nat (?l - 1) \<le> b * (n div b)"
      using ih b0 by (simp add: mult_left_mono)
    moreover have "b * (n div b) \<le> n" using m r by linarith
    ultimately have lo: "b ^ nat ?l \<le> n" using s by simp
    have "n div b + 1 \<le> b ^ nat ?l" using ih by simp
    then have "b * (n div b + 1) \<le> b * b ^ nat ?l"
      using b0 by (simp add: mult_left_mono)
    moreover have "n < b * (n div b) + b" using m r by linarith
    moreover have "b * (n div b + 1) = b * (n div b) + b" by (simp add: algebra_simps)
    ultimately have hi: "n < b ^ Suc (nat ?l)" by simp
    have "nat (int_length b n - 1) = nat ?l" "nat (int_length b n) = Suc (nat ?l)"
      using eq l1 by simp_all
    then show ?thesis using lo hi by simp
  qed
qed


lemma powi_neg: "0 \<le> l \<Longrightarrow> (x::rat) powi (- l) = 1 / x ^ nat l"
  by (cases "l = 0") (simp_all add: power_int_def inverse_eq_divide power_one_over)

lemma powi_nonneg: "0 \<le> l \<Longrightarrow> (x::rat) powi l = x ^ nat l"
  by (simp add: power_int_def)

lemma floor_log_bounds:
  assumes "0 < q" "2 \<le> b"
  shows "of_int b powi (floor_log b q) \<le> q \<and> q < of_int b powi (floor_log b q + 1)"
proof (cases "1 \<le> q")
  case True
  let ?f = "\<lfloor>q\<rfloor>"
  let ?l = "int_length b ?f"
  have f: "1 \<le> ?f" using True by simp
  then have l1: "1 \<le> ?l" using assms(2) by (simp add: int_length_pos)
  have bd: "b ^ nat (?l - 1) \<le> ?f \<and> ?f < b ^ nat ?l"
    using int_length_bounds[of ?f b] f assms(2) by simp
  have e: "floor_log b q = ?l - 1" using True by (simp add: floor_log_def)
  have fb: "(of_int (b ^ nat (?l - 1)) :: rat) \<le> of_int ?f"
    using bd by (simp only: of_int_le_iff)
  have "(of_int b :: rat) ^ nat (?l - 1) = of_int (b ^ nat (?l - 1))" by simp
  also note fb
  also have "of_int ?f \<le> q" by simp
  finally have lo: "(of_int b :: rat) ^ nat (?l - 1) \<le> q" .
  have "?f + 1 \<le> b ^ nat ?l" using bd by simp
  then have fb2: "(of_int (?f + 1) :: rat) \<le> of_int (b ^ nat ?l)"
    by (simp only: of_int_le_iff)
  have "q < of_int (?f + 1)" by linarith
  also note fb2
  also have "(of_int (b ^ nat ?l) :: rat) = of_int b ^ nat ?l" by simp
  finally have hi: "q < (of_int b :: rat) ^ nat ?l" .
  show ?thesis using lo hi l1 unfolding e by (simp add: powi_nonneg)
next
  case False
  let ?c = "\<lceil>1 / q\<rceil>"
  let ?m = "?c - 1"
  let ?l = "int_length b ?m"
  have q1: "q < 1" using False by simp
  have inv: "1 < 1 / q" using assms(1) q1 by (simp add: field_simps)
  then have "1 < ?c" by (simp add: less_ceiling_iff)
  then have m: "0 < ?m" by simp
  then have l1: "1 \<le> ?l" using assms(2) by (simp add: int_length_pos)
  have bd: "b ^ nat (?l - 1) \<le> ?m \<and> ?m < b ^ nat ?l"
    using int_length_bounds[of ?m b] m assms(2) by simp
  have e: "floor_log b q = - ?l" using False by (simp add: floor_log_def)
  have B0: "0 < (of_int b :: rat)" using assms(2) by simp
  have "?c \<le> b ^ nat ?l" using bd by simp
  then have cb: "(of_int ?c :: rat) \<le> of_int (b ^ nat ?l)" by (simp only: of_int_le_iff)
  have "1 / q \<le> of_int ?c" by simp
  also note cb
  also have "(of_int (b ^ nat ?l) :: rat) = of_int b ^ nat ?l" by simp
  finally have "1 / q \<le> (of_int b :: rat) ^ nat ?l" .
  then have lo: "1 / (of_int b :: rat) ^ nat ?l \<le> q"
    using assms(1) B0 by (simp add: field_simps)
  have mb: "(of_int (b ^ nat (?l - 1)) :: rat) \<le> of_int ?m"
    using bd by (simp only: of_int_le_iff)
  have "(of_int b :: rat) ^ nat (?l - 1) = of_int (b ^ nat (?l - 1))" by simp
  also note mb
  also have "of_int ?m < 1 / q" using ceiling_correct[of "1 / q"] by simp
  finally have "(of_int b :: rat) ^ nat (?l - 1) < 1 / q" .
  then have hi: "q < 1 / (of_int b :: rat) ^ nat (?l - 1)"
    using assms(1) B0 by (simp add: field_simps)
  have "- ?l + 1 = - (?l - 1)" by simp
  then have "(of_int b :: rat) powi (- ?l + 1) = 1 / of_int b ^ nat (?l - 1)"
    using l1 powi_neg[of "?l - 1" "of_int b"] by simp
  moreover have "(of_int b :: rat) powi (- ?l) = 1 / of_int b ^ nat ?l"
    using l1 powi_neg[of ?l "of_int b"] by simp
  ultimately show ?thesis using lo hi unfolding e by simp
qed


lemma round_half_even_cases:
  "round_half_even x = \<lfloor>x\<rfloor> \<or> (round_half_even x = \<lfloor>x\<rfloor> + 1 \<and> of_int \<lfloor>x\<rfloor> < x)"
  by (auto simp: round_half_even_def Let_def)

lemma round_half_even_le: "x \<le> of_int N \<Longrightarrow> round_half_even x \<le> N"
proof -
  assume a: "x \<le> of_int N"
  then have "(of_int \<lfloor>x\<rfloor> :: rat) \<le> of_int N" using of_int_floor_le[of x] by linarith
  then have f: "\<lfloor>x\<rfloor> \<le> N" by simp
  consider "round_half_even x = \<lfloor>x\<rfloor>"
    | "round_half_even x = \<lfloor>x\<rfloor> + 1" "of_int \<lfloor>x\<rfloor> < x"
    using round_half_even_cases[of x] by blast
  then show ?thesis
  proof cases
    case 1
    then show ?thesis using f by simp
  next
    case 2
    then have "of_int \<lfloor>x\<rfloor> < (of_int N :: rat)" using a by linarith
    then have "\<lfloor>x\<rfloor> < N" by simp
    then show ?thesis using 2 by simp
  qed
qed

lemma round_half_even_ge: "of_int N \<le> x \<Longrightarrow> N \<le> round_half_even x"
proof -
  assume "of_int N \<le> x"
  then have "N \<le> \<lfloor>x\<rfloor>" by (simp add: le_floor_iff)
  then show ?thesis using round_half_even_cases[of x] by auto
qed

lemma two_powi_pos: "0 < (2::rat) powi i"
  by simp

lemma two_powi_add: "(2::rat) powi (i + j) = 2 powi i * 2 powi j"
  by (simp add: power_int_add)

lemma powi_shift: "j = i + k \<Longrightarrow> (2::rat) powi j = 2 powi i * 2 powi k"
  by (simp add: power_int_add)

lemma two_powi_mono: "i \<le> j \<Longrightarrow> (2::rat) powi i \<le> 2 powi j"
  by (simp add: power_int_increasing)

lemma max_value_eq: "max_value = (2 ^ 53 - 1) * 2 powi 971"
  by (simp add: max_value_def pow2_def)

lemma max_value_less: "max_value < 2 powi 1024" "2 powi 1023 \<le> max_value" "0 < max_value"
  by (simp_all add: max_value_def pow2_def)

lemma fl_unfold:
  assumes "q \<noteq> 0"
  defines "e \<equiv> max (floor_log 2 \<bar>q\<bar>) (- 1022)"
  defines "r \<equiv> of_int (round_half_even (\<bar>q\<bar> / 2 powi (e - 52))) * 2 powi (e - 52)"
  shows "fl neg q = (if 2 powi 1024 \<le> r then Infinity neg else Finite neg r)"
  using assms(1) unfolding e_def r_def by (simp add: fl_def Let_def pow2_powi)

lemma fl_range: "within_range (fl neg q)"
proof (cases "q = 0")
  case True
  then show ?thesis using max_value_less(3) by (simp add: fl_def)
next
  case False
  define a where "a = \<bar>q\<bar>"
  define L where "L = floor_log 2 a"
  define e where "e = max L (- 1022)"
  define u where "u = (2::rat) powi (e - 52)"
  define m where "m = round_half_even (a / u)"
  define r where "r = of_int m * u"
  have a0: "0 < a" using False by (simp add: a_def)
  have u0: "0 < u" by (simp add: u_def)
  have fl: "fl neg q = (if 2 powi 1024 \<le> r then Infinity neg else Finite neg r)"
    using fl_unfold[OF False, of neg] by (simp add: r_def m_def u_def e_def L_def a_def)
  have Lb: "2 powi L \<le> a" "a < 2 powi (L + 1)"
    using floor_log_bounds[OF a0, of 2] by (simp_all add: L_def)
  have "a < 2 powi (e + 1)"
    using Lb(2) two_powi_mono[of "L + 1" "e + 1"] by (simp add: e_def)
  also have "(2::rat) powi (e + 1) = 2 powi 53 * u"
    unfolding u_def by (rule powi_shift) simp
  finally have au: "a / u < 2 ^ 53" using u0 by (simp add: field_simps)
  have m53: "m \<le> 2 ^ 53"
    unfolding m_def by (rule round_half_even_le) (use au in simp)
  have m0: "0 \<le> m"
    unfolding m_def by (rule round_half_even_ge) (use a0 u0 in simp)
  have r0: "0 \<le> r" using m0 u0 by (simp add: r_def)
  show ?thesis
  proof (cases "2 powi 1024 \<le> r")
    case True
    then show ?thesis using fl by simp
  next
    case nover: False
    have "r \<le> max_value"
    proof (cases "e \<le> 1022")
      case True
      have "(of_int m :: rat) \<le> 2 ^ 53" using m53 by (metis of_int_le_iff of_int_numeral of_int_power)
      then have "r \<le> 2 ^ 53 * u" using u0 by (simp add: r_def)
      also have "\<dots> = 2 powi (e + 1)"
        using powi_shift[of "e + 1" 53 "e - 52"] by (simp add: u_def)
      also have "\<dots> \<le> 2 powi 1023" using True by (intro two_powi_mono) simp
      also have "\<dots> \<le> max_value" by (rule max_value_less(2))
      finally show ?thesis .
    next
      case False
      then have eL: "e = L" by (simp add: e_def)
      have "2 powi 52 * u = 2 powi e"
        using powi_shift[of e 52 "e - 52"] by (simp add: u_def)
      then have "2 ^ 52 \<le> a / u" using Lb(1) u0 eL by (simp add: field_simps)
      then have "2 ^ 52 \<le> m"
        unfolding m_def by (intro round_half_even_ge) simp
      then have "(2 ^ 52 :: rat) \<le> of_int m" by (metis of_int_le_iff of_int_numeral of_int_power)
      then have "2 ^ 52 * u \<le> r" using u0 by (simp add: r_def)
      then have re: "2 powi e \<le> r" using \<open>2 powi 52 * u = 2 powi e\<close> by simp
      have "e < 1024"
      proof (rule ccontr)
        assume "\<not> e < 1024"
        then have "(2::rat) powi 1024 \<le> 2 powi e" by (intro two_powi_mono) simp
        then show False using re nover by simp
      qed
      then have e: "e = 1023" using False by simp
      have "r < 2 powi 1024" using nover by simp
      also have "(2::rat) powi 1024 = 2 ^ 53 * u"
        using powi_shift[of 1024 53 971] by (simp add: u_def e)
      finally have "(of_int m :: rat) < 2 ^ 53" using u0 by (simp add: r_def)
      then have "m < 2 ^ 53" by (metis of_int_less_iff of_int_numeral of_int_power)
      then have "m \<le> 2 ^ 53 - 1" by simp
      then have "(of_int m :: rat) \<le> of_int (2 ^ 53 - 1)" by (simp only: of_int_le_iff)
      then have "r \<le> (2 ^ 53 - 1) * u" using u0 by (simp add: r_def)
      then show ?thesis by (simp add: max_value_eq u_def e)
    qed
    then show ?thesis using fl nover r0 by simp
  qed
qed

lemma fl_finite:
  assumes "\<bar>q\<bar> \<le> max_value"
  shows "isFinite (fl neg q)"
proof (cases "q = 0")
  case True
  then show ?thesis by (simp add: fl_def)
next
  case False
  define a where "a = \<bar>q\<bar>"
  define L where "L = floor_log 2 a"
  define e where "e = max L (- 1022)"
  define u where "u = (2::rat) powi (e - 52)"
  define m where "m = round_half_even (a / u)"
  define r where "r = of_int m * u"
  have a0: "0 < a" using False by (simp add: a_def)
  have u0: "0 < u" by (simp add: u_def)
  have fl: "fl neg q = (if 2 powi 1024 \<le> r then Infinity neg else Finite neg r)"
    using fl_unfold[OF False, of neg] by (simp add: r_def m_def u_def e_def L_def a_def)
  have Lb: "2 powi L \<le> a" using floor_log_bounds[OF a0, of 2] by (simp add: L_def)
  have "L < 1024"
  proof (rule ccontr)
    assume "\<not> L < 1024"
    then have "(2::rat) powi 1024 \<le> 2 powi L" by (intro two_powi_mono) simp
    then show False using Lb assms max_value_less(1) by (simp add: a_def)
  qed
  then have e: "e \<le> 1023" by (simp add: e_def)
  define N :: int where "N = (2 ^ 53 - 1) * 2 ^ nat (1023 - e)"
  have "(2::rat) powi (1023 - e) * u = 2 powi 971"
    using powi_shift[of 971 "1023 - e" "e - 52"] by (simp add: u_def)
  moreover have "(2::rat) powi (1023 - e) = 2 ^ nat (1023 - e)"
    using e by (simp add: powi_nonneg)
  ultimately have Nu: "of_int N * u = max_value"
    by (simp add: N_def max_value_eq mult.assoc)
  have "a \<le> of_int N * u" using assms Nu by (simp add: a_def)
  then have "a / u \<le> of_int N" using u0 by (simp add: field_simps)
  then have "m \<le> N" unfolding m_def by (rule round_half_even_le)
  then have "(of_int m :: rat) \<le> of_int N" by (simp only: of_int_le_iff)
  then have "r \<le> of_int N * u" using u0 by (simp add: r_def)
  then have "r < 2 powi 1024" using Nu max_value_less(1) by simp
  then show ?thesis using fl by simp
qed

section \<open>Digit strings\<close>

lemma digit_char:
  assumes "0 \<le> d" "d < 10"
  shows "digit (0x30 + word_of_int d)" "digit_value (0x30 + word_of_int d) = d"
proof -
  have "d = 0 \<or> d = 1 \<or> d = 2 \<or> d = 3 \<or> d = 4 \<or> d = 5 \<or> d = 6 \<or> d = 7 \<or> d = 8 \<or> d = 9"
    using assms by arith
  then show "digit (0x30 + word_of_int d)" "digit_value (0x30 + word_of_int d) = d"
    by (auto simp: digit_def digit_value_def)
qed

lemma radix_value_snoc: "radix_value b f (xs @ [c]) = b * radix_value b f xs + f c"
  by (simp add: radix_value_def)

lemma radix_value_append:
  "radix_value b f (xs @ ys) = radix_value b f xs * b ^ length ys + radix_value b f ys"
proof (induction ys rule: rev_induct)
  case Nil
  then show ?case by (simp add: radix_value_def)
next
  case (snoc y ys)
  have "radix_value b f (xs @ ys @ [y]) = b * radix_value b f (xs @ ys) + f y"
    using radix_value_snoc[of b f "xs @ ys" y] by simp
  then show ?case using snoc by (simp add: radix_value_snoc algebra_simps)
qed

lemma radix_value_zeros: "radix_value 10 digit_value (replicate j 0x30) = 0"
proof (induction j)
  case 0
  then show ?case by (simp add: radix_value_def)
next
  case (Suc j)
  have "replicate (Suc j) (0x30 :: jschar) = replicate j 0x30 @ [0x30]"
    by (simp add: replicate_append_same)
  then show ?case using Suc by (simp add: radix_value_snoc digit_value_def del: replicate_Suc)
qed

lemma decimal_facts:
  "0 \<le> n \<Longrightarrow> list_all digit (decimal n) \<and> decimal n \<noteq> []
     \<and> radix_value 10 digit_value (decimal n) = n"
proof (induction n rule: decimal.induct)
  case (1 n)
  show ?case
  proof (cases "n < 10")
    case True
    then show ?thesis
      using 1(2) digit_char[of n] by (simp add: decimal.simps[of n] radix_value_def)
  next
    case False
    have m: "0 \<le> n mod 10" "n mod 10 < 10" by simp_all
    have d: "0 \<le> n div 10" using 1(2) by simp
    have ih: "list_all digit (decimal (n div 10)) \<and> decimal (n div 10) \<noteq> []
        \<and> radix_value 10 digit_value (decimal (n div 10)) = n div 10"
      using 1(1)[OF False d] .
    have e: "decimal n = decimal (n div 10) @ [0x30 + word_of_int (n mod 10)]"
      using False by (simp add: decimal.simps[of n])
    show ?thesis
      unfolding e using ih digit_char[OF m] by (simp add: radix_value_snoc)
  qed
qed

lemma decimal_length:
  "10 ^ j \<le> n \<Longrightarrow> n < 10 ^ Suc j \<Longrightarrow> length (decimal n) = Suc j"
proof (induction j arbitrary: n)
  case 0
  then show ?case by (simp add: decimal.simps[of n])
next
  case (Suc j)
  have p: "(1::int) \<le> 10 ^ j" by simp
  have lo: "10 * 10 ^ j \<le> n" and hi: "n < 10 * (10 * 10 ^ j)" using Suc(2,3) by simp_all
  have n10: "\<not> n < 10" using lo p by linarith
  have m: "n = 10 * (n div 10) + n mod 10" by simp
  have r: "0 \<le> n mod 10" "n mod 10 < 10" by simp_all
  have "10 ^ j \<le> n div 10" using lo m r by linarith
  moreover have "n div 10 < 10 ^ Suc j" using hi m r by simp
  ultimately have "length (decimal (n div 10)) = Suc j" by (rule Suc.IH)
  then show ?case using n10 by (simp add: decimal.simps[of n])
qed

section \<open>The digits chosen for a number\<close>

lemma ten_powi_shift: "j = i + k \<Longrightarrow> (10::rat) powi j = 10 powi i * 10 powi k"
  by (simp add: power_int_add)

lemma leading_digits_bounds:
  assumes "0 < x" "1 \<le> k"
  defines "n \<equiv> floor_log 10 x + 1"
  defines "u \<equiv> pow10 (n - k)"
  defines "lo \<equiv> \<lfloor>x / u\<rfloor>"
  shows "10 ^ nat (k - 1) \<le> lo" "lo < 10 ^ nat k" "of_int lo * u \<le> x" "0 < u"
    "of_int (10 ^ nat k) * u = pow10 n"
proof -
  have u: "u = 10 powi (n - k)" by (simp add: u_def pow10_powi)
  show u0: "0 < u" by (simp add: u)
  have b: "10 powi (n - 1) \<le> x" "x < 10 powi n"
    using floor_log_bounds[OF assms(1), of 10] by (simp_all add: n_def)
  have k1: "(10::rat) powi (k - 1) = of_int (10 ^ nat (k - 1))"
    using assms(2) by (simp add: powi_nonneg)
  have k2: "(10::rat) powi k = of_int (10 ^ nat k)"
    using assms(2) by (simp add: powi_nonneg)
  have "(10::rat) powi (n - 1) = 10 powi (k - 1) * u"
    unfolding u by (rule ten_powi_shift) simp
  then have "of_int (10 ^ nat (k - 1)) \<le> x / u"
    using b(1) u0 k1 by (simp add: field_simps)
  then show "10 ^ nat (k - 1) \<le> lo" unfolding lo_def by (simp only: le_floor_iff)
  have s: "(10::rat) powi n = 10 powi k * u"
    unfolding u by (rule ten_powi_shift) simp
  then have "x / u < of_int (10 ^ nat k)"
    using b(2) u0 k2 by (simp add: field_simps)
  then show "lo < 10 ^ nat k" unfolding lo_def by (simp only: floor_less_iff)
  have "of_int lo \<le> x / u" unfolding lo_def by simp
  then show "of_int lo * u \<le> x" using u0 by (simp add: field_simps)
  show "of_int (10 ^ nat k) * u = pow10 n" using s k2 by (simp add: pow10_powi)
qed

lemma isFinite_sign: "isFinite (fl a q) = isFinite (fl b q)"
  by (simp add: fl_def Let_def)

lemma candidate_acceptable:
  assumes "0 < x" "1 \<le> k" "candidate x k = Some (s, n)"
  shows "acceptable (s, n, k)"
proof -
  define n0 where "n0 = floor_log 10 x + 1"
  define u where "u = pow10 (n0 - k)"
  define lo where "lo = \<lfloor>x / u\<rfloor>"
  note b = leading_digits_bounds[OF assms(1,2), folded n0_def u_def lo_def]
  have lo_case: "acceptable (lo, n0, k)" if "fl False (of_int lo * u) = Finite False x"
    using that b(1,2) assms(2) by (simp add: acceptable_def u_def)
  have hi_case: "acceptable (if lo + 1 = 10 ^ nat k then (10 ^ nat (k - 1), n0 + 1, k)
      else (lo + 1, n0, k))"
    if f: "fl False (of_int (lo + 1) * u) = Finite False x"
  proof (cases "lo + 1 = 10 ^ nat k")
    case True
    have p: "(1::int) \<le> 10 ^ nat (k - 1)" by simp
    have "nat k = Suc (nat (k - 1))" using assms(2) by simp
    then have lt: "(10::int) ^ nat (k - 1) < 10 ^ nat k"
      by (simp add: power_strict_increasing_iff)
    have "of_int (lo + 1) * u = pow10 n0" using True b(5) by simp
    moreover have "pow10 (n0 + 1 - k) = 10 powi (1 - k) * 10 powi n0"
      unfolding pow10_powi by (rule ten_powi_shift) simp
    moreover have "(10::rat) powi (1 - k) = 1 / 10 ^ nat (k - 1)"
      using assms(2) powi_neg[of "k - 1" 10] by simp
    ultimately have "of_int (10 ^ nat (k - 1)) * pow10 (n0 + 1 - k) = of_int (lo + 1) * u"
      by (simp add: pow10_powi)
    then show ?thesis using True f lt assms(2) by (simp add: acceptable_def)
  next
    case False
    then have "lo + 1 < 10 ^ nat k" using b(2) by simp
    moreover have "10 ^ nat (k - 1) \<le> lo + 1" using b(1) by simp
    ultimately show ?thesis using False f assms(2) by (simp add: acceptable_def u_def)
  qed
  have "(s, n, k) = (lo, n0, k) \<and> fl False (of_int lo * u) = Finite False x
      \<or> (s, n, k) = (if lo + 1 = 10 ^ nat k then (10 ^ nat (k - 1), n0 + 1, k)
                     else (lo + 1, n0, k))
        \<and> fl False (of_int (lo + 1) * u) = Finite False x"
    using assms(3) unfolding candidate_def Let_def n0_def[symmetric] u_def[symmetric]
      lo_def[symmetric]
    by (auto split: if_splits)
  then show ?thesis
  proof
    assume "(s, n, k) = (lo, n0, k) \<and> fl False (of_int lo * u) = Finite False x"
    then show ?thesis using lo_case by simp
  next
    assume "(s, n, k) = (if lo + 1 = 10 ^ nat k then (10 ^ nat (k - 1), n0 + 1, k)
                     else (lo + 1, n0, k))
        \<and> fl False (of_int (lo + 1) * u) = Finite False x"
    then show ?thesis using hi_case by simp
  qed
qed

lemma fallback_acceptable:
  assumes "0 < x" "x \<le> max_value" "1 \<le> k"
  shows "acceptable (\<lfloor>x / pow10 (floor_log 10 x + 1 - k)\<rfloor>, floor_log 10 x + 1, k)"
proof -
  note b = leading_digits_bounds[OF assms(1,3)]
  have "(0::int) \<le> 10 ^ nat (k - 1)" by simp
  then have "0 \<le> \<lfloor>x / pow10 (floor_log 10 x + 1 - k)\<rfloor>"
    using b(1) by linarith
  then have "0 \<le> of_int \<lfloor>x / pow10 (floor_log 10 x + 1 - k)\<rfloor> * pow10 (floor_log 10 x + 1 - k)"
    using b(4) by simp
  then have "\<bar>of_int \<lfloor>x / pow10 (floor_log 10 x + 1 - k)\<rfloor> * pow10 (floor_log 10 x + 1 - k)\<bar>
      \<le> max_value"
    using b(3) assms(2) by linarith
  then have "isFinite (fl False (of_int \<lfloor>x / pow10 (floor_log 10 x + 1 - k)\<rfloor>
      * pow10 (floor_log 10 x + 1 - k)))"
    by (rule fl_finite)
  then show ?thesis using b(1,2) assms(3) by (simp add: acceptable_def)
qed

lemma shortest_acceptable:
  "0 < x \<Longrightarrow> x \<le> max_value \<Longrightarrow> 1 \<le> k \<Longrightarrow> acceptable (shortest x k)"
proof (induction x k rule: shortest.induct)
  case (1 x k)
  show ?case
  proof (cases "candidate x k")
    case None
    show ?thesis
    proof (cases "k < 17")
      case True
      then have "shortest x k = shortest x (k + 1)"
        using None by (simp add: shortest.simps[of x k])
      moreover have "acceptable (shortest x (k + 1))"
        using 1(1)[OF None True] 1(2,3,4) by simp
      ultimately show ?thesis by simp
    next
      case False
      then have "shortest x k = (\<lfloor>x / pow10 (floor_log 10 x + 1 - k)\<rfloor>, floor_log 10 x + 1, k)"
        using None by (simp add: shortest.simps[of x k] Let_def)
      then show ?thesis using fallback_acceptable[OF 1(2,3,4)] by simp
    qed
  next
    case (Some p)
    obtain s n where p: "p = (s, n)" by (cases p)
    then have "shortest x k = (s, n, k)" using Some by (simp add: shortest.simps[of x k])
    then show ?thesis using candidate_acceptable[OF 1(2,4)] Some p by simp
  qed
qed

section \<open>Rendered numbers parse as numbers\<close>

lemma digits_prefix:
  assumes "list_all digit a" "\<not> digit c"
  shows "takeWhile digit (a @ c # r) = a" "dropWhile digit (a @ c # r) = c # r"
  using assms by (simp_all add: list_all_iff takeWhile_append2 dropWhile_append2)

lemma digits_whole:
  assumes "list_all digit a"
  shows "takeWhile digit a = a" "dropWhile digit a = []"
  using assms by (simp_all add: list_all_iff)

lemma not_digit: "\<not> digit 0x2E" "\<not> digit 0x65" "\<not> digit 0x2B" "\<not> digit 0x2D"
  by (simp_all add: digit_def)

lemma exponent_part_nil: "exponent_part [] = Some 0"
  by (simp add: exponent_part_def)

lemma exponent_part_rendered:
  "exponent_part (0x65 # (if e < 0 then [0x2D] else [0x2B]) @ decimal \<bar>e\<bar>) = Some e"
proof -
  define m where "m = \<bar>e\<bar>"
  have d: "list_all digit (decimal m)" "decimal m \<noteq> []"
    "radix_value 10 digit_value (decimal m) = m"
    using decimal_facts[of m] by (simp_all add: m_def)
  have "exponent_part (0x65 # (if e < 0 then [0x2D] else [0x2B]) @ decimal m)
      = Some (if e < 0 then - m else m)"
    using d by (simp add: exponent_part_def is_e_def sign_def)
  moreover have "(if e < 0 then - m else m) = e" by (simp add: m_def)
  ultimately show ?thesis by (simp add: m_def)
qed

lemma unsigned_integer:
  assumes "list_all digit a" "a \<noteq> []"
  shows "unsigned_decimal a = Some (of_int (radix_value 10 digit_value a))"
  using assms
  by (simp add: unsigned_decimal_def digits_whole fraction_def exponent_part_nil mantissa_def
      pow10_def)

lemma unsigned_fraction:
  assumes "list_all digit a" "a \<noteq> []" "list_all digit b"
  shows "unsigned_decimal (a @ 0x2E # b)
    = Some (of_int (radix_value 10 digit_value (a @ b)) * pow10 (- int (length b)))"
  using assms
  by (simp add: unsigned_decimal_def digits_prefix not_digit digits_whole fraction_def
      exponent_part_nil mantissa_def)

lemma unsigned_exponent:
  assumes "list_all digit a" "a \<noteq> []"
  shows "unsigned_decimal (a @ 0x65 # (if e < 0 then [0x2D] else [0x2B]) @ decimal \<bar>e\<bar>)
    = Some (of_int (radix_value 10 digit_value a) * pow10 e)"
  using assms
  by (simp add: unsigned_decimal_def digits_prefix not_digit fraction_def mantissa_def
      exponent_part_rendered del: append.simps)

lemma unsigned_fraction_exponent:
  assumes "list_all digit a" "a \<noteq> []" "list_all digit b"
  shows "unsigned_decimal (a @ 0x2E # b @ 0x65 # (if e < 0 then [0x2D] else [0x2B]) @ decimal \<bar>e\<bar>)
    = Some (of_int (radix_value 10 digit_value (a @ b)) * pow10 (e - int (length b)))"
  using assms
  by (simp add: unsigned_decimal_def digits_prefix not_digit fraction_def mantissa_def
      exponent_part_rendered del: append.simps)

lemma digits_plain: "list_all digit a \<Longrightarrow> list_all plain a"
  by (simp add: list_all_iff plain_def)

lemma digits_ends: "list_all digit a \<Longrightarrow> a \<noteq> [] \<Longrightarrow> digit (hd a) \<and> digit (last a)"
  by (simp add: list_all_iff)

lemma zeros_digits: "list_all digit (replicate j 0x30)"
  by (simp add: list_all_iff digit_def)

lemma sign_digits_plain:
  "list_all plain ((if e < 0 then [0x2D] else [0x2B]) @ decimal \<bar>e\<bar>)"
  using decimal_facts[of "\<bar>e\<bar>"] by (simp add: digits_plain plain_def)

lemma sign_digits_last:
  "digit (last (c # (if e < 0 then [0x2D] else [0x2B]) @ decimal \<bar>e\<bar>))"
  using decimal_facts[of "\<bar>e\<bar>"] digits_ends[of "decimal \<bar>e\<bar>"] by simp

lemma pow10_nat: "0 \<le> j \<Longrightarrow> pow10 j = of_int (10 ^ nat j)"
  by (simp add: pow10_def)

lemma render_rendered:
  assumes "acceptable (s, n, k)"
  shows "rendered (render (s, n, k)) (of_int s * pow10 (n - k))"
proof -
  have k1: "1 \<le> k" and lo: "10 ^ nat (k - 1) \<le> s" and hi: "s < 10 ^ nat k"
    using assms by (simp_all add: acceptable_def)
  have "(0::int) < 10 ^ nat (k - 1)" by simp
  then have s0: "0 \<le> s" using lo by linarith
  define ds where "ds = decimal s"
  have d: "list_all digit ds" "ds \<noteq> []" "radix_value 10 digit_value ds = s"
    using decimal_facts[OF s0] by (simp_all add: ds_def)
  have "nat k = Suc (nat (k - 1))" using k1 by simp
  then have len: "length ds = nat k"
    using decimal_length[of "nat (k - 1)" s] lo hi by (simp add: ds_def)
  have de: "digit (hd ds)" "digit (last ds)" using digits_ends[OF d(1,2)] by simp_all
  consider (int) "k \<le> n" "n \<le> 21"
    | (frac) "0 < n" "n < k" "n \<le> 21"
    | (small) "- 6 < n" "n \<le> 0"
    | (exp1) "n \<le> - 6 \<or> 21 < n" "k = 1"
    | (expk) "n \<le> - 6 \<or> 21 < n" "1 < k"
    using k1 by linarith
  then show ?thesis
  proof cases
    case int
    define j where "j = nat (n - k)"
    have r: "render (s, n, k) = ds @ replicate j 0x30"
      using int by (simp add: render_def ds_def j_def)
    have all: "list_all digit (ds @ replicate j 0x30)" using d(1) zeros_digits by simp
    have ne: "ds @ replicate j 0x30 \<noteq> []" using d(2) by simp
    have "radix_value 10 digit_value (ds @ replicate j 0x30) = s * 10 ^ j"
      by (simp add: radix_value_append radix_value_zeros d(3))
    moreover have "pow10 (n - k) = of_int (10 ^ j)" using int by (simp add: pow10_nat j_def)
    ultimately have "unsigned_decimal (ds @ replicate j 0x30) = Some (of_int s * pow10 (n - k))"
      using unsigned_integer[OF all ne] by simp
    then show ?thesis
      unfolding r rendered_def using digits_ends[OF all ne] digits_plain[OF all] ne by simp
  next
    case frac
    define a where "a = take (nat n) ds"
    define b where "b = drop (nat n) ds"
    have r: "render (s, n, k) = a @ 0x2E # b"
      using frac by (simp add: render_def ds_def a_def b_def Let_def)
    have a: "list_all digit a" "a \<noteq> []" and b: "list_all digit b" "b \<noteq> []"
      using d(1,2) frac len by (auto simp: a_def b_def list_all_iff dest: in_set_takeD in_set_dropD)
    have ab: "a @ b = ds" by (simp add: a_def b_def)
    have "int (length b) = k - n" using len frac by (simp add: b_def)
    then have "unsigned_decimal (a @ 0x2E # b) = Some (of_int s * pow10 (n - k))"
      using unsigned_fraction[OF a b(1)] by (simp add: ab d(3))
    moreover have "digit (hd (a @ 0x2E # b))" using digits_ends[OF a] a(2) by simp
    moreover have "digit (last (a @ 0x2E # b))" using digits_ends[OF b] b(2) by simp
    moreover have "list_all plain (a @ 0x2E # b)"
      using digits_plain[OF a(1)] digits_plain[OF b(1)] by (simp add: plain_def)
    ultimately show ?thesis unfolding r rendered_def by simp
  next
    case small
    define j where "j = nat (- n)"
    define b where "b = replicate j 0x30 @ ds"
    have r: "render (s, n, k) = [0x30] @ 0x2E # b"
      using small k1 by (simp add: render_def ds_def b_def j_def Let_def)
    have z: "list_all digit [0x30 :: jschar]" "[0x30 :: jschar] \<noteq> []"
      by (simp_all add: digit_def)
    have b: "list_all digit b" "b \<noteq> []" using d(1,2) zeros_digits by (simp_all add: b_def)
    have "[0x30] @ b = replicate (Suc j) 0x30 @ ds" by (simp add: b_def)
    then have "radix_value 10 digit_value ([0x30] @ b) = s"
      using radix_value_append[of 10 digit_value "replicate (Suc j) 0x30" ds]
      by (simp add: radix_value_zeros d(3) del: replicate_Suc)
    moreover have "- int (length b) = n - k" using len small k1 by (simp add: b_def j_def)
    ultimately have "unsigned_decimal ([0x30] @ 0x2E # b) = Some (of_int s * pow10 (n - k))"
      using unsigned_fraction[OF z b(1)] by simp
    moreover have "digit (hd ([0x30] @ 0x2E # b))" by (simp add: digit_def)
    moreover have "digit (last ([0x30] @ 0x2E # b))" using digits_ends[OF b] b(2) by simp
    moreover have "list_all plain ([0x30] @ 0x2E # b)"
      using digits_plain[OF b(1)] by (simp add: plain_def digit_def)
    ultimately show ?thesis unfolding r rendered_def by simp
  next
    case exp1
    define es where "es = (if n - 1 < 0 then [0x2D] else [0x2B :: jschar]) @ decimal \<bar>n - 1\<bar>"
    have r: "render (s, n, k) = ds @ 0x65 # es"
      using exp1 by (auto simp: render_def ds_def es_def Let_def)
    have "unsigned_decimal (ds @ 0x65 # es) = Some (of_int s * pow10 (n - k))"
      using unsigned_exponent[OF d(1,2), of "n - 1"] exp1(2) by (simp add: es_def d(3))
    moreover have "digit (hd (ds @ 0x65 # es))" using de d(2) by simp
    moreover have "digit (last (ds @ 0x65 # es))"
      using sign_digits_last[of "0x65" "n - 1"] by (simp add: es_def)
    moreover have "list_all plain (ds @ 0x65 # es)"
      using digits_plain[OF d(1)] sign_digits_plain[of "n - 1"] by (simp add: es_def plain_def)
    ultimately show ?thesis unfolding r rendered_def by simp
  next
    case expk
    define es where "es = (if n - 1 < 0 then [0x2D] else [0x2B :: jschar]) @ decimal \<bar>n - 1\<bar>"
    define a where "a = take 1 ds"
    define b where "b = drop 1 ds"
    have r: "render (s, n, k) = a @ 0x2E # b @ 0x65 # es"
      using expk by (auto simp: render_def ds_def es_def a_def b_def Let_def)
    have a: "list_all digit a" "a \<noteq> []" and b: "list_all digit b"
      using d(1,2) by (auto simp: a_def b_def list_all_iff dest: in_set_takeD in_set_dropD)
    have ab: "a @ b = ds" by (simp add: a_def b_def)
    have "int (length b) = k - 1" using len expk by (simp add: b_def)
    then have "unsigned_decimal (a @ 0x2E # b @ 0x65 # es) = Some (of_int s * pow10 (n - k))"
      using unsigned_fraction_exponent[OF a b, of "n - 1"] by (simp add: es_def ab d(3))
    moreover have "digit (hd (a @ 0x2E # b @ 0x65 # es))" using digits_ends[OF a] a(2) by simp
    moreover have "digit (last (a @ 0x2E # b @ 0x65 # es))"
      using sign_digits_last[of "0x65" "n - 1"] by (simp add: es_def)
    moreover have "list_all plain (a @ 0x2E # b @ 0x65 # es)"
      using digits_plain[OF a(1)] digits_plain[OF b] sign_digits_plain[of "n - 1"]
      by (simp add: es_def plain_def)
    ultimately show ?thesis unfolding r rendered_def by simp
  qed
qed


lemma trim_id:
  assumes "t \<noteq> []" "\<not> whitespace (hd t)" "\<not> whitespace (last t)"
  shows "trim t = t"
proof -
  have a: "dropWhile whitespace t = t" using assms(1,2) by (cases t) simp_all
  obtain ys y where t: "t = ys @ [y]" using assms(1) by (cases t rule: rev_cases) auto
  then have "\<not> whitespace y" using assms(3) by simp
  then have "dropWhile whitespace (rev t) = rev t" by (simp add: t)
  then show ?thesis by (simp add: trim_def a)
qed

lemma radix_literal_plain: "list_all plain t \<Longrightarrow> radix_literal t = None"
proof (cases t)
  case Nil
  then show ?thesis by (simp add: radix_literal_def)
next
  case (Cons z t')
  assume p: "list_all plain t"
  show ?thesis
  proof (cases t')
    case Nil
    then show ?thesis using Cons by (simp add: radix_literal_def)
  next
    case (Cons x ds)
    then have "plain x" using p \<open>t = z # t'\<close> by simp
    then have "x \<noteq> 0x78 \<and> x \<noteq> 0x58 \<and> x \<noteq> 0x6F \<and> x \<noteq> 0x4F \<and> x \<noteq> 0x62 \<and> x \<noteq> 0x42"
      by (auto simp: plain_def digit_def)
    then show ?thesis using Cons \<open>t = z # t'\<close> by (simp add: radix_literal_def)
  qed
qed

lemma fl_not_NaN: "\<not> isNaN (fl neg q)"
  by (simp add: fl_def Let_def)

lemma not_Infinity_text:
  assumes "digit (hd r)" "r \<noteq> []"
  shows "\<not> startsWith r (js ''Infinity'')" "r \<noteq> js ''Infinity''"
proof -
  have n: "\<not> digit 0x49" by (simp add: digit_def)
  show "\<not> startsWith r (js ''Infinity'')"
    using assms n by (cases r) (auto simp: startsWith_def js_def)
  show "r \<noteq> js ''Infinity''" using assms n by (auto simp: js_def)
qed

lemma rendered_numeric:
  assumes "rendered r q" "isFinite (fl False q)" "sg = [] \<or> sg = [0x2D]"
  shows "\<not> isNaN (parseFloat (sg @ r))" "isFinite (StringToNumber (sg @ r))" "sg @ r \<noteq> []"
proof -
  have u: "unsigned_decimal r = Some q" and ne: "r \<noteq> []" and h: "digit (hd r)"
    and l: "digit (last r)" and p: "list_all plain r"
    using assms(1) by (simp_all add: rendered_def)
  obtain c cs where r: "r = c # cs" using ne by (cases r) auto
  have c: "digit c" using h r by simp
  have cw: "\<not> whitespace c" "c \<noteq> 0x2B" "c \<noteq> 0x2D"
    using digit_plain(1)[OF c] c by (auto simp: digit_def)
  have mw: "\<not> whitespace 0x2D" by (simp add: whitespace_def line_terminator_def)
  define neg where "neg = (sg = [0x2D :: jschar])"
  have sg: "sign (sg @ r) = (neg, r)"
    using assms(3) cw r by (auto simp: sign_def neg_def)
  have dw: "dropWhile whitespace (sg @ r) = sg @ r"
    using assms(3) cw mw r by auto
  have ip: "takeWhile digit r \<noteq> []" using c r by simp
  show "sg @ r \<noteq> []" using ne by simp
  show "\<not> isNaN (parseFloat (sg @ r))"
    using not_Infinity_text(1)[OF h ne] ip
    by (simp add: parseFloat_def dw sg Let_def fl_not_NaN split: prod.splits)
  have hd: "\<not> whitespace (hd (sg @ r))" using assms(3) cw mw r by auto
  have "last (sg @ r) = last r" using ne by simp
  then have ls: "\<not> whitespace (last (sg @ r))" using digit_plain(1)[OF l] by simp
  have t: "trim (sg @ r) = sg @ r" using trim_id[OF _ hd ls] ne by simp
  have "list_all plain (sg @ r)" using p assms(3) by (auto simp: plain_def)
  then have rl: "radix_literal (sg @ r) = None" by (rule radix_literal_plain)
  have "StringToNumber (sg @ r) = fl neg q"
    using ne not_Infinity_text(2)[OF h ne] by (simp add: StringToNumber_def t rl sg u Let_def)
  then show "isFinite (StringToNumber (sg @ r))"
    using assms(2) isFinite_sign[of neg q False] by simp
qed

lemma toString_numeric:
  assumes "within_range (Finite neg x)"
  shows "\<not> isNaN (parseFloat (toString (Finite neg x)))"
    "isFinite (StringToNumber (toString (Finite neg x)))" "toString (Finite neg x) \<noteq> []"
proof -
  have x: "0 \<le> x" "x \<le> max_value" using assms by simp_all
  have "\<exists>sg r q. toString (Finite neg x) = sg @ r \<and> rendered r q \<and> isFinite (fl False q)
      \<and> (sg = [] \<or> sg = [0x2D])"
  proof (cases "x = 0")
    case True
    have z: "list_all digit [0x30 :: jschar]" "[0x30 :: jschar] \<noteq> []"
      by (simp_all add: digit_def)
    have "rendered [0x30] 0"
      using unsigned_integer[OF z] by (simp add: rendered_def radix_value_def digit_value_def
          plain_def digit_def)
    moreover have "isFinite (fl False 0)" by (simp add: fl_def)
    moreover have "toString (Finite neg x) = [] @ [0x30]" using True by (simp add: js_def)
    ultimately show ?thesis by blast
  next
    case False
    then have "0 < x" using x(1) by simp
    then have a: "acceptable (shortest x 1)" using x(2) by (simp add: shortest_acceptable)
    obtain s n k where snk: "shortest x 1 = (s, n, k)" by (cases "shortest x 1")
    have "rendered (render (s, n, k)) (of_int s * pow10 (n - k))"
      using a snk by (simp add: render_rendered)
    moreover have "isFinite (fl False (of_int s * pow10 (n - k)))"
      using a snk by (simp add: acceptable_def)
    moreover have "toString (Finite neg x) = (if neg then [0x2D] else []) @ render (s, n, k)"
      using False snk by simp
    ultimately show ?thesis by (metis (full_types))
  qed
  then obtain sg r q where "toString (Finite neg x) = sg @ r" "rendered r q"
    "isFinite (fl False q)" "sg = [] \<or> sg = [0x2D]"
    by blast
  then show "\<not> isNaN (parseFloat (toString (Finite neg x)))"
    "isFinite (StringToNumber (toString (Finite neg x)))" "toString (Finite neg x) \<noteq> []"
    using rendered_numeric[of r q sg] by simp_all
qed


section \<open>Evaluation stays in range\<close>

lemma zero_in_range: "within_range (Finite neg 0)"
  using max_value_less(3) by simp

lemma add_range: "within_range (add x y)"
  by (cases x; cases y) (simp_all add: Let_def fl_range zero_in_range del: within_range.simps(1))

lemma multiply_range: "within_range (multiply x y)"
  by (cases x; cases y) (simp_all add: fl_range)

lemma divide_range: "within_range (divide x y)"
  by (cases x; cases y) (simp_all add: fl_range zero_in_range del: within_range.simps(1))

lemma subtract_range: "within_range (subtract x y)"
  by (simp add: subtract_def add_range)

lemma unaryMinus_range: "within_range n \<Longrightarrow> within_range (unaryMinus n)"
  by (cases n) simp_all

lemma radix_literal_range: "radix_literal t = Some v \<Longrightarrow> within_range v"
  by (auto simp: radix_literal_def fl_range split: list.splits if_splits)

lemma StringToNumber_range: "within_range (StringToNumber s)"
  by (auto simp: StringToNumber_def Let_def fl_range zero_in_range radix_literal_range
      split: option.splits prod.splits simp del: within_range.simps(1))

lemma ToNumber_range: "in_range_value v \<Longrightarrow> within_range (ToNumber v)"
  by (cases v) (simp_all add: StringToNumber_range)

lemma addition_range: "in_range_value (addition l r)"
  by (simp add: addition_def Let_def add_range)

lemma binary_range:
  assumes "binary f l r = Inr v" "\<And>x y. in_range_value (f x y)"
  shows "in_range_value v"
  using assms by (auto simp: binary_def split: sum.splits)

lemma evaluate_range: "evaluate e = Inr v \<Longrightarrow> in_range_value v"
proof (induction e arbitrary: v rule: evaluate.induct)
  case (1 q)
  then show ?case by (auto simp: fl_range)
next
  case (2 b)
  then show ?case by auto
next
  case (3 e)
  then show ?case by (auto simp: ToNumber_range split: sum.splits)
next
  case (4 e)
  then show ?case by (auto simp: ToNumber_range unaryMinus_range split: sum.splits)
next
  case (5 l r)
  then show ?case using binary_range[of addition] addition_range by auto
next
  case (6 l r)
  then show ?case using binary_range[of "arith subtract"] by (auto simp: arith_def subtract_range)
next
  case (7 l r)
  then show ?case using binary_range[of "arith multiply"] by (auto simp: arith_def multiply_range)
next
  case (8 l r)
  then show ?case using binary_range[of "arith divide"] by (auto simp: arith_def divide_range)
next
  case (9 f args)
  then show ?case by simp
qed

lemma return_range: "return s = Inr v \<Longrightarrow> in_range_value v"
  by (auto simp: return_def evaluate_range split: option.splits list.splits if_splits)

lemma local_result_cases:
  assumes "in_range_value v"
  shows "local_result v = js ''ERROR: Calculation resulted in an invalid number.''
    \<or> (\<exists>n. v = Num n \<and> isFinite n \<and> local_result v = toString n
         \<and> \<not> isNaN (parseFloat (toString n)) \<and> isFinite (StringToNumber (toString n))
         \<and> toString n \<noteq> [])"
proof (cases "finite_number v")
  case False
  then show ?thesis by (simp add: local_result_invalid)
next
  case True
  then obtain n where v: "v = Num n" "isFinite n" by (cases v) auto
  then obtain neg x where n: "n = Finite neg x" by (cases n) auto
  have "within_range (Finite neg x)" using assms v n by simp
  then show ?thesis using toString_numeric[of neg x] v n by (simp add: local_result_def)
qed

section \<open>Outcomes of the four functions\<close>

lemma tagged_messages:
  "tagged (js ''ERROR: Expression contains invalid characters.'')"
  "tagged (js ''ERROR: Invalid operator sequence.'')"
  "tagged (js ''ERROR: Calculation resulted in an invalid number.'')"
  "tagged (js ''ERROR: Invalid or unrecognized mathematical expression.'')"
  "tagged (js ''ERROR: AI returned an invalid numerical format.'')"
  "tagged (js ''ERROR: Failed to communicate with the AI model for calculation.'')"
  by (simp_all add: tagged_def startsWith_def js_def)

lemma tagged_nonempty: "tagged s \<Longrightarrow> s \<noteq> []"
  by (auto simp: tagged_def startsWith_def js_def)

lemma filter_keeps: "list_ex P s \<Longrightarrow> (\<And>c. P c \<Longrightarrow> Q c) \<Longrightarrow> filter Q s \<noteq> []"
  by (auto simp: list_ex_iff filter_empty_conv)

lemma gemini_validate_outcome:
  "(list_ex digit t \<and> list_ex operator t \<and> gemini_validate t = filter allowed t
      \<and> filter allowed t \<noteq> [])
   \<or> (\<not> (list_ex digit t \<and> list_ex operator t) \<and> tagged (gemini_validate t))"
proof (cases "list_ex digit t \<and> list_ex operator t")
  case True
  then have "t \<noteq> []" by auto
  moreover have "filter allowed t \<noteq> []"
    using True by (intro filter_keeps[of digit]) (simp_all add: allowed_def expr_char_def)
  ultimately show ?thesis using True by (simp add: gemini_validate_def)
next
  case False
  then show ?thesis using gemini_validate_tagged by blast
qed

lemma local_validate_outcome:
  "(list_ex digit t \<and> list_ex operator t \<and> local_validate t = filter expr_char t
      \<and> filter expr_char t \<noteq> [])
   \<or> (\<not> (list_ex digit t \<and> list_ex operator t) \<and> tagged (local_validate t))"
proof (cases "list_ex digit t \<and> list_ex operator t")
  case True
  then have "t \<noteq> []" by auto
  moreover have "filter expr_char t \<noteq> []"
    using True by (intro filter_keeps[of digit]) (simp_all add: expr_char_def)
  ultimately show ?thesis using True by (simp add: local_validate_def)
next
  case False
  then show ?thesis using local_validate_tagged by blast
qed

lemma gemini_check_outcome:
  "(\<not> isNaN (parseFloat t) \<and> isFinite (StringToNumber t) \<and> gemini_check t = t)
   \<or> (\<not> (\<not> isNaN (parseFloat t) \<and> isFinite (StringToNumber t)) \<and> tagged (gemini_check t))"
  using tagged_messages(5) by (auto simp: gemini_check_def tagged_def)

lemma client_cases:
  "(\<exists>e. (ai :: client) req = Inl e) \<or> ai req = Inr (Response None)
   \<or> (\<exists>raw. ai req = Inr (Response (Some raw)))"
proof (cases "ai req")
  case (Inl e)
  then show ?thesis by simp
next
  case (Inr resp)
  then show ?thesis by (cases resp; cases "response_text resp") auto
qed

lemma gemini_extract_failed:
  "(\<exists>e. ai (ExtractionRequest ''gemini-2.5-flash'' mimeType base64Image) = Inl e)
     \<or> ai (ExtractionRequest ''gemini-2.5-flash'' mimeType base64Image) = Inr (Response None) \<Longrightarrow>
   gemini_extractExpressionFromImage ai base64Image mimeType
     = Inr (js ''ERROR: Failed to communicate with the AI model for extraction.'')"
  by (auto simp: gemini_extractExpressionFromImage_def gemini_extract_try_def)

lemma gemini_extract_text:
  "ai (ExtractionRequest ''gemini-2.5-flash'' mimeType base64Image) = Inr (Response (Some raw)) \<Longrightarrow>
   gemini_extractExpressionFromImage ai base64Image mimeType = Inr (gemini_validate (trim raw))"
  by (simp add: gemini_extractExpressionFromImage_def gemini_extract_try_def)

lemma local_extract_failed:
  "(\<exists>e. ai (ExtractionRequest ''gemini-2.5-pro'' mimeType base64Image) = Inl e)
     \<or> ai (ExtractionRequest ''gemini-2.5-pro'' mimeType base64Image) = Inr (Response None) \<Longrightarrow>
   local_extractExpressionFromImage ai base64Image mimeType
     = Inr (js ''ERROR: Failed to communicate with the AI model for extraction.'')"
  by (auto simp: local_extractExpressionFromImage_def local_extract_try_def)

lemma local_extract_text:
  "ai (ExtractionRequest ''gemini-2.5-pro'' mimeType base64Image) = Inr (Response (Some raw)) \<Longrightarrow>
   local_extractExpressionFromImage ai base64Image mimeType = Inr (local_validate (clean raw))"
  by (simp add: local_extractExpressionFromImage_def local_extract_try_def)

lemma gemini_calculate_failed:
  "(\<exists>e. ai (CalculationRequest ''gemini-2.5-flash'' expression) = Inl e)
     \<or> ai (CalculationRequest ''gemini-2.5-flash'' expression) = Inr (Response None) \<Longrightarrow>
   gemini_calculateExpression ai expression
     = Inr (js ''ERROR: Failed to communicate with the AI model for calculation.'')"
  by (auto simp: gemini_calculateExpression_def gemini_calculate_try_def)

lemma gemini_extract_outcome:
  "\<exists>out. gemini_extractExpressionFromImage ai base64Image mimeType = Inr out
     \<and> (tagged out
        \<or> (\<exists>raw. ai (ExtractionRequest ''gemini-2.5-flash'' mimeType base64Image)
                 = Inr (Response (Some raw))
             \<and> list_ex digit (trim raw) \<and> list_ex operator (trim raw)
             \<and> out = filter allowed (trim raw) \<and> out \<noteq> []))"
proof -
  let ?req = "ExtractionRequest ''gemini-2.5-flash'' mimeType base64Image"
  consider "(\<exists>e. ai ?req = Inl e) \<or> ai ?req = Inr (Response None)"
    | raw where "ai ?req = Inr (Response (Some raw))"
    using client_cases[of ai ?req] by blast
  then show ?thesis
  proof cases
    case 1
    then show ?thesis using gemini_extract_failed[of ai mimeType base64Image] tagged_js(2) by simp
  next
    case 2
    then have r: "gemini_extractExpressionFromImage ai base64Image mimeType
        = Inr (gemini_validate (trim raw))"
      by (rule gemini_extract_text)
    show ?thesis using gemini_validate_outcome[of "trim raw"] r 2 by auto
  qed
qed

lemma local_extract_outcome:
  "\<exists>out. local_extractExpressionFromImage ai base64Image mimeType = Inr out
     \<and> (tagged out
        \<or> (\<exists>raw. ai (ExtractionRequest ''gemini-2.5-pro'' mimeType base64Image)
                 = Inr (Response (Some raw))
             \<and> list_ex digit (clean raw) \<and> list_ex operator (clean raw)
             \<and> out = filter expr_char (clean raw) \<and> out \<noteq> []))"
proof -
  let ?req = "ExtractionRequest ''gemini-2.5-pro'' mimeType base64Image"
  consider "(\<exists>e. ai ?req = Inl e) \<or> ai ?req = Inr (Response None)"
    | raw where "ai ?req = Inr (Response (Some raw))"
    using client_cases[of ai ?req] by blast
  then show ?thesis
  proof cases
    case 1
    then show ?thesis using local_extract_failed[of ai mimeType base64Image] tagged_js(2) by simp
  next
    case 2
    then have r: "local_extractExpressionFromImage ai base64Image mimeType
        = Inr (local_validate (clean raw))"
      by (rule local_extract_text)
    show ?thesis using local_validate_outcome[of "clean raw"] r 2 by auto
  qed
qed

lemma gemini_calculate_outcome:
  "\<exists>out. gemini_calculateExpression ai expression = Inr out
     \<and> (tagged out
        \<or> (\<exists>raw. ai (CalculationRequest ''gemini-2.5-flash'' expression) = Inr (Response (Some raw))
             \<and> out = trim raw \<and> \<not> isNaN (parseFloat out) \<and> isFinite (StringToNumber out)))"
proof -
  let ?req = "CalculationRequest ''gemini-2.5-flash'' expression"
  consider "(\<exists>e. ai ?req = Inl e) \<or> ai ?req = Inr (Response None)"
    | raw where "ai ?req = Inr (Response (Some raw))"
    using client_cases[of ai ?req] by blast
  then show ?thesis
  proof cases
    case 1
    then show ?thesis using gemini_calculate_failed[of ai expression] tagged_messages(6) by simp
  next
    case 2
    then have r: "gemini_calculateExpression ai expression = Inr (gemini_check (trim raw))"
      by (rule gemini_calculate_text)
    show ?thesis using gemini_check_outcome[of "trim raw"] r 2 by auto
  qed
qed

lemma local_calculate_failed:
  assumes "\<not> list_all allowed expression \<or> operator_run expression
     \<or> (\<exists>e. return expression = Inl e) \<or> (\<exists>v. return expression = Inr v \<and> \<not> finite_number v)"
  shows "\<exists>out. local_calculateExpression expression = Some (Inr out) \<and> tagged out"
proof (cases "\<not> list_all allowed expression \<or> operator_run expression")
  case True
  then show ?thesis using tagged_messages(1,2) by (auto simp: local_calculateExpression_cases)
next
  case False
  then consider e where "return expression = Inl e"
    | v where "return expression = Inr v" "\<not> finite_number v"
    using assms by blast
  then show ?thesis
  proof cases
    case 1
    then show ?thesis using False tagged_messages(4) by (simp add: local_calculateExpression_cases)
  next
    case 2
    then show ?thesis
      using False tagged_messages(3) local_result_invalid[OF 2(2)]
      by (simp add: local_calculateExpression_cases)
  qed
qed

lemma local_calculate_outcome:
  "\<exists>out. local_calculateExpression expression = Some (Inr out)
     \<and> (tagged out
        \<or> (\<exists>n. list_all allowed expression \<and> \<not> operator_run expression
             \<and> return expression = Inr (Num n) \<and> isFinite n \<and> out = toString n
             \<and> \<not> isNaN (parseFloat out) \<and> isFinite (StringToNumber out) \<and> out \<noteq> []))"
proof (cases "list_all allowed expression \<and> \<not> operator_run expression")
  case False
  then show ?thesis
    using tagged_messages(1,2) by (auto simp: local_calculateExpression_cases)
next
  case True
  show ?thesis
  proof (cases "return expression")
    case (Inl e)
    then show ?thesis using True tagged_messages(4) by (simp add: local_calculateExpression_cases)
  next
    case (Inr v)
    then have c: "local_calculateExpression expression = Some (Inr (local_result v))"
      using True by (simp add: local_calculateExpression_cases)
    have "in_range_value v" using Inr by (rule return_range)
    then consider "local_result v = js ''ERROR: Calculation resulted in an invalid number.''"
      | n where "v = Num n" "isFinite n" "local_result v = toString n"
        "\<not> isNaN (parseFloat (toString n))" "isFinite (StringToNumber (toString n))"
        "toString n \<noteq> []"
      using local_result_cases[of v] by blast
    then show ?thesis
    proof cases
      case 1
      then show ?thesis using c tagged_messages(3) by simp
    next
      case 2
      then show ?thesis using c True Inr by simp
    qed
  qed
qed

lemma fl_overflow:
  assumes "pow2 1024 \<le> \<bar>q\<bar>"
  shows "fl neg q = Infinity neg"
proof -
  define a where "a = \<bar>q\<bar>"
  define L where "L = floor_log 2 a"
  define e where "e = max L (- 1022)"
  define u where "u = (2::rat) powi (e - 52)"
  define m where "m = round_half_even (a / u)"
  define r where "r = of_int m * u"
  have big: "2 powi 1024 \<le> a" using assms by (simp add: a_def pow2_powi)
  then have a0: "0 < a" using two_powi_pos[of 1024] by linarith
  then have q0: "q \<noteq> 0" by (auto simp: a_def)
  have u0: "0 < u" by (simp add: u_def)
  have fl: "fl neg q = (if 2 powi 1024 \<le> r then Infinity neg else Finite neg r)"
    using fl_unfold[OF q0, of neg] by (simp add: r_def m_def u_def e_def L_def a_def)
  have Lb: "2 powi L \<le> a" "a < 2 powi (L + 1)"
    using floor_log_bounds[OF a0, of 2] by (simp_all add: L_def)
  have "1024 \<le> L"
  proof (rule ccontr)
    assume "\<not> 1024 \<le> L"
    then have "(2::rat) powi (L + 1) \<le> 2 powi 1024" by (intro two_powi_mono) simp
    then show False using Lb(2) big by linarith
  qed
  then have eL: "e = L" by (simp add: e_def)
  have s: "2 powi 52 * u = 2 powi e"
    using powi_shift[of e 52 "e - 52"] by (simp add: u_def)
  then have "2 ^ 52 \<le> a / u" using Lb(1) u0 eL by (simp add: field_simps)
  then have "2 ^ 52 \<le> m" unfolding m_def by (intro round_half_even_ge) simp
  then have "(2 ^ 52 :: rat) \<le> of_int m" by (metis of_int_le_iff of_int_numeral of_int_power)
  then have "2 ^ 52 * u \<le> r" using u0 by (simp add: r_def)
  then have "2 powi e \<le> r" using s by simp
  moreover have "(2::rat) powi 1024 \<le> 2 powi e"
    using \<open>1024 \<le> L\<close> eL by (intro two_powi_mono) simp
  ultimately have "2 powi 1024 \<le> r" by linarith
  then show ?thesis using fl by simp
qed

lemma multiply_overflow:
  "pow2 1024 \<le> \<bar>x * y\<bar> \<Longrightarrow> multiply (Finite a x) (Finite b y) = Infinity (a \<noteq> b)"
  by (simp add: fl_overflow)

lemma legacy_octal_example:
  "local_calculateExpression (js ''010+1'') = Some (Inr (js ''9''))"
  by (simp add: calc_eval parse_eval literal_eval number_eval char_classes)


section \<open>The functions as their caller sees them\<close>

text \<open>
  C1. The four service functions never throw to their caller: whatever the model client
  does and whatever text is passed, each returns a string, and every failure path returns
  a string that starts with "ERROR:".
  \<^item> An extractor returns a string that starts with "ERROR:" unless the call resolved to a
    response with a text and the prepared text has a digit and an operator; then it returns
    the sanitized text, which is not empty. When the call is rejected or the response has no
    text, the result is "ERROR: Failed to communicate with the AI model for extraction.".
  \<^item> The remote evaluator returns a string that starts with "ERROR:" unless the call
    resolved to a response whose trimmed text passes the numeric check; then it returns
    that text. When the call is rejected or the response has no text, the result is
    "ERROR: Failed to communicate with the AI model for calculation.".
  \<^item> The local evaluator returns, for every input text, a non-empty string that either
    starts with "ERROR:" or is the rendering of a finite number, which parseFloat reads as
    a number and Number as a finite one. When the text has a disallowed character or two
    operators side by side, when the evaluation throws, and when its result is no finite
    number, the string starts with "ERROR:".
\<close>

theorem caller_facing_totality:
  "(\<exists>out. gemini_extractExpressionFromImage ai base64Image mimeType = Inr out
       \<and> (tagged out
          \<or> (\<exists>raw. ai (ExtractionRequest ''gemini-2.5-flash'' mimeType base64Image)
                   = Inr (Response (Some raw))
               \<and> list_ex digit (trim raw) \<and> list_ex operator (trim raw)
               \<and> out = filter allowed (trim raw) \<and> out \<noteq> [])))
   \<and> ((\<exists>e. ai (ExtractionRequest ''gemini-2.5-flash'' mimeType base64Image) = Inl e)
        \<or> ai (ExtractionRequest ''gemini-2.5-flash'' mimeType base64Image) = Inr (Response None)
       \<longrightarrow> gemini_extractExpressionFromImage ai base64Image mimeType
             = Inr (js ''ERROR: Failed to communicate with the AI model for extraction.''))
   \<and> (\<exists>out. local_extractExpressionFromImage ai base64Image mimeType = Inr out
       \<and> (tagged out
          \<or> (\<exists>raw. ai (ExtractionRequest ''gemini-2.5-pro'' mimeType base64Image)
                   = Inr (Response (Some raw))
               \<and> list_ex digit (clean raw) \<and> list_ex operator (clean raw)
               \<and> out = filter expr_char (clean raw) \<and> out \<noteq> [])))
   \<and> ((\<exists>e. ai (ExtractionRequest ''gemini-2.5-pro'' mimeType base64Image) = Inl e)
        \<or> ai (ExtractionRequest ''gemini-2.5-pro'' mimeType base64Image) = Inr (Response None)
       \<longrightarrow> local_extractExpressionFromImage ai base64Image mimeType
             = Inr (js ''ERROR: Failed to communicate with the AI model for extraction.''))
   \<and> (\<exists>out. gemini_calculateExpression ai expression = Inr out
       \<and> (tagged out
          \<or> (\<exists>raw. ai (CalculationRequest ''gemini-2.5-flash'' expression)
                   = Inr (Response (Some raw))
               \<and> out = trim raw \<and> \<not> isNaN (parseFloat out) \<and> isFinite (StringToNumber out))))
   \<and> ((\<exists>e. ai (CalculationRequest ''gemini-2.5-flash'' expression) = Inl e)
        \<or> ai (CalculationRequest ''gemini-2.5-flash'' expression) = Inr (Response None)
       \<longrightarrow> gemini_calculateExpression ai expression
             = Inr (js ''ERROR: Failed to communicate with the AI model for calculation.''))
   \<and> (\<exists>out. local_calculateExpression expression = Some (Inr out) \<and> out \<noteq> []
       \<and> (tagged out
          \<or> (\<exists>n. list_all allowed expression \<and> \<not> operator_run expression
               \<and> return expression = Inr (Num n) \<and> isFinite n \<and> out = toString n
               \<and> \<not> isNaN (parseFloat out) \<and> isFinite (StringToNumber out))))
   \<and> (\<not> list_all allowed expression \<or> operator_run expression
        \<or> (\<exists>e. return expression = Inl e)
        \<or> (\<exists>v. return expression = Inr v \<and> \<not> finite_number v)
       \<longrightarrow> (\<exists>out. local_calculateExpression expression = Some (Inr out) \<and> tagged out))
   \<and> tagged (js ''ERROR: Failed to communicate with the AI model for extraction.'')
   \<and> tagged (js ''ERROR: Failed to communicate with the AI model for calculation.'')
   \<and> \<not> tagged []"
proof -
  obtain out where o: "local_calculateExpression expression = Some (Inr out)"
    "tagged out
        \<or> (\<exists>n. list_all allowed expression \<and> \<not> operator_run expression
             \<and> return expression = Inr (Num n) \<and> isFinite n \<and> out = toString n
             \<and> \<not> isNaN (parseFloat out) \<and> isFinite (StringToNumber out) \<and> out \<noteq> [])"
    using local_calculate_outcome[of expression] by blast
  then have "out \<noteq> []" using tagged_nonempty by blast
  then have l: "\<exists>out. local_calculateExpression expression = Some (Inr out) \<and> out \<noteq> []
       \<and> (tagged out
          \<or> (\<exists>n. list_all allowed expression \<and> \<not> operator_run expression
               \<and> return expression = Inr (Num n) \<and> isFinite n \<and> out = toString n
               \<and> \<not> isNaN (parseFloat out) \<and> isFinite (StringToNumber out)))"
    using o by blast
  have e: "\<not> tagged []" using tagged_nonempty by blast
  show ?thesis
    using gemini_extract_outcome[of ai base64Image mimeType]
      gemini_extract_failed[of ai mimeType base64Image]
      local_extract_outcome[of ai base64Image mimeType]
      local_extract_failed[of ai mimeType base64Image]
      gemini_calculate_outcome[of ai expression]
      gemini_calculate_failed[of ai expression]
      l local_calculate_failed[of expression] tagged_js(2) tagged_messages(6) e
    by (intro conjI impI) assumption+
qed

theorem caller_facing_totality_witness:
  "gemini_extractExpressionFromImage (replies (Inl ClientError)) [] []
      = Inr (js ''ERROR: Failed to communicate with the AI model for extraction.'')
   \<and> local_extractExpressionFromImage (replies (Inl ClientError)) [] []
      = Inr (js ''ERROR: Failed to communicate with the AI model for extraction.'')
   \<and> gemini_calculateExpression (replies (Inl ClientError)) (js ''2+3*4'')
      = Inr (js ''ERROR: Failed to communicate with the AI model for calculation.'')
   \<and> gemini_extractExpressionFromImage (replies (Inr (Response None))) [] []
      = Inr (js ''ERROR: Failed to communicate with the AI model for extraction.'')
   \<and> local_extractExpressionFromImage (replies (Inr (Response None))) [] []
      = Inr (js ''ERROR: Failed to communicate with the AI model for extraction.'')
   \<and> gemini_calculateExpression (replies (Inr (Response None))) (js ''2+a'')
      = Inr (js ''ERROR: Failed to communicate with the AI model for calculation.'')
   \<and> local_calculateExpression (js ''2+3*4'') = Some (Inr (js ''14''))
   \<and> \<not> tagged (js ''14'')
   \<and> parseFloat (js ''14'') = Finite False 14 \<and> StringToNumber (js ''14'') = Finite False 14
   \<and> \<not> list_all allowed (js ''2+a'')
   \<and> local_calculateExpression (js ''2+a'')
      = Some (Inr (js ''ERROR: Expression contains invalid characters.''))"
  using caller_facing_totality[of "replies (Inl ClientError)" "[]" "[]" "js ''2+3*4''"]
    caller_facing_totality[of "replies (Inr (Response None))" "[]" "[]" "js ''2+a''"]
  by (simp add: replies_def gemini_extractExpressionFromImage_def gemini_extract_try_def
      local_extractExpressionFromImage_def local_extract_try_def gemini_calculateExpression_def
      gemini_calculate_try_def calc_eval parse_eval literal_eval number_eval
      string_number_eval char_classes string_ops)


section \<open>The validation policy of the extractors\<close>

text \<open>
  C2. Both extractors apply one validation policy to the text they have prepared from the
  model's response (the trimmed response in services/geminiService.ts, the cleaned one in
  the second service file): a text with at least one digit and at least one of the
  characters + - * / is accepted and returned sanitized; any other text is returned as it
  is when it starts with "ERROR:", and replaced by "ERROR: Could not recognize a valid
  expression in the image." when it does not. A response that lacks a digit or lacks an
  operator therefore always gives a result that starts with "ERROR:".
\<close>

theorem extractor_validation_policy:
  "(ai (ExtractionRequest ''gemini-2.5-flash'' mimeType base64Image) = Inr (Response (Some raw)) \<longrightarrow>
      gemini_extractExpressionFromImage ai base64Image mimeType =
        Inr (let t = trim raw in
             if list_ex digit t \<and> list_ex operator t then filter allowed t
             else if startsWith t (js ''ERROR:'') then t
             else js ''ERROR: Could not recognize a valid expression in the image.'')
      \<and> (\<not> (list_ex digit raw \<and> list_ex operator raw) \<longrightarrow>
           (\<exists>out. gemini_extractExpressionFromImage ai base64Image mimeType = Inr out \<and> tagged out)))
   \<and> (ai (ExtractionRequest ''gemini-2.5-pro'' mimeType base64Image) = Inr (Response (Some raw)) \<longrightarrow>
      local_extractExpressionFromImage ai base64Image mimeType =
        Inr (let t = clean raw in
             if list_ex digit t \<and> list_ex operator t then filter expr_char t
             else if startsWith t (js ''ERROR:'') then t
             else js ''ERROR: Could not recognize a valid expression in the image.'')
      \<and> (\<not> (list_ex digit raw \<and> list_ex operator raw) \<longrightarrow>
           (\<exists>out. local_extractExpressionFromImage ai base64Image mimeType = Inr out \<and> tagged out)))"
proof (intro conjI impI)
  assume "ai (ExtractionRequest ''gemini-2.5-flash'' mimeType base64Image) = Inr (Response (Some raw))"
  then have r: "gemini_extractExpressionFromImage ai base64Image mimeType
      = Inr (gemini_validate (trim raw))"
    by (simp add: gemini_extractExpressionFromImage_def gemini_extract_try_def)
  show "gemini_extractExpressionFromImage ai base64Image mimeType =
        Inr (let t = trim raw in
             if list_ex digit t \<and> list_ex operator t then filter allowed t
             else if startsWith t (js ''ERROR:'') then t
             else js ''ERROR: Could not recognize a valid expression in the image.'')"
    unfolding r by (auto simp: gemini_validate_def Let_def)
  assume n: "\<not> (list_ex digit raw \<and> list_ex operator raw)"
  have "\<not> (list_ex digit (trim raw) \<and> list_ex operator (trim raw))"
    using n list_ex_mono_set[OF set_trim] by blast
  then show "\<exists>out. gemini_extractExpressionFromImage ai base64Image mimeType = Inr out \<and> tagged out"
    unfolding r using gemini_validate_tagged by blast
next
  assume "ai (ExtractionRequest ''gemini-2.5-pro'' mimeType base64Image) = Inr (Response (Some raw))"
  then have r: "local_extractExpressionFromImage ai base64Image mimeType
      = Inr (local_validate (clean raw))"
    by (simp add: local_extractExpressionFromImage_def local_extract_try_def)
  show "local_extractExpressionFromImage ai base64Image mimeType =
        Inr (let t = clean raw in
             if list_ex digit t \<and> list_ex operator t then filter expr_char t
             else if startsWith t (js ''ERROR:'') then t
             else js ''ERROR: Could not recognize a valid expression in the image.'')"
    unfolding r by (auto simp: local_validate_def Let_def)
  assume n: "\<not> (list_ex digit raw \<and> list_ex operator raw)"
  have "\<not> (list_ex digit (clean raw) \<and> list_ex operator (clean raw))"
    using n list_ex_mono_set[OF set_clean] by blast
  then show "\<exists>out. local_extractExpressionFromImage ai base64Image mimeType = Inr out \<and> tagged out"
    unfolding r using local_validate_tagged by blast
qed

theorem extractor_validation_policy_witness:
  "replies (Inr (Response (Some (js ''x = 12 + 3''))))
      (ExtractionRequest ''gemini-2.5-flash'' [] []) = Inr (Response (Some (js ''x = 12 + 3'')))
   \<and> gemini_extractExpressionFromImage (replies (Inr (Response (Some (js ''x = 12 + 3''))))) [] []
      = Inr (js ''  12 + 3'')
   \<and> replies (Inr (Response (Some (js ''x = 12 + 3''))))
      (ExtractionRequest ''gemini-2.5-pro'' [] []) = Inr (Response (Some (js ''x = 12 + 3'')))
   \<and> local_extractExpressionFromImage (replies (Inr (Response (Some (js ''x = 12 + 3''))))) [] []
      = Inr (js ''12+3'')"
  using extractor_validation_policy
    [of "replies (Inr (Response (Some (js ''x = 12 + 3''))))" "[]" "[]" "js ''x = 12 + 3''"]
  by (simp add: replies_def clean_def label_match_def label_word_def ci_eq_def separator_def
      char_classes string_ops)


section \<open>Sanitization\<close>

text \<open>
  C3. Whenever an extractor returns a string that does not start with "ERROR:", every
  character of it is a digit, a dot, one of + - * /, a parenthesis or white space; and
  stripping the disallowed characters from a string that has been stripped already
  changes nothing.
\<close>

theorem extractor_sanitization:
  "(gemini_extractExpressionFromImage ai base64Image mimeType = Inr out \<and> \<not> tagged out
      \<longrightarrow> list_all allowed out)
   \<and> (local_extractExpressionFromImage ai base64Image mimeType = Inr out' \<and> \<not> tagged out'
      \<longrightarrow> list_all allowed out')
   \<and> filter allowed (filter allowed s) = filter allowed s
   \<and> filter expr_char (filter expr_char s) = filter expr_char s"
proof (intro conjI impI)
  assume a: "gemini_extractExpressionFromImage ai base64Image mimeType = Inr out \<and> \<not> tagged out"
  then obtain raw where "out = gemini_validate (trim raw)"
    using gemini_extract_cases[of ai base64Image mimeType] tagged_js by auto
  then have "out = filter allowed (trim raw)"
    using a gemini_validate_cases[of "trim raw"] by auto
  then show "list_all allowed out" by (simp add: list_all_iff)
next
  assume a: "local_extractExpressionFromImage ai base64Image mimeType = Inr out' \<and> \<not> tagged out'"
  then obtain raw where "out' = local_validate (clean raw)"
    using local_extract_cases[of ai base64Image mimeType] tagged_js by auto
  then have "out' = filter expr_char (clean raw)"
    using a local_validate_cases[of "clean raw"] by auto
  then show "list_all allowed out'" by (simp add: list_all_iff allowed_def)
qed simp_all

theorem extractor_sanitization_witness:
  "gemini_extractExpressionFromImage (replies (Inr (Response (Some (js ''x = 12 + 3''))))) [] []
      = Inr (js ''  12 + 3'')
   \<and> \<not> tagged (js ''  12 + 3'') \<and> list_all allowed (js ''  12 + 3'')
   \<and> local_extractExpressionFromImage (replies (Inr (Response (Some (js ''x = 12 + 3''))))) [] []
      = Inr (js ''12+3'')
   \<and> \<not> tagged (js ''12+3'') \<and> list_all allowed (js ''12+3'')"
  using extractor_sanitization
    [of "replies (Inr (Response (Some (js ''x = 12 + 3''))))" "[]" "[]" "js ''  12 + 3''"
        "js ''12+3''"]
  by (simp add: replies_def gemini_extractExpressionFromImage_def gemini_extract_try_def
      local_extractExpressionFromImage_def local_extract_try_def gemini_validate_def
      local_validate_def clean_def label_match_def label_word_def ci_eq_def separator_def
      char_classes string_ops)


section \<open>The guards of the local evaluator\<close>

text \<open>
  C4. The local evaluator checks its input before evaluating it. An input with a
  character outside digits, dot, + - * /, parentheses and white space is answered with
  "ERROR: Expression contains invalid characters."; an input of allowed characters in
  which two of the characters + - * / stand side by side is answered with "ERROR: Invalid
  operator sequence.", as "3++4" and "5*/2" are.
\<close>

theorem local_prevalidation:
  "(\<not> list_all allowed s \<longrightarrow>
      local_calculateExpression s = Some (Inr (js ''ERROR: Expression contains invalid characters.'')))
   \<and> (list_all allowed s \<and> Suc i < length s \<and> operator (s ! i) \<and> operator (s ! Suc i) \<longrightarrow>
      local_calculateExpression s = Some (Inr (js ''ERROR: Invalid operator sequence.'')))
   \<and> local_calculateExpression (js ''3++4'') = Some (Inr (js ''ERROR: Invalid operator sequence.''))
   \<and> local_calculateExpression (js ''5*/2'') = Some (Inr (js ''ERROR: Invalid operator sequence.''))"
proof (intro conjI impI)
  assume "\<not> list_all allowed s"
  then show "local_calculateExpression s
      = Some (Inr (js ''ERROR: Expression contains invalid characters.''))"
    by (simp add: local_calculateExpression_cases)
next
  assume a: "list_all allowed s \<and> Suc i < length s \<and> operator (s ! i) \<and> operator (s ! Suc i)"
  then have "operator_run s" using operator_run_iff by blast
  then show "local_calculateExpression s = Some (Inr (js ''ERROR: Invalid operator sequence.''))"
    using a by (simp add: local_calculateExpression_cases)
next
  show "local_calculateExpression (js ''3++4'') = Some (Inr (js ''ERROR: Invalid operator sequence.''))"
    by (simp add: local_calculateExpression_cases char_classes)
  show "local_calculateExpression (js ''5*/2'') = Some (Inr (js ''ERROR: Invalid operator sequence.''))"
    by (simp add: local_calculateExpression_cases char_classes)
qed

theorem local_prevalidation_witness:
  "\<not> list_all allowed (js ''2+a'')
   \<and> local_calculateExpression (js ''2+a'') = Some (Inr (js ''ERROR: Expression contains invalid characters.''))
   \<and> list_all allowed (js ''2 +- 3'') \<and> Suc 2 < length (js ''2 +- 3'')
   \<and> operator (js ''2 +- 3'' ! 2) \<and> operator (js ''2 +- 3'' ! Suc 2)
   \<and> local_calculateExpression (js ''2 +- 3'') = Some (Inr (js ''ERROR: Invalid operator sequence.''))"
  using local_prevalidation[of "js ''2+a''" 0] local_prevalidation[of "js ''2 +- 3''" 2]
  by (simp add: char_classes)


section \<open>Precedence and associativity in the local evaluator\<close>

text \<open>
  C5. The local evaluator follows the usual precedence and associativity. For every
  expression tree over operands written with digits, the evaluator applied to the
  conventional notation of the tree returns the rendering of the number the tree stands
  for (or the invalid-number message when that number is not finite): * and / bind tighter
  than + and -, operators of one precedence group from the left, and parentheses override
  both. In particular, for all operands a, b, c and all operators x and y, the text
  a x b y c is evaluated as a x (b y c) when y is * or / and x is + or -, and as
  (a x b) y c in every other case, while "(a x b) y c" and "a x (b y c)" are evaluated as
  they are grouped. The value of an operand is the value its literal has in the host
  language. "2+3*4" gives "14", "(2+3)*4" gives "20", "34+54+67+87" gives "242", "8-4+2"
  gives "6", "2+6/2" gives "5", "8/4*2" gives "4", "2-3*4" gives "-10", "7/2" gives "3.5",
  "8-(4+2)" gives "2", "8/(4*2)" gives "1", "-2+3*4" gives "10" and "2 + 3 * 4" gives
  "14".
\<close>

theorem precedence_and_associativity:
  "(operands_digits e \<longrightarrow>
      local_calculateExpression (notation_of 0 e) = Some (Inr (local_result (Num (meaning e)))))
   \<and> (digits a \<and> digits b \<and> digits c \<longrightarrow>
        local_calculateExpression (a @ [sym x] @ b @ [sym y] @ c)
          = Some (Inr (local_result (Num
              (if prec x < prec y
               then apply_op x (literal a) (apply_op y (literal b) (literal c))
               else apply_op y (apply_op x (literal a) (literal b)) (literal c)))))
        \<and> local_calculateExpression ([0x28] @ a @ [sym x] @ b @ [0x29] @ [sym y] @ c)
          = Some (Inr (local_result (Num
              (apply_op y (apply_op x (literal a) (literal b)) (literal c)))))
        \<and> local_calculateExpression (a @ [sym x] @ [0x28] @ b @ [sym y] @ c @ [0x29])
          = Some (Inr (local_result (Num
              (apply_op x (literal a) (apply_op y (literal b) (literal c)))))))
   \<and> local_calculateExpression (js ''2+3*4'') = Some (Inr (js ''14''))
   \<and> local_calculateExpression (js ''(2+3)*4'') = Some (Inr (js ''20''))
   \<and> local_calculateExpression (js ''34+54+67+87'') = Some (Inr (js ''242''))
   \<and> local_calculateExpression (js ''8-4+2'') = Some (Inr (js ''6''))
   \<and> local_calculateExpression (js ''2+6/2'') = Some (Inr (js ''5''))
   \<and> local_calculateExpression (js ''8/4*2'') = Some (Inr (js ''4''))
   \<and> local_calculateExpression (js ''2-3*4'') = Some (Inr (js ''-10''))
   \<and> local_calculateExpression (js ''7/2'') = Some (Inr (js ''3.5''))
   \<and> local_calculateExpression (js ''8-(4+2)'') = Some (Inr (js ''2''))
   \<and> local_calculateExpression (js ''8/(4*2)'') = Some (Inr (js ''1''))
   \<and> local_calculateExpression (js ''-2+3*4'') = Some (Inr (js ''10''))
   \<and> local_calculateExpression (js ''2 + 3 * 4'') = Some (Inr (js ''14''))"
proof -
  have e: "local_calculateExpression (js ''2+3*4'') = Some (Inr (js ''14''))"
    "local_calculateExpression (js ''(2+3)*4'') = Some (Inr (js ''20''))"
    "local_calculateExpression (js ''34+54+67+87'') = Some (Inr (js ''242''))"
    "local_calculateExpression (js ''8-4+2'') = Some (Inr (js ''6''))"
    "local_calculateExpression (js ''2+6/2'') = Some (Inr (js ''5''))"
    "local_calculateExpression (js ''8/4*2'') = Some (Inr (js ''4''))"
    "local_calculateExpression (js ''2-3*4'') = Some (Inr (js ''-10''))"
    "local_calculateExpression (js ''7/2'') = Some (Inr (js ''3.5''))"
    "local_calculateExpression (js ''8-(4+2)'') = Some (Inr (js ''2''))"
    "local_calculateExpression (js ''8/(4*2)'') = Some (Inr (js ''1''))"
    "local_calculateExpression (js ''-2+3*4'') = Some (Inr (js ''10''))"
    "local_calculateExpression (js ''2 + 3 * 4'') = Some (Inr (js ''14''))"
    by (simp_all add: calc_eval parse_eval literal_eval number_eval char_classes)
  show ?thesis
    using calculate_notation[of e] three_operands[of a b c x y] e by (intro conjI impI) simp_all
qed

theorem precedence_and_associativity_witness:
  "operands_digits
      (Binary (Operand (js ''8'')) Subtraction
         (Binary (Binary (Binary (Operand (js ''4'')) Addition (Operand (js ''2'')))
                    Multiplication (Operand (js ''3'')))
            Division (Operand (js ''9''))))
   \<and> notation_of 0
      (Binary (Operand (js ''8'')) Subtraction
         (Binary (Binary (Binary (Operand (js ''4'')) Addition (Operand (js ''2'')))
                    Multiplication (Operand (js ''3'')))
            Division (Operand (js ''9'')))) = js ''8-(4+2)*3/9''
   \<and> local_calculateExpression (js ''8-(4+2)*3/9'') = Some (Inr (js ''6''))
   \<and> digits (js ''8'') \<and> digits (js ''4'') \<and> digits (js ''2'')
   \<and> local_calculateExpression (js ''8-4/2'') = Some (Inr (js ''6''))
   \<and> local_calculateExpression (js ''(8-4)/2'') = Some (Inr (js ''2''))
   \<and> local_calculateExpression (js ''8-(4/2)'') = Some (Inr (js ''6''))"
  using precedence_and_associativity
    [of "Binary (Operand (js ''8'')) Subtraction
           (Binary (Binary (Binary (Operand (js ''4'')) Addition (Operand (js ''2'')))
                      Multiplication (Operand (js ''3'')))
              Division (Operand (js ''9'')))"
        "js ''8''" "js ''4''" "js ''2''" Subtraction Division]
  by (simp add: digits_def literal_def mv_def local_result_def literal_eval number_eval
      char_classes)


section \<open>Failures of the local evaluator\<close>

text \<open>
  Texts that are no arithmetic expressions and still pass both guards are not all answered
  with "ERROR: Invalid or unrecognized mathematical expression.": "/2/" is read as a
  regular expression literal and the empty text returns nothing, so both end in "ERROR:
  Calculation resulted in an invalid number."; and in "1", line feed, "2" the line break
  ends the return statement, so the result is "1".
\<close>

theorem malformed_not_rejected:
  "local_calculateExpression (js ''/2/'')
      = Some (Inr (js ''ERROR: Calculation resulted in an invalid number.''))
   \<and> local_calculateExpression [0x31, 0x0A, 0x32] = Some (Inr (js ''1''))
   \<and> local_calculateExpression []
      = Some (Inr (js ''ERROR: Calculation resulted in an invalid number.''))
   \<and> js ''ERROR: Calculation resulted in an invalid number.''
      \<noteq> js ''ERROR: Invalid or unrecognized mathematical expression.''
   \<and> js ''1'' \<noteq> js ''ERROR: Invalid or unrecognized mathematical expression.''"
  by (simp add: calc_eval parse_eval literal_eval number_eval char_classes)

text \<open>
  C6, as the code has it. For a text that has passed both guards: when the evaluator
  returns a value that is not a finite number (a division by zero, an overflow, NaN, or
  a value that is no number), the answer is "ERROR: Calculation resulted in an invalid
  number."; when the evaluator throws, the answer is "ERROR: Invalid or unrecognized
  mathematical expression.". A finite dividend divided by zero is never finite, a product
  whose exact value reaches 2 to the power 1024 is not finite, and "5/0" is answered with
  the first message, a string that starts with "ERROR:".
\<close>

theorem local_failure_mapping:
  "(list_all allowed s \<and> \<not> operator_run s \<and> return s = Inr v \<and> \<not> finite_number v \<longrightarrow>
      local_calculateExpression s
        = Some (Inr (js ''ERROR: Calculation resulted in an invalid number.'')))
   \<and> (list_all allowed s \<and> \<not> operator_run s \<and> return s = Inl e \<longrightarrow>
      local_calculateExpression s
        = Some (Inr (js ''ERROR: Invalid or unrecognized mathematical expression.'')))
   \<and> \<not> isFinite (divide (Finite a x) (Finite b 0))
   \<and> (pow2 1024 \<le> \<bar>x * y\<bar> \<longrightarrow> \<not> isFinite (multiply (Finite a x) (Finite b y)))
   \<and> local_calculateExpression (js ''5/0'')
        = Some (Inr (js ''ERROR: Calculation resulted in an invalid number.''))
   \<and> tagged (js ''ERROR: Calculation resulted in an invalid number.'')
   \<and> tagged (js ''ERROR: Invalid or unrecognized mathematical expression.'')"
proof -
  have a: "local_calculateExpression s
        = Some (Inr (js ''ERROR: Calculation resulted in an invalid number.''))"
    if "list_all allowed s \<and> \<not> operator_run s \<and> return s = Inr v \<and> \<not> finite_number v"
    using that by (simp add: local_calculateExpression_cases local_result_invalid)
  have b: "local_calculateExpression s
        = Some (Inr (js ''ERROR: Invalid or unrecognized mathematical expression.''))"
    if "list_all allowed s \<and> \<not> operator_run s \<and> return s = Inl e"
    using that by (simp add: local_calculateExpression_cases)
  have c: "\<not> isFinite (divide (Finite a x) (Finite b 0))" by simp
  have o: "\<not> isFinite (multiply (Finite a x) (Finite b y))" if "pow2 1024 \<le> \<bar>x * y\<bar>"
    using that by (simp add: fl_overflow)
  have d: "local_calculateExpression (js ''5/0'')
        = Some (Inr (js ''ERROR: Calculation resulted in an invalid number.''))"
    by (simp add: calc_eval parse_eval literal_eval number_eval char_classes)
  have t: "tagged (js ''ERROR: Calculation resulted in an invalid number.'')"
    "tagged (js ''ERROR: Invalid or unrecognized mathematical expression.'')"
    by (simp_all add: tagged_def startsWith_def js_def)
  show ?thesis using a b c d o t by blast
qed

theorem local_failure_mapping_witness:
  "list_all allowed (js ''5/0'') \<and> \<not> operator_run (js ''5/0'')
   \<and> return (js ''5/0'') = Inr (Num (Infinity False)) \<and> \<not> finite_number (Num (Infinity False))
   \<and> local_calculateExpression (js ''5/0'')
        = Some (Inr (js ''ERROR: Calculation resulted in an invalid number.''))
   \<and> list_all allowed (js ''(2+3'') \<and> \<not> operator_run (js ''(2+3'')
   \<and> return (js ''(2+3'') = Inl SyntaxError
   \<and> local_calculateExpression (js ''(2+3'')
        = Some (Inr (js ''ERROR: Invalid or unrecognized mathematical expression.''))
   \<and> pow2 1024 \<le> \<bar>pow2 1023 * 2\<bar>
   \<and> \<not> isFinite (multiply (Finite False (pow2 1023)) (Finite False 2))"
proof -
  have h: "pow2 1024 \<le> \<bar>pow2 1023 * 2\<bar>" by (simp add: pow2_def)
  have o: "\<not> isFinite (multiply (Finite False (pow2 1023)) (Finite False 2))"
    using local_failure_mapping[where x = "pow2 1023" and y = 2 and a = False and b = False] h
    by blast
  have r: "list_all allowed (js ''5/0'') \<and> \<not> operator_run (js ''5/0'')
   \<and> return (js ''5/0'') = Inr (Num (Infinity False)) \<and> \<not> finite_number (Num (Infinity False))
   \<and> local_calculateExpression (js ''5/0'')
        = Some (Inr (js ''ERROR: Calculation resulted in an invalid number.''))
   \<and> list_all allowed (js ''(2+3'') \<and> \<not> operator_run (js ''(2+3'')
   \<and> return (js ''(2+3'') = Inl SyntaxError
   \<and> local_calculateExpression (js ''(2+3'')
        = Some (Inr (js ''ERROR: Invalid or unrecognized mathematical expression.''))"
    using local_failure_mapping[of "js ''5/0''" "Num (Infinity False)"]
      local_failure_mapping[of "js ''(2+3''" _ SyntaxError]
    by (simp add: binary_def arith_def parse_eval literal_eval number_eval char_classes)
  show ?thesis using h o r by blast
qed


section \<open>The check of the remote evaluator\<close>

text \<open>
  C7. The evaluator of services/geminiService.ts trims the model's response; when the
  trimmed text passes the numeric check (parseFloat gives a number and Number gives a
  finite one) it is returned as it stands, not reformatted; otherwise it is returned
  unchanged when it starts with "ERROR:", and replaced by "ERROR: AI returned an invalid
  numerical format." when it does not.
\<close>

theorem remote_response_validation:
  "ai (CalculationRequest ''gemini-2.5-flash'' expression) = Inr (Response (Some raw)) \<longrightarrow>
     gemini_calculateExpression ai expression =
       Inr (let text = trim raw in
            if \<not> isNaN (parseFloat text) \<and> isFinite (StringToNumber text) then text
            else if startsWith text (js ''ERROR:'') then text
            else js ''ERROR: AI returned an invalid numerical format.'')"
  by (simp add: gemini_calculate_text gemini_check_def Let_def)

theorem remote_response_validation_witness:
  "replies (Inr (Response (Some (js '' 242.0 '')))) (CalculationRequest ''gemini-2.5-flash'' (js ''34+54+67+87''))
      = Inr (Response (Some (js '' 242.0 '')))
   \<and> trim (js '' 242.0 '') = js ''242.0''
   \<and> parseFloat (js ''242.0'') = Finite False 242 \<and> StringToNumber (js ''242.0'') = Finite False 242
   \<and> gemini_calculateExpression (replies (Inr (Response (Some (js '' 242.0 ''))))) (js ''34+54+67+87'')
      = Inr (js ''242.0'')"
  using remote_response_validation
    [of "replies (Inr (Response (Some (js '' 242.0 ''))))" "js ''34+54+67+87''" "js '' 242.0 ''"]
  by (simp add: replies_def string_number_eval literal_eval number_eval char_classes string_ops)


section \<open>Cleaning of the response\<close>

text \<open>
  The extractor of services/geminiService.ts only trims the response: the run of white
  space inside "1  +  2" is returned as it is, and the space after a stripped "=" stays
  at the front of the result.
\<close>

theorem gemini_extractor_keeps_whitespace:
  "gemini_extractExpressionFromImage (replies (Inr (Response (Some (js ''1  +  2''))))) [] []
      = Inr (js ''1  +  2'')
   \<and> \<not> tagged (js ''1  +  2'') \<and> whitespace_run (js ''1  +  2'')
   \<and> gemini_extractExpressionFromImage (replies (Inr (Response (Some (js ''= 1+2''))))) [] []
      = Inr (js '' 1+2'')
   \<and> \<not> tagged (js '' 1+2'') \<and> padded (js '' 1+2'')"
  by (simp add: replies_def gemini_extractExpressionFromImage_def gemini_extract_try_def
      gemini_validate_def char_classes string_ops)

text \<open>
  C8, as the code has it. The extractor of the second service file trims the response,
  deletes the labels and then deletes all white space, and validates what is left. A label
  is deleted wherever it stands: the word "expression", "result" or "answer" in any mix of
  capital and small letters, together with one ":" or "-" right after it, if there is one,
  and all the white space that follows; where the text does not start with one of these
  words, its first character stays and the deletion goes on behind it. So "answer-5+3"
  gives "5+3", "EXPRESSION: 2*3" gives "2*3", "The result is 4/2" gives "4/2" and
  " Answer: 1  +  2 " gives "1+2". A result of this extractor that does not start with
  "ERROR:" contains no white space at all, so none at either end and no run of it. The
  extractor of services/geminiService.ts validates the trimmed response as it stands; a
  result of it that does not start with "ERROR:" is the trimmed response without its
  disallowed characters, and white space is not among them.
\<close>

theorem extractor_cleaning:
  "(ai (ExtractionRequest ''gemini-2.5-pro'' mimeType base64Image) = Inr (Response (Some raw)) \<longrightarrow>
      local_extractExpressionFromImage ai base64Image mimeType =
        Inr (local_validate (filter (\<lambda>c. \<not> whitespace c) (strip_labels (trim raw)))))
   \<and> strip_labels [] = []
   \<and> ((map lower_case w = js ''expression'' \<or> map lower_case w = js ''result''
          \<or> map lower_case w = js ''answer'')
       \<and> (sep = [] \<or> sep = js '':'' \<or> sep = js ''-'')
       \<and> list_all whitespace ws
       \<and> (case rest of [] \<Rightarrow> True
           | c # r \<Rightarrow> \<not> whitespace c \<and> (sep = [] \<and> ws = [] \<longrightarrow> c \<noteq> 0x3A \<and> c \<noteq> 0x2D))
       \<longrightarrow> strip_labels (w @ sep @ ws @ rest) = strip_labels rest)
   \<and> (\<not> starts_label (x # s) \<longrightarrow> strip_labels (x # s) = x # strip_labels s)
   \<and> (local_extractExpressionFromImage ai base64Image mimeType = Inr out \<and> \<not> tagged out \<longrightarrow>
        \<not> list_ex whitespace out \<and> \<not> padded out \<and> \<not> whitespace_run out)
   \<and> (ai (ExtractionRequest ''gemini-2.5-flash'' mimeType base64Image) = Inr (Response (Some raw)) \<longrightarrow>
      gemini_extractExpressionFromImage ai base64Image mimeType = Inr (gemini_validate (trim raw))
      \<and> (\<not> tagged (gemini_validate (trim raw)) \<longrightarrow>
            gemini_validate (trim raw) = filter allowed (trim raw)))
   \<and> local_extractExpressionFromImage (replies (Inr (Response (Some (js ''answer-5+3''))))) [] []
      = Inr (js ''5+3'')
   \<and> local_extractExpressionFromImage (replies (Inr (Response (Some (js ''EXPRESSION: 2*3''))))) [] []
      = Inr (js ''2*3'')
   \<and> local_extractExpressionFromImage (replies (Inr (Response (Some (js ''The result is 4/2''))))) [] []
      = Inr (js ''4/2'')
   \<and> local_extractExpressionFromImage (replies (Inr (Response (Some (js '' Answer: 1  +  2 ''))))) [] []
      = Inr (js ''1+2'')"
proof (intro conjI impI)
  assume "ai (ExtractionRequest ''gemini-2.5-pro'' mimeType base64Image) = Inr (Response (Some raw))"
  then show "local_extractExpressionFromImage ai base64Image mimeType =
        Inr (local_validate (filter (\<lambda>c. \<not> whitespace c) (strip_labels (trim raw))))"
    by (simp add: local_extractExpressionFromImage_def local_extract_try_def clean_def)
next
  show "strip_labels [] = []" by simp
next
  assume a: "(map lower_case w = js ''expression'' \<or> map lower_case w = js ''result''
          \<or> map lower_case w = js ''answer'')
       \<and> (sep = [] \<or> sep = js '':'' \<or> sep = js ''-'')
       \<and> list_all whitespace ws
       \<and> (case rest of [] \<Rightarrow> True
           | c # r \<Rightarrow> \<not> whitespace c \<and> (sep = [] \<and> ws = [] \<longrightarrow> c \<noteq> 0x3A \<and> c \<noteq> 0x2D))"
  show "strip_labels (w @ sep @ ws @ rest) = strip_labels rest"
    using a by (intro strip_labels_label) blast+
next
  assume "\<not> starts_label (x # s)"
  then show "strip_labels (x # s) = x # strip_labels s" by (rule strip_labels_keep)
next
  assume a: "local_extractExpressionFromImage ai base64Image mimeType = Inr out \<and> \<not> tagged out"
  then obtain raw' where "out = local_validate (clean raw')"
    using local_extract_cases[of ai base64Image mimeType] tagged_js by auto
  then have "out = filter expr_char (clean raw')"
    using a local_validate_cases[of "clean raw'"] by auto
  then have n: "\<not> list_ex whitespace out"
    using clean_no_whitespace[of raw'] by (auto simp: list_ex_iff)
  show "\<not> list_ex whitespace out" by (rule n)
  show "\<not> padded out" using n by (rule no_whitespace_padded)
  show "\<not> whitespace_run out" using n by (rule no_whitespace_run)
next
  assume "ai (ExtractionRequest ''gemini-2.5-flash'' mimeType base64Image) = Inr (Response (Some raw))"
  then show "gemini_extractExpressionFromImage ai base64Image mimeType
      = Inr (gemini_validate (trim raw))"
    by (simp add: gemini_extractExpressionFromImage_def gemini_extract_try_def)
next
  assume "\<not> tagged (gemini_validate (trim raw))"
  then show "gemini_validate (trim raw) = filter allowed (trim raw)"
    using gemini_validate_cases[of "trim raw"] by simp
next
  show "local_extractExpressionFromImage (replies (Inr (Response (Some (js ''answer-5+3''))))) [] []
      = Inr (js ''5+3'')"
    by (simp add: replies_def local_extractExpressionFromImage_def local_extract_try_def
        local_validate_def clean_def label_match_def label_word_def ci_eq_def separator_def
        char_classes string_ops)
  show "local_extractExpressionFromImage (replies (Inr (Response (Some (js ''EXPRESSION: 2*3''))))) [] []
      = Inr (js ''2*3'')"
    by (simp add: replies_def local_extractExpressionFromImage_def local_extract_try_def
        local_validate_def clean_def label_match_def label_word_def ci_eq_def separator_def
        char_classes string_ops)
  show "local_extractExpressionFromImage (replies (Inr (Response (Some (js ''The result is 4/2''))))) [] []
      = Inr (js ''4/2'')"
    by (simp add: replies_def local_extractExpressionFromImage_def local_extract_try_def
        local_validate_def clean_def label_match_def label_word_def ci_eq_def separator_def
        char_classes string_ops)
  show "local_extractExpressionFromImage (replies (Inr (Response (Some (js '' Answer: 1  +  2 ''))))) [] []
      = Inr (js ''1+2'')"
    by (simp add: replies_def local_extractExpressionFromImage_def local_extract_try_def
        local_validate_def clean_def label_match_def label_word_def ci_eq_def separator_def
        char_classes string_ops)
qed

theorem extractor_cleaning_witness:
  "replies (Inr (Response (Some (js '' Answer: 1  +  2 ''))))
      (ExtractionRequest ''gemini-2.5-pro'' [] []) = Inr (Response (Some (js '' Answer: 1  +  2 '')))
   \<and> local_extractExpressionFromImage (replies (Inr (Response (Some (js '' Answer: 1  +  2 ''))))) [] []
      = Inr (js ''1+2'')
   \<and> \<not> tagged (js ''1+2'') \<and> \<not> list_ex whitespace (js ''1+2'')
   \<and> map lower_case (js ''Answer'') = js ''answer'' \<and> list_all whitespace (js '' '')
   \<and> strip_labels (js ''Answer: 1  +  2'') = js ''1  +  2''
   \<and> \<not> starts_label (js ''1  +  2'')
   \<and> replies (Inr (Response (Some (js '' Answer: 1  +  2 ''))))
      (ExtractionRequest ''gemini-2.5-flash'' [] []) = Inr (Response (Some (js '' Answer: 1  +  2 '')))
   \<and> gemini_extractExpressionFromImage (replies (Inr (Response (Some (js '' Answer: 1  +  2 ''))))) [] []
      = Inr (js '' 1  +  2'')
   \<and> \<not> tagged (js '' 1  +  2'')"
  using extractor_cleaning
    [where ai = "replies (Inr (Response (Some (js '' Answer: 1  +  2 ''))))"
       and mimeType = "[]" and base64Image = "[]" and raw = "js '' Answer: 1  +  2 ''"
       and out = "js ''1+2''" and w = "js ''Answer''" and sep = "js '':''" and ws = "js '' ''"
       and rest = "js ''1  +  2''" and x = "0x31" and s = "js ''  +  2''"]
  by (simp add: replies_def local_validate_def gemini_validate_def label_match_def
      label_word_def ci_eq_def separator_def lower_case_def starts_label_def char_classes
      string_ops)


section \<open>The guards come first\<close>

text \<open>
  C9. The text given to the dynamic evaluator is "return " followed by the input itself,
  and it is given only after both guards have passed: all its characters are allowed and
  no two operator characters are adjacent. An input with a disallowed character ends at
  the first guard, and the evaluator is entered from nowhere else.
\<close>

theorem guard_before_evaluation:
  "(local_guard s = Inr body \<longrightarrow>
      body = js ''return '' @ s \<and> list_all allowed s \<and> \<not> operator_run s
      \<and> new_Function body = Some (return s))
   \<and> (\<not> list_all allowed s \<longrightarrow>
        local_guard s = Inl (js ''ERROR: Expression contains invalid characters.''))
   \<and> local_calculate_try s =
        (case local_guard s of
           Inl message \<Rightarrow> Some (Inr message)
         | Inr body \<Rightarrow> map_option (map_sum id local_result) (new_Function body))"
proof -
  have a: "body = js ''return '' @ s \<and> list_all allowed s \<and> \<not> operator_run s
      \<and> new_Function body = Some (return s)" if "local_guard s = Inr body"
  proof -
    have "body = js ''return '' @ s \<and> list_all allowed s \<and> \<not> operator_run s"
      using that by (auto simp: local_guard_cases split: if_splits)
    then show ?thesis using new_Function_return by blast
  qed
  have b: "local_guard s = Inl (js ''ERROR: Expression contains invalid characters.'')"
    if "\<not> list_all allowed s"
    using that by (simp add: local_guard_cases)
  have c: "local_calculate_try s =
        (case local_guard s of
           Inl message \<Rightarrow> Some (Inr message)
         | Inr body \<Rightarrow> map_option (map_sum id local_result) (new_Function body))"
    by (auto simp: local_calculate_try_def split: sum.splits option.splits)
  show ?thesis using a b c by blast
qed

theorem guard_before_evaluation_witness:
  "local_guard (js ''2+3*4'') = Inr (js ''return 2+3*4'')
   \<and> list_all allowed (js ''2+3*4'') \<and> \<not> operator_run (js ''2+3*4'')
   \<and> \<not> list_all allowed (js ''2+a'')
   \<and> local_guard (js ''2+a'') = Inl (js ''ERROR: Expression contains invalid characters.'')"
  using guard_before_evaluation[of "js ''2+3*4''" "js ''return 2+3*4''"]
    guard_before_evaluation[of "js ''2+a''"]
  by (simp add: local_guard_def char_classes)


section \<open>Operators apart\<close>

text \<open>
  C10. The second guard looks only at operator characters that touch. In "3+ +4" a space
  separates them, the guard passes, the second + is read as a unary sign, and the result
  is "7", not "ERROR: Invalid operator sequence.".
\<close>

theorem adjacency_gap:
  "local_calculateExpression (js ''3+ +4'') = Some (Inr (js ''7''))
   \<and> \<not> operator_run (js ''3+ +4'')
   \<and> parse (js ''3+ +4'') = Some [Add (Lit 3) (Pos (Lit 4))]
   \<and> js ''7'' \<noteq> js ''ERROR: Invalid operator sequence.''"
  by (simp add: calc_eval parse_eval literal_eval number_eval char_classes)

end
